(* ===== verification/Prelude.thy ===== *)
theory Prelude
  imports Main "HOL-Library.Word"
begin

text \<open>
  Shared vocabulary of the development: machine integers, the results of fallible Rust code,
  the overflow-checked arithmetic of Rust, slices, and the little monad in which code that
  mutates a value through \<open>&mut\<close> is written. The second half holds the generic lemmas on
  results, words and lists that the component theories use.

  A Rust function that returns \<open>Result<A, E>\<close> is a HOL function into \<open>('e, 'a) res\<close>. The third
  constructor, \<open>Panic\<close>, is what an overflow-checked build does on an arithmetic overflow, an
  index out of range or an \<open>unwrap\<close> of \<open>None\<close>; a definition that never mentions it cannot panic
  on the operand types it has, and for the others its absence is proved.
\<close>

unbundle bit_operations_syntax

named_theorems res_simps \<open>unfolding of the result monad and of checked arithmetic\<close>
named_theorems op_simps \<open>unfolding of the state-passing operations\<close>

type_synonym u8 = "8 word"
type_synonym u16 = "16 word"
type_synonym u32 = "32 word"

type_synonym bytes3 = "u8 \<times> u8 \<times> u8"
type_synonym bytes4 = "u8 \<times> u8 \<times> u8 \<times> u8"

section \<open>Results\<close>

datatype ('e, 'a) res = Ok 'a | Err 'e | Panic

fun res_bind :: "('e, 'a) res \<Rightarrow> ('a \<Rightarrow> ('e, 'b) res) \<Rightarrow> ('e, 'b) res" where
  "res_bind (Ok x) f = f x"
| "res_bind (Err e) f = Err e"
| "res_bind Panic f = Panic"

fun map_err :: "('e \<Rightarrow> 'f) \<Rightarrow> ('e, 'a) res \<Rightarrow> ('f, 'a) res" where
  "map_err f (Ok x) = Ok x"
| "map_err f (Err e) = Err (f e)"
| "map_err f Panic = Panic"

fun ok_or :: "'a option \<Rightarrow> 'e \<Rightarrow> ('e, 'a) res" where
  "ok_or (Some x) e = Ok x"
| "ok_or None e = Err e"

fun or_panic :: "'a option \<Rightarrow> ('e, 'a) res" where
  "or_panic (Some x) = Ok x"
| "or_panic None = Panic"

section \<open>Machine arithmetic of the Rust standard library\<close>

definition checked_add :: "'l::len word \<Rightarrow> 'l word \<Rightarrow> 'l word option" where
  "checked_add a b = (if uint a + uint b < 2 ^ LENGTH('l) then Some (a + b) else None)"

definition checked_mul :: "'l::len word \<Rightarrow> 'l word \<Rightarrow> 'l word option" where
  "checked_mul a b = (if uint a * uint b < 2 ^ LENGTH('l) then Some (a * b) else None)"

definition checked_sub :: "'l::len word \<Rightarrow> 'l word \<Rightarrow> 'l word option" where
  "checked_sub a b = (if b \<le> a then Some (a - b) else None)"

definition saturating_add :: "'l::len word \<Rightarrow> 'l word \<Rightarrow> 'l word" where
  "saturating_add a b = (if uint a + uint b < 2 ^ LENGTH('l) then a + b else - 1)"

definition saturating_sub :: "'l::len word \<Rightarrow> 'l word \<Rightarrow> 'l word" where
  "saturating_sub a b = (if b \<le> a then a - b else 0)"

text \<open>\<open>x.div_ceil(y)\<close>: the quotient, plus one when the remainder is not zero.\<close>

definition div_ceil :: "'l::len word \<Rightarrow> 'l word \<Rightarrow> 'l word" where
  "div_ceil x y = (if x mod y = 0 then x div y else x div y + 1)"

text \<open>The plain operators of an overflow-checked build.\<close>

definition add_chk :: "'l::len word \<Rightarrow> 'l word \<Rightarrow> ('e, 'l word) res" where
  "add_chk a b = or_panic (checked_add a b)"

definition mul_chk :: "'l::len word \<Rightarrow> 'l word \<Rightarrow> ('e, 'l word) res" where
  "mul_chk a b = or_panic (checked_mul a b)"

definition sub_chk :: "'l::len word \<Rightarrow> 'l word \<Rightarrow> ('e, 'l word) res" where
  "sub_chk a b = or_panic (checked_sub a b)"

text \<open>\<open>1 << n\<close> panics when the shift amount reaches the width of the type.\<close>

definition one_shl_chk :: "u8 \<Rightarrow> ('e, 'l::len word) res" where
  "one_shl_chk n = (if unat n < LENGTH('l) then Ok (push_bit (unat n) 1) else Panic)"

text \<open>\<open>u16::from_be_bytes\<close> and \<open>u16::to_be_bytes\<close>.\<close>

definition u16_from_be_bytes :: "u8 \<Rightarrow> u8 \<Rightarrow> u16" where
  "u16_from_be_bytes hi lo = push_bit 8 (ucast hi) OR ucast lo"

definition u16_to_be_bytes :: "u16 \<Rightarrow> u8 list" where
  "u16_to_be_bytes x = [ucast (drop_bit 8 x), ucast x]"

section \<open>Slices\<close>

definition index :: "'a list \<Rightarrow> nat \<Rightarrow> ('e, 'a) res" where
  "index xs i = (if i < length xs then Ok (xs ! i) else Panic)"

definition slice :: "'a list \<Rightarrow> nat \<Rightarrow> nat \<Rightarrow> ('e, 'a list) res" where
  "slice xs a b = (if a \<le> b \<and> b \<le> length xs then Ok (take (b - a) (drop a xs)) else Panic)"

section \<open>Operations on a mutable state\<close>

text \<open>
  An operation that takes \<open>&mut self\<close> returns its result and the new value of \<open>self\<close>; the
  state survives an error, as it does in Rust.
\<close>

type_synonym ('s, 'e, 'a) op = "'s \<Rightarrow> ('e, 'a) res \<times> 's"

definition op_bind :: "('s, 'e, 'a) op \<Rightarrow> ('a \<Rightarrow> ('s, 'e, 'b) op) \<Rightarrow> ('s, 'e, 'b) op" where
  "op_bind m f s = (case m s of
       (Ok x, s') \<Rightarrow> f x s'
     | (Err e, s') \<Rightarrow> (Err e, s')
     | (Panic, s') \<Rightarrow> (Panic, s'))"

definition op_return :: "'a \<Rightarrow> ('s, 'e, 'a) op" where
  "op_return x s = (Ok x, s)"

definition op_lift :: "('e, 'a) res \<Rightarrow> ('s, 'e, 'a) op" where
  "op_lift r s = (r, s)"

definition op_fail :: "'e \<Rightarrow> ('s, 'e, 'a) op" where
  "op_fail e s = (Err e, s)"

definition op_modify :: "('s \<Rightarrow> 's) \<Rightarrow> ('s, 'e, unit) op" where
  "op_modify f s = (Ok (), f s)"

definition op_gets :: "('s \<Rightarrow> 'a) \<Rightarrow> ('s, 'e, 'a) op" where
  "op_gets f s = (Ok (f s), s)"

definition op_map_err :: "('e \<Rightarrow> 'f) \<Rightarrow> ('s, 'e, 'a) op \<Rightarrow> ('s, 'f, 'a) op" where
  "op_map_err f m s = (case m s of (r, s') \<Rightarrow> (map_err f r, s'))"

section \<open>Lemmas\<close>

subsection \<open>Results\<close>

lemma res_bind_Ok_iff:
  "res_bind r f = Ok y \<longleftrightarrow> (\<exists>x. r = Ok x \<and> f x = Ok y)"
  by (cases r) auto

lemma res_bind_Panic_iff:
  "res_bind r f = Panic \<longleftrightarrow> r = Panic \<or> (\<exists>x. r = Ok x \<and> f x = Panic)"
  by (cases r) auto

lemma map_err_Ok_iff [simp]: "map_err f r = Ok x \<longleftrightarrow> r = Ok x"
  by (cases r) auto

lemma map_err_Panic_iff [simp]: "map_err f r = Panic \<longleftrightarrow> r = Panic"
  by (cases r) auto

lemma ok_or_Ok_iff [simp]: "ok_or x e = Ok y \<longleftrightarrow> x = Some y"
  by (cases x) auto

lemma ok_or_no_Panic [simp]: "ok_or x e \<noteq> Panic"
  by (cases x) auto

lemma index_in_range [simp]: "i < length xs \<Longrightarrow> index xs i = Ok (xs ! i)"
  by (simp add: index_def)

lemma slice_in_range [simp]:
  "a \<le> b \<Longrightarrow> b \<le> length xs \<Longrightarrow> slice xs a b = Ok (take (b - a) (drop a xs))"
  by (simp add: slice_def)

subsection \<open>Operations\<close>

lemmas op_defs =
  op_bind_def op_return_def op_lift_def op_fail_def op_modify_def op_gets_def op_map_err_def

lemma op_bind_Ok_iff:
  "op_bind m f s = (Ok y, t) \<longleftrightarrow> (\<exists>x s'. m s = (Ok x, s') \<and> f x s' = (Ok y, t))"
  by (auto simp: op_bind_def split: prod.splits res.splits)

lemma op_bind_Ok [op_simps]: "m s = (Ok x, s') \<Longrightarrow> op_bind m f s = f x s'"
  by (simp add: op_bind_def)

lemma op_bind_Err [op_simps]: "m s = (Err e, s') \<Longrightarrow> op_bind m f s = (Err e, s')"
  by (simp add: op_bind_def)

lemma op_bind_return [op_simps, simp]: "op_bind (op_return x) f = f x"
  by (rule ext) (simp add: op_defs)

lemma op_bind_lift_Ok [op_simps, simp]: "op_bind (op_lift (Ok x)) f = f x"
  by (rule ext) (simp add: op_defs)

lemma res_bind_assoc: "res_bind (res_bind x f) g = res_bind x (\<lambda>y. res_bind (f y) g)"
  by (cases x) simp_all

lemma op_bind_assoc: "op_bind (op_bind x f) g = op_bind x (\<lambda>y. op_bind (f y) g)"
  by (rule ext) (simp add: op_bind_def split: prod.splits res.splits)

subsection \<open>Triples\<close>

text \<open>
  A total correctness triple: from a state with \<open>P\<close> the operation does not panic, and ends with
  \<open>Q\<close> when it returns a value and with \<open>E\<close> when it returns an error.
\<close>

definition triple :: "('s \<Rightarrow> bool) \<Rightarrow> ('s, 'e, 'a) op \<Rightarrow> ('a \<Rightarrow> 's \<Rightarrow> bool) \<Rightarrow>
    ('e \<Rightarrow> 's \<Rightarrow> bool) \<Rightarrow> bool" where
  "triple P m Q E \<longleftrightarrow> (\<forall>s. P s \<longrightarrow>
     (case m s of (Ok x, s') \<Rightarrow> Q x s' | (Err e, s') \<Rightarrow> E e s' | (Panic, s') \<Rightarrow> False))"

lemma tripleI:
  assumes "\<And>s x s'. P s \<Longrightarrow> m s = (Ok x, s') \<Longrightarrow> Q x s'"
    and "\<And>s e s'. P s \<Longrightarrow> m s = (Err e, s') \<Longrightarrow> E e s'"
    and "\<And>s s'. P s \<Longrightarrow> m s \<noteq> (Panic, s')"
  shows "triple P m Q E"
  using assms by (auto simp: triple_def split: prod.splits res.splits)

lemma triple_OkD: "triple P m Q E \<Longrightarrow> P s \<Longrightarrow> m s = (Ok x, s') \<Longrightarrow> Q x s'"
  by (auto simp: triple_def split: prod.splits res.splits)

lemma triple_ErrD: "triple P m Q E \<Longrightarrow> P s \<Longrightarrow> m s = (Err e, s') \<Longrightarrow> E e s'"
  by (auto simp: triple_def split: prod.splits res.splits)

lemma triple_PanicD: "triple P m Q E \<Longrightarrow> P s \<Longrightarrow> m s = (Panic, s') \<Longrightarrow> False"
  by (auto simp: triple_def split: prod.splits res.splits)

lemma triple_cases:
  assumes "triple P m Q E" and "P s"
  obtains x s' where "m s = (Ok x, s')" "Q x s'" | e s' where "m s = (Err e, s')" "E e s'"
proof (cases "m s")
  case (Pair r s')
  with assms that show thesis by (cases r) (auto simp: triple_def)
qed

lemma triple_at:
  assumes "triple P m Q E" and "P s" and "\<And>x s'. Q x s' \<Longrightarrow> Q' x s'" and "\<And>e s'. E e s' \<Longrightarrow> E' e s'"
  shows "case m s of (Ok x, s') \<Rightarrow> Q' x s' | (Err e, s') \<Rightarrow> E' e s' | (Panic, s') \<Rightarrow> False"
  using assms(1,2) by (cases rule: triple_cases) (auto intro: assms(3,4))

lemma triple_bind:
  assumes "triple P m R E" and "\<And>x. triple (R x) (f x) Q E"
  shows "triple P (op_bind m f) Q E"
  using assms unfolding triple_def op_bind_def
  by (fastforce split: prod.splits res.splits)

lemma triple_weaken:
  assumes "triple P' m Q' E'" and "\<And>s. P s \<Longrightarrow> P' s" and "\<And>x s. Q' x s \<Longrightarrow> Q x s"
    and "\<And>e s. E' e s \<Longrightarrow> E e s"
  shows "triple P m Q E"
  using assms unfolding triple_def by (fastforce split: prod.splits res.splits)

lemma triple_pre: "triple P' m Q E \<Longrightarrow> (\<And>s. P s \<Longrightarrow> P' s) \<Longrightarrow> triple P m Q E"
  by (rule triple_weaken)

lemma triple_return: "(\<And>s. P s \<Longrightarrow> Q x s) \<Longrightarrow> triple P (op_return x) Q E"
  by (simp add: triple_def op_return_def)

lemma triple_fail: "(\<And>s. P s \<Longrightarrow> E e s) \<Longrightarrow> triple P (op_fail e) Q E"
  by (simp add: triple_def op_fail_def)

lemma triple_lift:
  assumes "\<And>s x. P s \<Longrightarrow> r = Ok x \<Longrightarrow> Q x s" and "\<And>s e. P s \<Longrightarrow> r = Err e \<Longrightarrow> E e s"
    and "\<And>s. P s \<Longrightarrow> r \<noteq> Panic"
  shows "triple P (op_lift r) Q E"
  using assms by (cases r) (auto simp: triple_def op_lift_def)

lemma triple_if:
  "(b \<Longrightarrow> triple P m Q E) \<Longrightarrow> (\<not> b \<Longrightarrow> triple P n Q E) \<Longrightarrow> triple P (if b then m else n) Q E"
  by simp

lemma triple_pure: "(\<And>s. P s \<Longrightarrow> b) \<Longrightarrow> (b \<Longrightarrow> triple P m Q E) \<Longrightarrow> triple P m Q E"
  by (auto simp: triple_def)

subsection \<open>Words\<close>

lemma u8_unat_lt [simp]: "unat (x :: u8) < 256"
  using unsigned_less [of x, where ?'a = nat] by simp

lemma u16_unat_lt [simp]: "unat (x :: u16) < 65536"
  using unsigned_less [of x, where ?'a = nat] by simp

lemma u32_unat_lt [simp]: "unat (x :: u32) < 4294967296"
  using unsigned_less [of x, where ?'a = nat] by simp

lemma unat_ucast_up:
  assumes "LENGTH('a::len) \<le> LENGTH('b::len)"
  shows "unat (ucast (x :: 'a word) :: 'b word) = unat x"
proof -
  have "unat x < 2 ^ LENGTH('b)"
    using assms by (rule order_less_le_trans [OF unsigned_less power_increasing]) simp
  then show ?thesis
    by (simp add: unsigned_ucast_eq take_bit_nat_eq_self)
qed

lemma unat_ucast_u8_u16 [simp]: "unat (ucast (x :: u8) :: u16) = unat x"
  by (rule unat_ucast_up) simp

lemma unat_ucast_u8_u32 [simp]: "unat (ucast (x :: u8) :: u32) = unat x"
  by (rule unat_ucast_up) simp

lemma unat_ucast_u16_u32 [simp]: "unat (ucast (x :: u16) :: u32) = unat x"
  by (rule unat_ucast_up) simp

lemma unat_ucast_down: "unat (ucast (x :: 'a::len word) :: 'b::len word) = unat x mod 2 ^ LENGTH('b)"
  by (simp add: unsigned_ucast_eq take_bit_eq_mod)

lemma unat_high_nibble [simp]: "unat (drop_bit 4 x :: u8) = unat x div 16"
  by (simp add: drop_bit_eq_div unat_div)

lemma and_15_take_bit: "x AND 15 = take_bit 4 (x :: 'a::len word)"
  by (simp add: take_bit_eq_mask mask_eq_exp_minus_1)

lemma unat_low_nibble [simp]: "unat (x AND 15 :: u8) = unat x mod 16"
  by (simp add: and_15_take_bit take_bit_eq_mod unat_mod)

lemma nibbles_roundtrip:
  fixes hi lo :: u8
  assumes "unat hi < 16" and "unat lo < 16"
  shows "drop_bit 4 (push_bit 4 hi OR lo) = hi" and "(push_bit 4 hi OR lo) AND 0x0F = lo"
proof -
  have hi: "take_bit 4 hi = hi" and lo: "take_bit 4 lo = lo"
    using assms by (simp_all add: word_unat_eq_iff flip: and_15_take_bit)
  have bits: "bit hi n \<Longrightarrow> n < 4" "bit lo n \<Longrightarrow> n < 4" for n
    by (metis bit_take_bit_iff hi, metis bit_take_bit_iff lo)
  show "drop_bit 4 (push_bit 4 hi OR lo) = hi"
    by (rule bit_word_eqI) (auto simp: bit_simps dest: bits)
  show "(push_bit 4 hi OR lo) AND 0x0F = lo"
    unfolding and_15_take_bit by (rule bit_word_eqI) (auto simp: bit_simps dest: bits)
qed

lemma nibbles_join: "push_bit 4 (drop_bit 4 x) OR (x AND 0x0F) = (x :: u8)"
  unfolding and_15_take_bit by (rule bit_word_eqI) (auto simp: bit_simps)

lemma uint_add_less_iff: "uint a + uint b < 2 ^ n \<longleftrightarrow> unat a + unat b < 2 ^ n"
proof -
  have "uint a + uint b = int (unat a + unat b)" and "(2 :: int) ^ n = int (2 ^ n)"
    by simp_all
  then show ?thesis by (simp only: of_nat_less_iff)
qed

lemma uint_mult_less_iff: "uint a * uint b < 2 ^ n \<longleftrightarrow> unat a * unat b < 2 ^ n"
proof -
  have "uint a * uint b = int (unat a * unat b)" and "(2 :: int) ^ n = int (2 ^ n)"
    by simp_all
  then show ?thesis by (simp only: of_nat_less_iff)
qed

lemmas checked_defs =
  checked_add_def [unfolded uint_add_less_iff] checked_mul_def [unfolded uint_mult_less_iff]
  saturating_add_def [unfolded uint_add_less_iff] checked_sub_def saturating_sub_def

lemma checked_add_Some:
  "checked_add a b = Some c \<Longrightarrow> unat c = unat a + unat (b :: 'l::len word)"
  by (auto simp: checked_defs unat_word_ariths split: if_splits)

lemma unat_push_bit_1:
  assumes "n < LENGTH('l::len)"
  shows "unat (push_bit n 1 :: 'l word) = 2 ^ n"
  using assms by (simp only: unsigned_push_bit_eq) (simp add: push_bit_of_1 take_bit_eq_mod)

lemma nat_div_ceil8: "((n :: nat) + 7) div 8 = (if n mod 8 = 0 then n div 8 else Suc (n div 8))"
proof -
  define q r where "q = n div 8" and "r = n mod 8"
  then have n: "n = 8 * q + r" and "r < 8" by simp_all
  then have "(n + 7) div 8 = q + (r + 7) div 8"
    by (simp add: add.assoc)
  moreover have "(r + 7) div 8 = (if r = 0 then 0 else 1)"
    using \<open>r < 8\<close> by (auto simp: div_nat_eqI)
  ultimately show ?thesis by (simp add: q_def r_def)
qed

lemma unat_div_ceil8: "unat (div_ceil (x :: u16) 8) = (unat x + 7) div 8"
proof -
  have "unat x div 8 < 8192"
    by (rule less_mult_imp_div_less) simp
  then have "unat (x div 8 + 1) = Suc (unat x div 8)"
    by (simp add: unat_word_ariths unat_div)
  moreover have "(x mod 8 = 0) = (unat x mod 8 = 0)"
    by (simp add: word_unat_eq_iff unat_mod)
  moreover have "unat (x div 8) = unat x div 8"
    by (simp add: unat_div)
  ultimately show ?thesis
    unfolding div_ceil_def nat_div_ceil8 by presburger
qed

end
