(* ===== verification/Vec.thy ===== *)
theory Vec
  imports Prelude
begin

text \<open>
  \<open>src/src/vec.rs\<close>: the fallible \<open>push\<close> and \<open>extend\<close> of the trait \<open>VecExt\<close>, for the two vector
  libraries the crate can be built with. A vector is the list of its elements and the capacity of a
  fixed-size vector is an argument, as the const generic \<open>N\<close> is in the source.

  With the \<open>alloc\<close> feature a buffer is the standard library's \<open>Vec\<close>. Without it the buffer is a
  \<open>heapless::Vec<T, N>\<close>, of the third-party crate \<open>heapless\<close>: its \<open>push\<close> and
  \<open>extend_from_slice\<close> are parameters of the model (the two arguments of the constructor
  \<open>Heapless\<close>), and \<open>vec_lib_ok\<close> states what that crate documents of them: an element or slice is
  appended when the capacity \<open>N\<close> allows it, and refused otherwise.
\<close>

section \<open>Definitions\<close>

datatype buffer_full_error = BufferFullError

datatype 'a vec_lib =
    Alloc
  | Heapless "nat \<Rightarrow> 'a list \<Rightarrow> 'a \<Rightarrow> bool \<times> 'a list"
             "nat \<Rightarrow> 'a list \<Rightarrow> 'a list \<Rightarrow> bool \<times> 'a list"

text \<open>Capacities of \<open>FrameVec\<close> (its default \<open>N\<close>) and of \<open>DataVec\<close>.\<close>

definition FRAME_VEC_CAP :: nat where "FRAME_VEC_CAP = 20"

definition DATA_VEC_CAP :: nat where "DATA_VEC_CAP = 1024"

fun try_push :: "'a vec_lib \<Rightarrow> nat \<Rightarrow> 'a \<Rightarrow> ('a list, buffer_full_error, unit) op" where
  "try_push Alloc N val v = (Ok (), v @ [val])"
| "try_push (Heapless push extend_from_slice) N val v =
     (case push N v val of
        (accepted, v') \<Rightarrow> (if accepted then Ok () else Err BufferFullError, v'))"

fun try_extend :: "'a vec_lib \<Rightarrow> nat \<Rightarrow> 'a list \<Rightarrow> ('a list, buffer_full_error, unit) op" where
  "try_extend Alloc N sl v = (Ok (), v @ sl)"
| "try_extend (Heapless push extend_from_slice) N sl v =
     (case extend_from_slice N v sl of
        (accepted, v') \<Rightarrow> (if accepted then Ok () else Err BufferFullError, v'))"

text \<open>Filling a fresh vector: the vector when every step succeeded, the first error otherwise.\<close>

definition fill_new :: "('a list, 'e, unit) op \<Rightarrow> ('e, 'a list) res" where
  "fill_new m = (case m [] of
       (Ok _, v) \<Rightarrow> Ok v
     | (Err e, _) \<Rightarrow> Err e
     | (Panic, _) \<Rightarrow> Panic)"

section \<open>What the crate \<open>heapless\<close> documents\<close>

definition heapless_contract ::
  "(nat \<Rightarrow> 'a list \<Rightarrow> 'a \<Rightarrow> bool \<times> 'a list) \<Rightarrow>
   (nat \<Rightarrow> 'a list \<Rightarrow> 'a list \<Rightarrow> bool \<times> 'a list) \<Rightarrow> bool" where
  "heapless_contract push extend_from_slice \<longleftrightarrow>
     (\<forall>N v x. push N v x = (if length v < N then (True, v @ [x]) else (False, v))) \<and>
     (\<forall>N v xs. extend_from_slice N v xs =
        (if length v + length xs \<le> N then (True, v @ xs) else (False, v)))"

fun vec_lib_ok :: "'a vec_lib \<Rightarrow> bool" where
  "vec_lib_ok Alloc = True"
| "vec_lib_ok (Heapless push extend_from_slice) = heapless_contract push extend_from_slice"

text \<open>Whether a vector of capacity \<open>N\<close> may grow to \<open>k\<close> elements.\<close>

fun vec_fits :: "'a vec_lib \<Rightarrow> nat \<Rightarrow> nat \<Rightarrow> bool" where
  "vec_fits Alloc N k = True"
| "vec_fits (Heapless push extend_from_slice) N k = (k \<le> N)"

lemma vec_fits_le: "k \<le> N \<Longrightarrow> vec_fits l N k"
  by (cases l) simp_all

text \<open>A concrete library that meets the contract, used where the model is evaluated.\<close>

definition heapless_push :: "nat \<Rightarrow> 'a list \<Rightarrow> 'a \<Rightarrow> bool \<times> 'a list" where
  "heapless_push N v x = (if length v < N then (True, v @ [x]) else (False, v))"

definition heapless_extend :: "nat \<Rightarrow> 'a list \<Rightarrow> 'a list \<Rightarrow> bool \<times> 'a list" where
  "heapless_extend N v xs = (if length v + length xs \<le> N then (True, v @ xs) else (False, v))"

abbreviation heapless_lib :: "'a vec_lib" where
  "heapless_lib \<equiv> Heapless heapless_push heapless_extend"

section \<open>The interface \<open>VecExt\<close>\<close>

text \<open>
  What a client of the trait may rely on, whichever library implements it: appending succeeds
  exactly while the result fits, and a refused append leaves the vector as it was.
\<close>

locale vec_ext =
  fixes push :: "'a \<Rightarrow> ('a list, buffer_full_error, unit) op"
    and extend :: "'a list \<Rightarrow> ('a list, buffer_full_error, unit) op"
    and fits :: "nat \<Rightarrow> bool"
  assumes push_eq: "push x v =
      (if fits (Suc (length v)) then (Ok (), v @ [x]) else (Err BufferFullError, v))"
    and extend_eq: "extend xs v =
      (if fits (length v + length xs) then (Ok (), v @ xs) else (Err BufferFullError, v))"
    and fits_mono: "fits n \<Longrightarrow> m \<le> n \<Longrightarrow> fits m"
begin

lemma push_extend:
  "op_bind (push x) (\<lambda>_. extend xs) v =
     (if fits (length v + Suc (length xs)) then (Ok (), v @ x # xs)
      else (Err BufferFullError, if fits (Suc (length v)) then v @ [x] else v))"
  using fits_mono [of "Suc (length v + length xs)" "Suc (length v)"]
  by (auto simp: op_bind_def push_eq extend_eq)

lemma push_Ok_iff: "push x v = (Ok (), w) \<longleftrightarrow> fits (Suc (length v)) \<and> w = v @ [x]"
  by (auto simp: push_eq)

lemma push_no_Panic: "fst (push x v) \<noteq> Panic"
  by (simp add: push_eq)

end

interpretation alloc_vec: vec_ext "try_push Alloc N" "try_extend Alloc N" "\<lambda>_. True" for N
  by unfold_locales auto

interpretation heapless_vec: vec_ext "try_push heapless_lib N" "try_extend heapless_lib N"
    "\<lambda>k. k \<le> N" for N
  by unfold_locales (auto simp: heapless_push_def heapless_extend_def)

text \<open>The trait's two implementations meet the interface for every library that is as documented.\<close>

lemma vec_lib_vec_ext:
  "vec_lib_ok l \<Longrightarrow> vec_ext (try_push l N) (try_extend l N) (vec_fits l N)"
  by (cases l) (auto simp: heapless_contract_def intro!: vec_ext.intro)

lemma heapless_lib_contract [simp]: "heapless_contract heapless_push heapless_extend"
  by (simp add: heapless_contract_def heapless_push_def heapless_extend_def)

lemmas try_push_eq = vec_ext.push_eq [OF vec_lib_vec_ext]
lemmas try_extend_eq = vec_ext.extend_eq [OF vec_lib_vec_ext]
lemmas try_push_extend = vec_ext.push_extend [OF vec_lib_vec_ext]
lemmas vec_fits_mono = vec_ext.fits_mono [OF vec_lib_vec_ext]

end
