(* ===== verification/Tlv_Length.thy ===== *)
theory Tlv_Length
  imports Vec
begin

text \<open>
  \<open>src/src/tlv.rs\<close>: the length field that the TLV blocks of all tag types share, one byte for a
  length below 255 and \<open>0xFF\<close> followed by a big-endian 16-bit number otherwise.
\<close>

section \<open>Definitions\<close>

datatype tlv_error = InvalidTlv | BufferFull

fun tlv_error_from :: "buffer_full_error \<Rightarrow> tlv_error" where
  "tlv_error_from BufferFullError = tlv_error.BufferFull"

definition parse_tlv_length :: "u8 list \<Rightarrow> nat \<Rightarrow> (tlv_error, u16 \<times> nat) res" where
  "parse_tlv_length data offset =
     (if offset \<ge> length data then Err tlv_error.InvalidTlv
      else res_bind (index data offset) (\<lambda>first.
        if first < 0xFF then Ok (ucast first, 1)
        else if offset + 3 > length data then Err tlv_error.InvalidTlv
        else res_bind (index data (offset + 1)) (\<lambda>hi.
             res_bind (index data (offset + 2)) (\<lambda>lo.
             Ok (u16_from_be_bytes hi lo, 3)))))"

definition MAX_TLV_LENGTH :: u16 where "MAX_TLV_LENGTH = 0xFFFE"

definition encode_tlv_length :: "u8 vec_lib \<Rightarrow> u16 \<Rightarrow> (u8 list, tlv_error, unit) op" where
  "encode_tlv_length bl len =
     (if len > MAX_TLV_LENGTH then op_fail tlv_error.InvalidTlv
      else if len < 0xFF
      then op_map_err tlv_error_from (try_push bl DATA_VEC_CAP (ucast len))
      else op_bind (op_map_err tlv_error_from (try_push bl DATA_VEC_CAP 0xFF)) (\<lambda>_.
           op_map_err tlv_error_from (try_extend bl DATA_VEC_CAP (u16_to_be_bytes len))))"

section \<open>The encoding as a function of the length\<close>

definition length_field :: "u16 \<Rightarrow> u8 list" where
  "length_field len = (if len < 0xFF then [ucast len] else 0xFF # u16_to_be_bytes len)"

lemma length_length_field [simp]:
  "length (length_field len) = (if len < 0xFF then 1 else 3)"
  by (simp add: length_field_def u16_to_be_bytes_def)

lemma u16_be_roundtrip [simp]:
  "u16_from_be_bytes (ucast (drop_bit 8 x)) (ucast x) = x"
  unfolding u16_from_be_bytes_def
  by (rule bit_word_eqI) (auto simp: bit_simps)

lemma encode_tlv_length_eq:
  assumes "vec_lib_ok bl" and "vec_fits bl DATA_VEC_CAP (length out + length (length_field len))"
    and "len \<le> MAX_TLV_LENGTH"
  shows "encode_tlv_length bl len out = (Ok (), out @ length_field len)"
proof (cases "len < 0xFF")
  case True
  with assms show ?thesis
    by (simp add: encode_tlv_length_def op_defs try_push_eq length_field_def)
next
  case False
  from assms have "vec_fits bl DATA_VEC_CAP (Suc (length out))"
    by (auto intro: vec_fits_mono)
  with assms False show ?thesis
    by (simp add: encode_tlv_length_def op_defs try_push_eq try_extend_eq length_field_def
        u16_to_be_bytes_def)
qed

lemma parse_tlv_length_short:
  "offset < length data \<Longrightarrow> data ! offset < 0xFF \<Longrightarrow>
   parse_tlv_length data offset = Ok (ucast (data ! offset), 1)"
  by (simp add: parse_tlv_length_def)

lemma parse_tlv_length_no_Panic: "parse_tlv_length data offset \<noteq> Panic"
  by (auto simp: parse_tlv_length_def)

lemma parse_tlv_length_consumed:
  "parse_tlv_length data offset = Ok (len, k) \<Longrightarrow> 0 < k \<and> offset + k \<le> length data"
  by (auto simp: parse_tlv_length_def split: if_splits)

lemma ucast_u8_less_255: "(len :: u16) < 0xFF \<Longrightarrow> (ucast len :: u8) < 0xFF"
  by (simp add: word_less_nat_alt unat_ucast_down)

lemma ucast_u8_u16_id: "(len :: u16) < 0xFF \<Longrightarrow> ucast (ucast len :: u8) = len"
  by (simp add: word_less_nat_alt word_unat_eq_iff unat_ucast_down)

lemma parse_tlv_length_field:
  assumes "data = pre @ length_field len @ post"
  shows "parse_tlv_length data (length pre) = Ok (len, length (length_field len))"
proof (cases "len < 0xFF")
  case True
  with assms show ?thesis
    by (simp add: parse_tlv_length_def length_field_def ucast_u8_less_255 ucast_u8_u16_id)
next
  case False
  with assms show ?thesis
    by (simp add: parse_tlv_length_def length_field_def u16_to_be_bytes_def nth_append)
qed

section \<open>Properties\<close>

text \<open>
  C26. Encoding a length and parsing the field back gives the length and the number of bytes
  written, whatever surrounds the field, for every length the standard permits.
\<close>

theorem tlv_length_roundtrip:
  assumes "vec_lib_ok bl" and "len \<le> MAX_TLV_LENGTH"
    and "vec_fits bl DATA_VEC_CAP (length out + 3)"
  shows "\<exists>out'. encode_tlv_length bl len out = (Ok (), out') \<and>
           parse_tlv_length (out' @ rest) (length out) = Ok (len, length out' - length out)"
proof -
  have "vec_fits bl DATA_VEC_CAP (length out + length (length_field len))"
    using assms(1,3) by (auto intro: vec_fits_mono)
  with assms have "encode_tlv_length bl len out = (Ok (), out @ length_field len)"
    by (intro encode_tlv_length_eq)
  moreover have "parse_tlv_length ((out @ length_field len) @ rest) (length out) =
      Ok (len, length (length_field len))"
    by (rule parse_tlv_length_field [of _ out]) simp
  ultimately show ?thesis by auto
qed

theorem tlv_length_roundtrip_witness:
  "\<exists>out'. encode_tlv_length heapless_lib 300 [0x03] = (Ok (), out') \<and>
     parse_tlv_length (out' @ [0xD0]) 1 = Ok (300, length out' - 1)"
  using tlv_length_roundtrip [of heapless_lib 300 "[0x03]" "[0xD0]"]
  by (simp add: MAX_TLV_LENGTH_def DATA_VEC_CAP_def)

end
