(* ===== verification/Type2.thy ===== *)
theory Type2
  imports Vec
begin

text \<open>
  \<open>src/src/type2/mod.rs\<close>: the protocol errors, the commands and answers of a Type 2 Tag with
  their wire format, and the trait \<open>T2TTransceiver\<close> that the user of the crate implements.
  The trait is a record of its two methods, over a type \<open>'t\<close> of transceiver states and a type
  \<open>'e\<close> of transport errors; every operation that talks to a tag takes such a record.
\<close>

section \<open>Definitions\<close>

datatype type2_error =
    InvalidLength
  | InvalidMagic u8
  | UnsupportedVersion (major: u8) (minor: u8)
  | NackError u8
  | InvalidTlv
  | ReadOnly
  | BufferFull
  | OutOfRange
  | AmbiguousOutcome
  | InvalidConfiguration
  | UnknownCommand u8

fun type2_error_from :: "buffer_full_error \<Rightarrow> type2_error" where
  "type2_error_from BufferFullError = type2_error.BufferFull"

record ('t, 'e) t2t_transceiver =
  transceive :: "u8 list \<Rightarrow> 't \<Rightarrow> ('e + u8 list) \<times> 't"
  transceive_no_response :: "u8 list \<Rightarrow> 't \<Rightarrow> ('e + u8 option) \<times> 't"

definition CMD_READ :: u8 where "CMD_READ = 0x30"
definition CMD_WRITE :: u8 where "CMD_WRITE = 0xA2"
definition CMD_SECTOR_SELECT :: u8 where "CMD_SECTOR_SELECT = 0xC2"
definition ACK :: u8 where "ACK = 0x0A"

lemmas command_codes = CMD_READ_def CMD_WRITE_def CMD_SECTOR_SELECT_def ACK_def

datatype command =
    Read u8
  | Write u8 bytes4
  | SectorSelectPart1
  | SectorSelectPart2 u8

datatype answer = Data "u8 list" | Ack | Nack u8 | PassiveAck

fun bytes4_list :: "bytes4 \<Rightarrow> u8 list" where
  "bytes4_list (a, b, c, d) = [a, b, c, d]"

text \<open>
  The results of the \<open>try_extend\<close> calls are discarded (\<open>let _ = ...\<close>): what is returned is the
  buffer as they leave it.
\<close>

fun command_to_bytes :: "u8 vec_lib \<Rightarrow> command \<Rightarrow> u8 list" where
  "command_to_bytes bl (Read block_no) =
     snd (try_extend bl FRAME_VEC_CAP [CMD_READ, block_no] [])"
| "command_to_bytes bl (Write block_no data) =
     snd (try_extend bl FRAME_VEC_CAP (bytes4_list data)
       (snd (try_extend bl FRAME_VEC_CAP [CMD_WRITE, block_no] [])))"
| "command_to_bytes bl SectorSelectPart1 =
     snd (try_extend bl FRAME_VEC_CAP [CMD_SECTOR_SELECT, 0xFF] [])"
| "command_to_bytes bl (SectorSelectPart2 sector_no) =
     snd (try_extend bl FRAME_VEC_CAP [sector_no, 0x00, 0x00, 0x00] [])"

definition parse_ack :: "u8 list \<Rightarrow> (type2_error, answer) res" where
  "parse_ack raw =
     (if raw = [] then Err InvalidLength
      else res_bind (index raw 0) (\<lambda>b.
        let val = b AND 0x0F in if val = ACK then Ok Ack else Ok (Nack val)))"

fun parse_answer :: "command \<Rightarrow> u8 list \<Rightarrow> (type2_error, answer) res" where
  "parse_answer (Read _) raw =
     (if length raw < 16 then Err InvalidLength
      else res_bind (slice raw 0 16) (\<lambda>d. Ok (Data d)))"
| "parse_answer (Write _ _) raw = parse_ack raw"
| "parse_answer SectorSelectPart1 raw = parse_ack raw"
| "parse_answer (SectorSelectPart2 _) raw =
     (if raw = [] then Ok PassiveAck
      else res_bind (index raw 0) (\<lambda>b. Ok (Nack (b AND 0x0F))))"

definition command_try_from :: "u8 list \<Rightarrow> (type2_error, command) res" where
  "command_try_from raw =
     (if raw = [] then Err InvalidLength
      else res_bind (index raw 0) (\<lambda>code.
        if code = CMD_READ then
          (if length raw < 2 then Err InvalidLength
           else res_bind (index raw 1) (\<lambda>b. Ok (Read b)))
        else if code = CMD_WRITE then
          (if length raw < 6 then Err InvalidLength
           else res_bind (index raw 1) (\<lambda>b.
             Ok (Write b (raw ! 2, raw ! 3, raw ! 4, raw ! 5))))
        else if code = CMD_SECTOR_SELECT then
          (if length raw < 2 then Err InvalidLength
           else res_bind (index raw 1) (\<lambda>b.
             if b = 0xFF then Ok SectorSelectPart1 else Err InvalidLength))
        else Err (UnknownCommand code)))"

section \<open>The wire format\<close>

text \<open>What the buffers hold after the serialization: the frames always fit.\<close>

fun wire :: "command \<Rightarrow> u8 list" where
  "wire (Read b) = [0x30, b]"
| "wire (Write b data) = 0xA2 # b # bytes4_list data"
| "wire SectorSelectPart1 = [0xC2, 0xFF]"
| "wire (SectorSelectPart2 s) = [s, 0, 0, 0]"

lemma length_bytes4_list [simp]: "length (bytes4_list d) = 4"
  by (cases d) simp

lemma frame_fits: "k \<le> 20 \<Longrightarrow> vec_fits l FRAME_VEC_CAP k"
  by (cases l) (simp_all add: FRAME_VEC_CAP_def)

lemma command_to_bytes_wire: "vec_lib_ok bl \<Longrightarrow> command_to_bytes bl c = wire c"
  by (cases c) (simp_all add: try_extend_eq frame_fits command_codes)

declare command_to_bytes.simps [simp del]

lemma parse_answer_no_Panic: "parse_answer c raw \<noteq> Panic"
  by (cases c) (auto simp: parse_ack_def Let_def)

lemma parse_answer_Read: "length raw \<ge> 16 \<Longrightarrow> parse_answer (Read b) raw = Ok (Data (take 16 raw))"
  by simp

lemma parse_ack_singleton [simp]:
  "parse_ack [x] = Ok (if x AND 0x0F = ACK then Ack else Nack (x AND 0x0F))"
  by (simp add: parse_ack_def Let_def)

lemma parse_ack_cases:
  assumes "parse_ack raw = Ok a"
  shows "a = Ack \<or> (\<exists>v. a = Nack v)"
  using assms by (auto simp: parse_ack_def Let_def res_bind_Ok_iff split: if_splits)

lemma length_ge_ConsE:
  assumes "Suc n \<le> length xs"
  obtains x ys where "xs = x # ys" and "n \<le> length ys"
  using assms by (cases xs) auto

lemma command_try_from_Ok:
  assumes "command_try_from raw = Ok c"
  shows "\<exists>rest. raw = wire c @ rest"
proof -
  obtain code xs where raw: "raw = code # xs"
    using assms by (cases raw) (auto simp: command_try_from_def)
  then obtain b ys where ys: "xs = b # ys"
    using assms by (cases xs) (auto simp: command_try_from_def split: if_splits)
  show ?thesis
  proof (cases "code = CMD_WRITE")
    case True
    then have "4 \<le> length ys"
      using assms raw ys by (auto simp: command_try_from_def command_codes split: if_splits)
    then have "length ys \<ge> Suc (Suc (Suc (Suc 0)))"
      by simp
    then obtain d0 d1 d2 d3 rest where "ys = d0 # d1 # d2 # d3 # rest"
      by (auto elim!: length_ge_ConsE)
    with True assms raw ys show ?thesis
      by (auto simp: command_try_from_def command_codes split: if_splits)
  next
    case False
    with assms raw ys show ?thesis
      by (auto simp: command_try_from_def command_codes split: if_splits)
  qed
qed

lemma command_try_from_wire_append:
  assumes "\<And>s. c \<noteq> SectorSelectPart2 s"
  shows "command_try_from (wire c @ rest) = Ok c"
  using assms by (cases c) (auto simp: command_try_from_def command_codes)

section \<open>Properties\<close>

text \<open>
  C25. The command parser inverts the serializer: it returns a command exactly when the bytes begin
  with the frame of that command, and that command is a READ, a WRITE or the first SECTOR SELECT
  packet. The second packet is never returned: it carries no command code, so its frame is taken for
  the command that its sector number spells, a READ of block 0 for sector 0x30, a truncated command
  for sectors 0xA2 and 0xC2, and an unknown one otherwise.
\<close>

theorem command_roundtrip:
  assumes "vec_lib_ok bl"
  shows "(command_try_from raw = Ok c \<longleftrightarrow>
       (\<exists>rest. raw = command_to_bytes bl c @ rest) \<and> (\<forall>s. c \<noteq> SectorSelectPart2 s)) \<and>
    command_try_from (command_to_bytes bl (SectorSelectPart2 s)) =
      (if s = 0x30 then Ok (Read 0) else if s = 0xA2 \<or> s = 0xC2 then Err InvalidLength
       else Err (UnknownCommand s))"
proof -
  have "c \<noteq> SectorSelectPart2 s'" if "command_try_from raw = Ok c" for s'
    using that by (auto simp: command_try_from_def res_bind_Ok_iff split: if_splits)
  then show ?thesis
    using command_try_from_Ok [of raw c] command_try_from_wire_append [of c]
    by (auto simp: command_to_bytes_wire [OF assms]) (auto simp: command_try_from_def command_codes)
qed

theorem command_roundtrip_witness:
  "command_try_from (command_to_bytes heapless_lib (Write 5 (0xDE, 0xAD, 0xBE, 0xEF))) =
     Ok (Write 5 (0xDE, 0xAD, 0xBE, 0xEF)) \<and>
   command_try_from (command_to_bytes heapless_lib (SectorSelectPart2 1)) = Err (UnknownCommand 1)"
  using command_roundtrip [of heapless_lib
      "command_to_bytes heapless_lib (Write 5 (0xDE, 0xAD, 0xBE, 0xEF))" "Write 5 (0xDE, 0xAD, 0xBE, 0xEF)" 1]
  by auto

end
