(* ===== verification/Geometry.thy ===== *)
theory Geometry
  imports Prelude
begin

text \<open>
  The constants of \<open>src/src/type2/memory.rs\<close>: the block and sector geometry of a Type 2 Tag.
  They stand in a theory of their own because the TLV parser checks control descriptors against
  the end of the address space.
\<close>

definition BLOCK_SIZE :: nat where "BLOCK_SIZE = 4"
definition BLOCKS_PER_SECTOR :: nat where "BLOCKS_PER_SECTOR = 256"
definition SECTOR_SIZE :: nat where "SECTOR_SIZE = BLOCK_SIZE * BLOCKS_PER_SECTOR"
definition MAX_SECTOR :: u8 where "MAX_SECTOR = 0xFE"
definition ADDRESS_SPACE_END :: u32 where
  "ADDRESS_SPACE_END = (ucast MAX_SECTOR + 1) * of_nat SECTOR_SIZE"
definition CC_BLOCK :: u8 where "CC_BLOCK = 3"
definition DATA_START_BLOCK :: u8 where "DATA_START_BLOCK = 4"
definition STATIC_DATA_AREA_SIZE :: nat where "STATIC_DATA_AREA_SIZE = 48"
definition STATIC_MEMORY_SIZE :: nat where "STATIC_MEMORY_SIZE = 64"
definition STATIC_LOCK_BYTE_ADDR :: u16 where "STATIC_LOCK_BYTE_ADDR = 10"

lemma sector_size_eq: "SECTOR_SIZE = 1024"
  by (simp add: SECTOR_SIZE_def BLOCK_SIZE_def BLOCKS_PER_SECTOR_def)

lemma address_space_end_eq: "ADDRESS_SPACE_END = 261120"
  by (simp add: ADDRESS_SPACE_END_def sector_size_eq MAX_SECTOR_def)

lemmas geometry =
  BLOCK_SIZE_def BLOCKS_PER_SECTOR_def sector_size_eq MAX_SECTOR_def address_space_end_eq
  CC_BLOCK_def DATA_START_BLOCK_def STATIC_DATA_AREA_SIZE_def

end
