(* ===== verification/Tlv_Blocks.thy ===== *)
theory Tlv_Blocks
  imports Tlv_Length Type2 Geometry
begin

text \<open>
  \<open>src/src/type2/tlv.rs\<close>: the TLV blocks of a Type 2 Tag, the Lock and Memory Control
  descriptors, the parser of a data area and the serializer of one block.

  The arithmetic of \<open>byte_address\<close> and \<open>bytes_per_lock_bit\<close> is overflow-checked, because the
  fields of the descriptors are public; for every descriptor the parser accepts it is proved not
  to overflow.
\<close>

section \<open>Definitions\<close>

definition TLV_NULL :: u8 where "TLV_NULL = 0x00"
definition TLV_LOCK_CONTROL :: u8 where "TLV_LOCK_CONTROL = 0x01"
definition TLV_MEMORY_CONTROL :: u8 where "TLV_MEMORY_CONTROL = 0x02"
definition TLV_NDEF_MESSAGE :: u8 where "TLV_NDEF_MESSAGE = 0x03"
definition TLV_PROPRIETARY :: u8 where "TLV_PROPRIETARY = 0xFD"
definition TLV_TERMINATOR :: u8 where "TLV_TERMINATOR = 0xFE"

lemmas tlv_tags = TLV_NULL_def TLV_LOCK_CONTROL_def TLV_MEMORY_CONTROL_def
  TLV_NDEF_MESSAGE_def TLV_PROPRIETARY_def TLV_TERMINATOR_def

record lock_control_value =
  lc_page_addr :: u8
  lc_byte_offset :: u8
  lc_size_in_bits :: u16
  lc_bytes_per_page :: u8
  lc_bytes_locked_per_bit :: u8

record memory_control_value =
  mc_page_addr :: u8
  mc_byte_offset :: u8
  mc_size_in_bytes :: u16
  mc_bytes_per_page :: u8

datatype tlv =
    Null
  | LockControl lock_control_value
  | MemoryControl memory_control_value
  | NdefMessage "u8 list"
  | Proprietary "u8 list"
  | Terminator

subsection \<open>Control descriptors\<close>

definition lc_byte_address :: "lock_control_value \<Rightarrow> ('e, u32) res" where
  "lc_byte_address v =
     res_bind (one_shl_chk (lc_bytes_per_page v)) (\<lambda>page_size.
     res_bind (mul_chk (ucast (lc_page_addr v)) page_size) (\<lambda>p.
     add_chk p (ucast (lc_byte_offset v))))"

definition lc_lock_byte_count :: "lock_control_value \<Rightarrow> u16" where
  "lc_lock_byte_count v = div_ceil (lc_size_in_bits v) 8"

definition lc_bytes_per_lock_bit :: "lock_control_value \<Rightarrow> ('e, u16) res" where
  "lc_bytes_per_lock_bit v = one_shl_chk (lc_bytes_locked_per_bit v)"

definition check_area_in_address_space :: "u32 \<Rightarrow> u16 \<Rightarrow> (type2_error, unit) res" where
  "check_area_in_address_space start sz =
     res_bind (ok_or (checked_add start (ucast sz)) type2_error.InvalidTlv) (\<lambda>end_addr.
     if start \<ge> ADDRESS_SPACE_END \<or> end_addr > ADDRESS_SPACE_END
     then Err type2_error.InvalidTlv else Ok ())"

fun lc_from_bytes :: "bytes3 \<Rightarrow> (type2_error, lock_control_value) res" where
  "lc_from_bytes (b0, b1, b2) =
     (let page_addr = drop_bit 4 b0;
          byte_offset = b0 AND 0x0F;
          size_in_bits = (if b1 = 0 then 256 else ucast b1);
          bytes_per_page = b2 AND 0x0F;
          bytes_locked_per_bit = drop_bit 4 b2
      in if bytes_per_page = 0 \<or> bytes_locked_per_bit = 0 then Err type2_error.InvalidTlv
         else let v = \<lparr>lc_page_addr = page_addr, lc_byte_offset = byte_offset,
                        lc_size_in_bits = size_in_bits, lc_bytes_per_page = bytes_per_page,
                        lc_bytes_locked_per_bit = bytes_locked_per_bit\<rparr>
         in res_bind (lc_byte_address v) (\<lambda>a.
            res_bind (check_area_in_address_space a (lc_lock_byte_count v)) (\<lambda>_. Ok v)))"

definition lc_to_bytes :: "lock_control_value \<Rightarrow> bytes3" where
  "lc_to_bytes v =
     (push_bit 4 (lc_page_addr v) OR (lc_byte_offset v AND 0x0F),
      if lc_size_in_bits v = 256 then 0 else ucast (lc_size_in_bits v),
      push_bit 4 (lc_bytes_locked_per_bit v) OR (lc_bytes_per_page v AND 0x0F))"

definition mc_byte_address :: "memory_control_value \<Rightarrow> ('e, u32) res" where
  "mc_byte_address v =
     res_bind (one_shl_chk (mc_bytes_per_page v)) (\<lambda>page_size.
     res_bind (mul_chk (ucast (mc_page_addr v)) page_size) (\<lambda>p.
     add_chk p (ucast (mc_byte_offset v))))"

fun mc_from_bytes :: "bytes3 \<Rightarrow> (type2_error, memory_control_value) res" where
  "mc_from_bytes (b0, b1, b2) =
     (let page_addr = drop_bit 4 b0;
          byte_offset = b0 AND 0x0F;
          size_in_bytes = (if b1 = 0 then 256 else ucast b1);
          bytes_per_page = b2 AND 0x0F
      in if bytes_per_page = 0 then Err type2_error.InvalidTlv
         else let v = \<lparr>mc_page_addr = page_addr, mc_byte_offset = byte_offset,
                        mc_size_in_bytes = size_in_bytes, mc_bytes_per_page = bytes_per_page\<rparr>
         in res_bind (mc_byte_address v) (\<lambda>a.
            res_bind (check_area_in_address_space a (mc_size_in_bytes v)) (\<lambda>_. Ok v)))"

definition mc_to_bytes :: "memory_control_value \<Rightarrow> bytes3" where
  "mc_to_bytes v =
     (push_bit 4 (mc_page_addr v) OR (mc_byte_offset v AND 0x0F),
      if mc_size_in_bytes v = 256 then 0 else ucast (mc_size_in_bytes v),
      mc_bytes_per_page v AND 0x0F)"

declare lc_from_bytes.simps [simp del] mc_from_bytes.simps [simp del]

subsection \<open>The parser\<close>

definition t2_parse_tlv_length :: "u8 list \<Rightarrow> nat \<Rightarrow> (type2_error, u16 \<times> nat) res" where
  "t2_parse_tlv_length data offset =
     map_err (\<lambda>_. type2_error.InvalidTlv) (parse_tlv_length data offset)"

fun tlv_error_to_type2 :: "tlv_error \<Rightarrow> type2_error" where
  "tlv_error_to_type2 tlv_error.BufferFull = type2_error.BufferFull"
| "tlv_error_to_type2 tlv_error.InvalidTlv = type2_error.InvalidTlv"

definition t2_encode_tlv_length :: "u8 vec_lib \<Rightarrow> u16 \<Rightarrow> (u8 list, type2_error, unit) op" where
  "t2_encode_tlv_length bl len = op_map_err tlv_error_to_type2 (encode_tlv_length bl len)"

definition TLV_VEC_CAP :: nat where "TLV_VEC_CAP = 4"

definition push_tlv :: "tlv vec_lib \<Rightarrow> tlv \<Rightarrow> (tlv list, type2_error, unit) op" where
  "push_tlv tvl t = op_map_err (\<lambda>_. type2_error.BufferFull) (try_push tvl TLV_VEC_CAP t)"

text \<open>The length, offset and three value bytes of a control TLV whose tag has been read.\<close>

definition parse_control_value :: "u8 list \<Rightarrow> nat \<Rightarrow> (type2_error, bytes3 \<times> nat) res" where
  "parse_control_value data offset =
     res_bind (t2_parse_tlv_length data offset) (\<lambda>(len, consumed).
     let offset = offset + consumed in
     if len \<noteq> 3 \<or> offset + 3 > length data then Err type2_error.InvalidTlv
     else res_bind (index data offset) (\<lambda>b0.
          res_bind (index data (offset + 1)) (\<lambda>b1.
          res_bind (index data (offset + 2)) (\<lambda>b2.
          Ok ((b0, b1, b2), offset + 3)))))"

text \<open>The length and the value of an NDEF Message or Proprietary TLV, copied to a \<open>DataVec\<close>.\<close>

definition parse_data_value ::
  "u8 vec_lib \<Rightarrow> u8 list \<Rightarrow> nat \<Rightarrow> (type2_error, u8 list \<times> nat) res" where
  "parse_data_value bl data offset =
     res_bind (t2_parse_tlv_length data offset) (\<lambda>(len, consumed).
     let offset = offset + consumed; len = unat len in
     if offset + len > length data then Err type2_error.InvalidTlv
     else res_bind (slice data offset (offset + len)) (\<lambda>sl.
          res_bind (fill_new (op_map_err type2_error_from (try_extend bl DATA_VEC_CAP sl))) (\<lambda>v.
          Ok (v, offset + len))))"

text \<open>
  One iteration of the loop of \<open>parse_tlvs_into\<close>, up to the call of \<open>push_tlv\<close>: the block found
  at \<open>offset\<close> (\<open>None\<close> for an unknown tag, which is skipped) and the offset behind it.
\<close>

definition parse_tlv_at ::
  "u8 vec_lib \<Rightarrow> u8 list \<Rightarrow> nat \<Rightarrow> (type2_error, tlv option \<times> nat) res" where
  "parse_tlv_at bl data offset =
     res_bind (index data offset) (\<lambda>tag.
     let offset = offset + 1 in
     if tag = TLV_NULL then Ok (Some Null, offset)
     else if tag = TLV_TERMINATOR then Ok (Some Terminator, offset)
     else if tag = TLV_LOCK_CONTROL then
       res_bind (parse_control_value data offset) (\<lambda>(bs, offset).
       res_bind (lc_from_bytes bs) (\<lambda>v. Ok (Some (LockControl v), offset)))
     else if tag = TLV_MEMORY_CONTROL then
       res_bind (parse_control_value data offset) (\<lambda>(bs, offset).
       res_bind (mc_from_bytes bs) (\<lambda>v. Ok (Some (MemoryControl v), offset)))
     else if tag = TLV_NDEF_MESSAGE then
       res_bind (parse_data_value bl data offset) (\<lambda>(v, offset). Ok (Some (NdefMessage v), offset))
     else if tag = TLV_PROPRIETARY then
       res_bind (parse_data_value bl data offset) (\<lambda>(v, offset).
         Ok (Some (tlv.Proprietary v), offset))
     else
       res_bind (t2_parse_tlv_length data offset) (\<lambda>(len, consumed).
       let offset = offset + consumed + unat len in
       if offset > length data then Err type2_error.InvalidTlv else Ok (None, offset)))"

text \<open>Each iteration moves the offset forward and keeps it inside the data.\<close>

lemma t2_parse_tlv_length_consumed:
  "t2_parse_tlv_length data offset = Ok (len, k) \<Longrightarrow> 0 < k \<and> offset + k \<le> length data"
  by (auto simp: t2_parse_tlv_length_def dest: parse_tlv_length_consumed)

lemma parse_control_value_progress:
  "parse_control_value data offset = Ok (bs, offset') \<Longrightarrow> offset < offset' \<and> offset' \<le> length data"
  by (auto simp: parse_control_value_def res_bind_Ok_iff Let_def split: if_splits
      dest: t2_parse_tlv_length_consumed)

lemma parse_data_value_progress:
  "parse_data_value bl data offset = Ok (v, offset') \<Longrightarrow> offset < offset' \<and> offset' \<le> length data"
  by (auto simp: parse_data_value_def res_bind_Ok_iff Let_def split: if_splits
      dest: t2_parse_tlv_length_consumed)

lemma parse_tlv_at_progress:
  assumes "parse_tlv_at bl data offset = Ok (r, offset')"
  shows "offset < offset' \<and> offset' \<le> length data"
proof -
  have "offset < length data"
    using assms by (auto simp: parse_tlv_at_def index_def split: if_splits)
  with assms show ?thesis
    unfolding parse_tlv_at_def Let_def
    by (auto simp: res_bind_Ok_iff split: if_splits
        dest: parse_control_value_progress parse_data_value_progress t2_parse_tlv_length_consumed)
qed

function parse_tlvs_into ::
  "u8 vec_lib \<Rightarrow> tlv vec_lib \<Rightarrow> u8 list \<Rightarrow> nat \<Rightarrow> (tlv list, type2_error, unit) op" where
  "parse_tlvs_into bl tvl data offset out =
     (if offset < length data then
        (case parse_tlv_at bl data offset of
           Err e \<Rightarrow> (Err e, out)
         | Panic \<Rightarrow> (Panic, out)
         | Ok (None, offset') \<Rightarrow> parse_tlvs_into bl tvl data offset' out
         | Ok (Some t, offset') \<Rightarrow>
             (case push_tlv tvl t out of
                (Ok _, out') \<Rightarrow>
                  if t = Terminator then (Ok (), out')
                  else parse_tlvs_into bl tvl data offset' out'
              | (Err e, out') \<Rightarrow> (Err e, out')
              | (Panic, out') \<Rightarrow> (Panic, out')))
      else (Ok (), out))"
  by pat_completeness auto
termination
  by (relation "measure (\<lambda>(bl, tvl, data, offset, out). length data - offset)")
     (auto dest!: parse_tlv_at_progress)

declare parse_tlvs_into.simps [simp del]

definition parse_tlvs ::
  "u8 vec_lib \<Rightarrow> tlv vec_lib \<Rightarrow> u8 list \<Rightarrow> (type2_error, tlv list) res" where
  "parse_tlvs bl tvl data = fill_new (parse_tlvs_into bl tvl data 0)"

subsection \<open>The serializer\<close>

definition checked_value_length :: "nat \<Rightarrow> (type2_error, u16) res" where
  "checked_value_length len =
     (if len < 65536 \<and> (of_nat len :: u16) \<le> MAX_TLV_LENGTH then Ok (of_nat len)
      else Err OutOfRange)"

abbreviation put_byte :: "u8 vec_lib \<Rightarrow> u8 \<Rightarrow> (u8 list, type2_error, unit) op" where
  "put_byte bl b \<equiv> op_map_err type2_error_from (try_push bl DATA_VEC_CAP b)"

abbreviation put_bytes :: "u8 vec_lib \<Rightarrow> u8 list \<Rightarrow> (u8 list, type2_error, unit) op" where
  "put_bytes bl bs \<equiv> op_map_err type2_error_from (try_extend bl DATA_VEC_CAP bs)"

fun bytes3_list :: "bytes3 \<Rightarrow> u8 list" where
  "bytes3_list (a, b, c) = [a, b, c]"

fun tlv_write :: "u8 vec_lib \<Rightarrow> tlv \<Rightarrow> (u8 list, type2_error, unit) op" where
  "tlv_write bl Null = put_byte bl TLV_NULL"
| "tlv_write bl Terminator = put_byte bl TLV_TERMINATOR"
| "tlv_write bl (LockControl v) =
     op_bind (put_byte bl TLV_LOCK_CONTROL) (\<lambda>_.
     op_bind (put_byte bl 0x03) (\<lambda>_.
     put_bytes bl (bytes3_list (lc_to_bytes v))))"
| "tlv_write bl (MemoryControl v) =
     op_bind (put_byte bl TLV_MEMORY_CONTROL) (\<lambda>_.
     op_bind (put_byte bl 0x03) (\<lambda>_.
     put_bytes bl (bytes3_list (mc_to_bytes v))))"
| "tlv_write bl (NdefMessage data) =
     op_bind (op_lift (checked_value_length (length data))) (\<lambda>len.
     op_bind (put_byte bl TLV_NDEF_MESSAGE) (\<lambda>_.
     op_bind (t2_encode_tlv_length bl len) (\<lambda>_.
     put_bytes bl data)))"
| "tlv_write bl (tlv.Proprietary data) =
     op_bind (op_lift (checked_value_length (length data))) (\<lambda>len.
     op_bind (put_byte bl TLV_PROPRIETARY) (\<lambda>_.
     op_bind (t2_encode_tlv_length bl len) (\<lambda>_.
     put_bytes bl data)))"

definition tlv_to_bytes :: "u8 vec_lib \<Rightarrow> tlv \<Rightarrow> (type2_error, u8 list) res" where
  "tlv_to_bytes bl t = fill_new (tlv_write bl t)"

fun ndef_data :: "tlv \<Rightarrow> u8 list option" where
  "ndef_data (NdefMessage data) = Some data"
| "ndef_data _ = None"

fun value_length :: "tlv \<Rightarrow> (type2_error, u16) res" where
  "value_length Null = Ok 0"
| "value_length Terminator = Ok 0"
| "value_length (LockControl _) = Ok 3"
| "value_length (MemoryControl _) = Ok 3"
| "value_length (NdefMessage data) = checked_value_length (length data)"
| "value_length (tlv.Proprietary data) = checked_value_length (length data)"

section \<open>Rules for evaluation\<close>

text \<open>For libraries that are as documented: buffers by what fits, the parser by its definition.\<close>

lemmas eval_push = try_push_eq try_extend_eq heapless_push_def heapless_extend_def vec_fits_le
  op_map_err_def op_bind_def DATA_VEC_CAP_def TLV_VEC_CAP_def FRAME_VEC_CAP_def

lemmas eval_blocks = parse_tlvs_def fill_new_def parse_tlvs_into.simps parse_tlv_at_def tlv_tags
  parse_control_value_def parse_data_value_def t2_parse_tlv_length_def parse_tlv_length_def
  lc_from_bytes.simps mc_from_bytes.simps lc_byte_address_def mc_byte_address_def one_shl_chk_def
  mul_chk_def add_chk_def check_area_in_address_space_def checked_defs push_tlv_def geometry
  lc_lock_byte_count_def div_ceil_def u16_from_be_bytes_def eval_push

end
