(* ===== verification/Tag.thy ===== *)
theory Tag
  imports Prelude
begin

text \<open>
  \<open>src/src/tag.rs\<close>: the tag states and access conditions all tag types share, and the nibble
  encoding of an access condition in byte CC3 of a Type 2 Tag.
\<close>

section \<open>Definitions\<close>

datatype tag_state = Initialized | ReadWrite | ReadOnlyState

datatype access_condition = Granted | Denied | Proprietary u8 | Rfu u8

definition from_nibble :: "u8 \<Rightarrow> access_condition" where
  "from_nibble nibble =
     (if nibble = 0x00 then Granted
      else if nibble = 0x0F then Denied
      else if 0x08 \<le> nibble \<and> nibble \<le> 0x0E then Proprietary nibble
      else Rfu nibble)"

fun to_nibble :: "access_condition \<Rightarrow> u8" where
  "to_nibble Granted = 0x00"
| "to_nibble Denied = 0x0F"
| "to_nibble (Proprietary v) = v"
| "to_nibble (Rfu v) = v"

section \<open>Well-formed access conditions\<close>

text \<open>The values that \<open>from_nibble\<close> produces from a four-bit argument.\<close>

fun access_wf :: "access_condition \<Rightarrow> bool" where
  "access_wf Granted = True"
| "access_wf Denied = True"
| "access_wf (Proprietary v) = (0x08 \<le> v \<and> v \<le> 0x0E)"
| "access_wf (Rfu v) = (0x01 \<le> v \<and> v \<le> 0x07)"

lemma to_from_nibble [simp]: "to_nibble (from_nibble n) = n"
  by (simp add: from_nibble_def)

lemma from_to_nibble [simp]: "access_wf a \<Longrightarrow> from_nibble (to_nibble a) = a"
  by (cases a) (auto simp: from_nibble_def word_le_nat_alt)

lemma to_nibble_bound: "access_wf a \<Longrightarrow> unat (to_nibble a) < 16"
  by (cases a) (auto simp: word_le_nat_alt)

lemma from_nibble_wf: "unat n < 16 \<Longrightarrow> access_wf (from_nibble n)"
proof -
  assume "unat n < 16"
  moreover have "n \<noteq> 0 \<Longrightarrow> 0 < unat n" by (simp add: unat_gt_0)
  moreover have "n \<noteq> 0x0F \<Longrightarrow> unat n \<noteq> 15" by (simp add: word_unat_eq_iff)
  ultimately show ?thesis
    by (auto simp: from_nibble_def word_le_nat_alt)
qed

lemma from_nibble_Granted_iff [simp]: "from_nibble n = Granted \<longleftrightarrow> n = 0"
  by (simp add: from_nibble_def)

end
