(* ===== verification/Capability.thy ===== *)
theory Capability
  imports Tag Type2
begin

text \<open>
  \<open>src/src/type2/cc.rs\<close>: the Capability Container in block 3 of a Type 2 Tag, its validation and
  the tag state it determines.
\<close>

section \<open>Definitions\<close>

definition CC_MAGIC :: u8 where "CC_MAGIC = 0xE1"

definition SUPPORTED_MAJOR_VERSION :: u8 where "SUPPORTED_MAJOR_VERSION = 1"

record capability_container =
  version_major :: u8
  version_minor :: u8
  size_field :: u8
  read_access :: access_condition
  write_access :: access_condition

text \<open>A \<open>u8\<close> times 8 fits a \<open>u16\<close>, so this product never overflows.\<close>

definition cc_data_area_size :: "capability_container \<Rightarrow> u16" where
  "cc_data_area_size cc = ucast (size_field cc) * 8"

definition is_dynamic :: "capability_container \<Rightarrow> bool" where
  "is_dynamic cc \<longleftrightarrow> size_field cc > 0x06"

definition is_valid :: "capability_container \<Rightarrow> bool" where
  "is_valid cc \<longleftrightarrow>
     version_major cc = SUPPORTED_MAJOR_VERSION \<and> read_access cc = Granted"

definition cc_tag_state :: "capability_container \<Rightarrow> u16 \<Rightarrow> tag_state option" where
  "cc_tag_state cc ndef_tlv_length =
     (if \<not> is_valid cc then None
      else if ndef_tlv_length = 0 \<and> write_access cc = Granted then Some Initialized
      else if ndef_tlv_length > 0 \<and> write_access cc = Granted then Some ReadWrite
      else if ndef_tlv_length > 0 \<and> write_access cc = Denied then Some ReadOnlyState
      else None)"

definition cc_to_bytes :: "capability_container \<Rightarrow> bytes4" where
  "cc_to_bytes cc =
     (CC_MAGIC,
      push_bit 4 (version_major cc) OR (version_minor cc AND 0x0F),
      size_field cc,
      push_bit 4 (to_nibble (read_access cc)) OR to_nibble (write_access cc))"

fun cc_try_from :: "bytes4 \<Rightarrow> (type2_error, capability_container) res" where
  "cc_try_from (b0, b1, b2, b3) =
     (if b0 \<noteq> CC_MAGIC then Err (InvalidMagic b0)
      else let vmajor = drop_bit 4 b1; vminor = b1 AND 0x0F in
        if vmajor > SUPPORTED_MAJOR_VERSION then Err (UnsupportedVersion vmajor vminor)
        else Ok \<lparr>version_major = vmajor, version_minor = vminor, size_field = b2,
                 read_access = from_nibble (drop_bit 4 b3),
                 write_access = from_nibble (b3 AND 0x0F)\<rparr>)"

definition cc_try_from_slice :: "u8 list \<Rightarrow> (type2_error, capability_container) res" where
  "cc_try_from_slice sl =
     (if length sl < 4 then Err InvalidLength
      else res_bind (index sl 0) (\<lambda>b0. res_bind (index sl 1) (\<lambda>b1.
           res_bind (index sl 2) (\<lambda>b2. res_bind (index sl 3) (\<lambda>b3.
           cc_try_from (b0, b1, b2, b3))))))"

section \<open>Well-formed containers\<close>

text \<open>What the parser can produce: nibbles in range and a version it supports.\<close>

definition cc_wf :: "capability_container \<Rightarrow> bool" where
  "cc_wf cc \<longleftrightarrow> version_major cc \<le> SUPPORTED_MAJOR_VERSION \<and> version_minor cc \<le> 0x0F \<and>
     access_wf (read_access cc) \<and> access_wf (write_access cc)"

lemma unat_data_area_size: "unat (cc_data_area_size cc) = 8 * unat (size_field cc)"
  using u8_unat_lt [of "size_field cc"]
  by (simp add: cc_data_area_size_def unat_word_ariths del: u8_unat_lt)

lemma is_dynamic_iff: "is_dynamic cc \<longleftrightarrow> 48 < unat (cc_data_area_size cc)"
  by (simp add: is_dynamic_def unat_data_area_size word_less_nat_alt)

lemma cc_try_from_wf: "cc_try_from bs = Ok cc \<Longrightarrow> cc_wf cc"
proof (cases bs)
  case (fields b0 b1 b2 b3)
  moreover have "unat (drop_bit 4 b3) < 16"
    by (simp add: less_mult_imp_div_less)
  moreover assume "cc_try_from bs = Ok cc"
  ultimately show ?thesis
    by (auto simp: cc_wf_def Let_def word_le_nat_alt word_less_nat_alt not_less
        intro!: from_nibble_wf less_Suc_eq_le [THEN iffD1] split: if_splits)
qed

section \<open>Properties\<close>

text \<open>
  C24. Serializing a well-formed container and parsing the four bytes gives the container back,
  and every container the parser returns is well-formed and serializes to the bytes it was read
  from.
\<close>

theorem cc_roundtrip:
  "(cc_wf cc \<longrightarrow> cc_try_from (cc_to_bytes cc) = Ok cc) \<and>
   (cc_try_from bs = Ok cc \<longrightarrow> cc_wf cc \<and> cc_to_bytes cc = bs)"
proof (intro conjI impI)
  assume wf: "cc_wf cc"
  have major: "unat (version_major cc) < 16" and minor: "unat (version_minor cc) < 16"
    using wf by (simp_all add: cc_wf_def SUPPORTED_MAJOR_VERSION_def word_le_nat_alt)
  have "version_minor cc AND 0x0F = version_minor cc"
    using minor by (simp add: word_unat_eq_iff)
  moreover note nibbles_roundtrip [OF major minor]
  moreover have "unat (to_nibble (read_access cc)) < 16" "unat (to_nibble (write_access cc)) < 16"
    using wf by (simp_all add: cc_wf_def to_nibble_bound)
  note nibbles_roundtrip [OF this]
  ultimately show "cc_try_from (cc_to_bytes cc) = Ok cc"
    using wf unfolding cc_to_bytes_def cc_try_from.simps Let_def
    by (simp only:) (simp add: cc_wf_def not_less)
next
  assume parsed: "cc_try_from bs = Ok cc"
  then show "cc_wf cc" by (rule cc_try_from_wf)
  show "cc_to_bytes cc = bs"
    using parsed by (cases bs) (auto simp: cc_to_bytes_def Let_def nibbles_join split: if_splits)
qed

theorem cc_roundtrip_witness:
  "cc_try_from (cc_to_bytes \<lparr>version_major = 1, version_minor = 2, size_field = 0x6D,
       read_access = Granted, write_access = access_condition.Proprietary 9\<rparr>) =
     Ok \<lparr>version_major = 1, version_minor = 2, size_field = 0x6D,
       read_access = Granted, write_access = access_condition.Proprietary 9\<rparr> \<and>
   cc_to_bytes \<lparr>version_major = 1, version_minor = 0, size_field = 6,
       read_access = Granted, write_access = Granted\<rparr> = (0xE1, 0x10, 0x06, 0x00)"
proof (rule conjI)
  show "cc_to_bytes \<lparr>version_major = 1, version_minor = 0, size_field = 6,
       read_access = Granted, write_access = Granted\<rparr> = (0xE1, 0x10, 0x06, 0x00)"
    by (rule cc_roundtrip [THEN conjunct2, rule_format, THEN conjunct2])
      (simp add: CC_MAGIC_def SUPPORTED_MAJOR_VERSION_def from_nibble_def)
qed (rule cc_roundtrip [THEN conjunct1, rule_format],
    simp add: cc_wf_def SUPPORTED_MAJOR_VERSION_def)

end
