(* ===== verification/Memory.thy ===== *)
theory Memory
  imports Tlv_Blocks Capability
begin

text \<open>
  \<open>src/src/type2/memory.rs\<close>: lock and reserved areas, the memory layout a Capability Container
  and its control TLVs describe, the conversion between linear addresses and sector, block and
  offset, and the map from logical offsets of the data area to physical addresses.
\<close>

section \<open>Definitions\<close>

subsection \<open>Lock and reserved areas\<close>

record lock_area =
  la_byte_address :: u32
  la_size_in_bits :: u16
  la_bytes_per_lock_bit :: u16

definition la_lock_byte_count :: "lock_area \<Rightarrow> u16" where
  "la_lock_byte_count a = div_ceil (la_size_in_bits a) 8"

definition la_end_address :: "lock_area \<Rightarrow> u32" where
  "la_end_address a = saturating_add (la_byte_address a) (ucast (la_lock_byte_count a))"

definition from_lock_control :: "lock_control_value \<Rightarrow> ('e, lock_area) res" where
  "from_lock_control lc =
     res_bind (lc_byte_address lc) (\<lambda>a.
     res_bind (lc_bytes_per_lock_bit lc) (\<lambda>b.
     Ok \<lparr>la_byte_address = a, la_size_in_bits = lc_size_in_bits lc, la_bytes_per_lock_bit = b\<rparr>))"

definition la_contains :: "lock_area \<Rightarrow> u32 \<Rightarrow> bool" where
  "la_contains a addr \<longleftrightarrow> addr \<ge> la_byte_address a \<and> addr < la_end_address a"

record reserved_area =
  ra_byte_address :: u32
  ra_size :: u16

definition ra_end_address :: "reserved_area \<Rightarrow> u32" where
  "ra_end_address a = saturating_add (ra_byte_address a) (ucast (ra_size a))"

definition from_memory_control :: "memory_control_value \<Rightarrow> ('e, reserved_area) res" where
  "from_memory_control mc =
     res_bind (mc_byte_address mc) (\<lambda>a.
     Ok \<lparr>ra_byte_address = a, ra_size = mc_size_in_bytes mc\<rparr>)"

definition ra_contains :: "reserved_area \<Rightarrow> u32 \<Rightarrow> bool" where
  "ra_contains a addr \<longleftrightarrow> addr \<ge> ra_byte_address a \<and> addr < ra_end_address a"

subsection \<open>The layout\<close>

record memory_layout =
  data_area_size :: u16
  lock_areas :: "lock_area list"
  reserved_areas :: "reserved_area list"

text \<open>
  The vector libraries a build of the crate uses, one per element type, and the largest value of
  its \<open>usize\<close>.
\<close>

record build =
  bytes_lib :: "u8 vec_lib"
  tlv_lib :: "tlv vec_lib"
  lock_lib :: "lock_area vec_lib"
  reserved_lib :: "reserved_area vec_lib"
  usize_max :: nat

definition AREA_VEC_CAP :: nat where "AREA_VEC_CAP = 8"

definition push_area :: "'a vec_lib \<Rightarrow> 'a \<Rightarrow> ('a list, unit, unit) op" where
  "push_area l val = op_map_err (\<lambda>_. ()) (try_push l AREA_VEC_CAP val)"

definition default_dynamic_lock_area :: "u16 \<Rightarrow> lock_area" where
  "default_dynamic_lock_area area_size =
     (let extra_bytes = saturating_sub area_size (of_nat STATIC_DATA_AREA_SIZE);
          lock_bits = div_ceil extra_bytes 8
      in \<lparr>la_byte_address = ucast DATA_START_BLOCK * of_nat BLOCK_SIZE + ucast area_size,
          la_size_in_bits = lock_bits, la_bytes_per_lock_bit = 8\<rparr>)"

fun collect_areas :: "build \<Rightarrow> tlv list \<Rightarrow> lock_area list \<Rightarrow> reserved_area list \<Rightarrow>
    ('e, lock_area list \<times> reserved_area list) res" where
  "collect_areas B [] ls rs = Ok (ls, rs)"
| "collect_areas B (LockControl lc # ts) ls rs =
     res_bind (from_lock_control lc) (\<lambda>area.
     collect_areas B ts (snd (push_area (lock_lib B) area ls)) rs)"
| "collect_areas B (MemoryControl mc # ts) ls rs =
     res_bind (from_memory_control mc) (\<lambda>area.
     collect_areas B ts ls (snd (push_area (reserved_lib B) area rs)))"
| "collect_areas B (_ # ts) ls rs = collect_areas B ts ls rs"

definition from_cc_and_tlvs ::
  "build \<Rightarrow> capability_container \<Rightarrow> tlv list \<Rightarrow> ('e, memory_layout) res" where
  "from_cc_and_tlvs B cc tlvs =
     res_bind (collect_areas B tlvs [] []) (\<lambda>(ls, rs).
     let area_size = cc_data_area_size cc;
         ls = (if is_dynamic cc \<and> ls = []
               then snd (push_area (lock_lib B) (default_dynamic_lock_area area_size) ls) else ls)
     in Ok \<lparr>data_area_size = area_size, lock_areas = ls, reserved_areas = rs\<rparr>)"

definition is_skip_area :: "memory_layout \<Rightarrow> u32 \<Rightarrow> bool" where
  "is_skip_area layout addr \<longleftrightarrow>
     list_ex (\<lambda>a. la_contains a addr) (lock_areas layout) \<or>
     list_ex (\<lambda>a. ra_contains a addr) (reserved_areas layout)"

fun sum_chk :: "u32 \<Rightarrow> u32 list \<Rightarrow> ('e, u32) res" where
  "sum_chk acc [] = Ok acc"
| "sum_chk acc (x # xs) = res_bind (add_chk acc x) (\<lambda>acc'. sum_chk acc' xs)"

definition sector_count :: "memory_layout \<Rightarrow> ('e, u8) res" where
  "sector_count layout =
     res_bind (sum_chk 0 (map (ucast \<circ> la_lock_byte_count) (lock_areas layout))) (\<lambda>locks.
     res_bind (sum_chk 0 (map (ucast \<circ> ra_size) (reserved_areas layout))) (\<lambda>reserved.
     res_bind (add_chk (ucast (data_area_size layout) +
         ucast DATA_START_BLOCK * of_nat BLOCK_SIZE) locks) (\<lambda>t.
     res_bind (add_chk t reserved) (\<lambda>total_bytes.
     let sectors = div_ceil total_bytes (of_nat SECTOR_SIZE)
     in Ok (ucast (min sectors 255))))))"

subsection \<open>Addresses\<close>

definition address_to_sector_block :: "u32 \<Rightarrow> (u8 \<times> u8 \<times> u8) option" where
  "address_to_sector_block byte_addr =
     (let sector = byte_addr div of_nat SECTOR_SIZE in
      if sector > ucast MAX_SECTOR then None
      else let within_sector = byte_addr mod of_nat SECTOR_SIZE;
               block = ucast (within_sector div of_nat BLOCK_SIZE);
               offset = ucast (within_sector mod of_nat BLOCK_SIZE)
           in Some (ucast sector, block, offset))"

definition sector_block_to_address :: "u8 \<Rightarrow> u8 \<Rightarrow> u8 \<Rightarrow> u32 option" where
  "sector_block_to_address sector block offset =
     (if sector > MAX_SECTOR then None
      else Some (ucast sector * of_nat SECTOR_SIZE + ucast block * of_nat BLOCK_SIZE
                 + ucast offset))"

lemma unat_next_addr: "addr < ADDRESS_SPACE_END \<Longrightarrow> checked_add addr 1 = Some (addr + 1)"
  by (simp add: address_space_end_eq word_less_nat_alt checked_defs)

function usable_walk :: "memory_layout \<Rightarrow> u32 \<Rightarrow> u16 \<Rightarrow> u32 option" where
  "usable_walk layout addr remaining =
     (if addr \<ge> ADDRESS_SPACE_END then None
      else if \<not> is_skip_area layout addr then
        (if remaining = 0 then Some addr
         else Option.bind (checked_add addr 1) (\<lambda>a. usable_walk layout a (remaining - 1)))
      else Option.bind (checked_add addr 1) (\<lambda>a. usable_walk layout a remaining))"
  by pat_completeness auto
termination
  by (relation "measure (\<lambda>(layout, addr, remaining). unat ADDRESS_SPACE_END - unat addr)")
     (auto simp: word_less_nat_alt not_le dest: checked_add_Some)

declare usable_walk.simps [simp del]

definition usable_offset_to_address :: "memory_layout \<Rightarrow> u16 \<Rightarrow> u32 option" where
  "usable_offset_to_address layout n =
     usable_walk layout (ucast DATA_START_BLOCK * of_nat BLOCK_SIZE) n"

end
