(* ===== verification/Control.thy ===== *)
theory Control
  imports Tlv_Blocks
begin

text \<open>
  The Lock and Memory Control descriptors of \<open>src/src/type2/tlv.rs\<close>: their byte addresses never
  overflow and stay in the address space for every descriptor the parser accepts, and the two
  codecs are inverse to each other on well-formed descriptors.
\<close>

section \<open>Addresses of a descriptor\<close>

text \<open>The linear address a page, a page size exponent and an offset describe.\<close>

definition page_address :: "u8 \<Rightarrow> u8 \<Rightarrow> u8 \<Rightarrow> nat" where
  "page_address page e offset = unat page * 2 ^ unat e + unat offset"

definition in_address_space :: "nat \<Rightarrow> nat \<Rightarrow> bool" where
  "in_address_space start len \<longleftrightarrow> start < 261120 \<and> start + len \<le> 261120"

definition lc_wf :: "lock_control_value \<Rightarrow> bool" where
  "lc_wf v \<longleftrightarrow> unat (lc_page_addr v) < 16 \<and> unat (lc_byte_offset v) < 16 \<and>
     1 \<le> unat (lc_size_in_bits v) \<and> unat (lc_size_in_bits v) \<le> 256 \<and>
     0 < unat (lc_bytes_per_page v) \<and> unat (lc_bytes_per_page v) < 16 \<and>
     0 < unat (lc_bytes_locked_per_bit v) \<and> unat (lc_bytes_locked_per_bit v) < 16 \<and>
     in_address_space (page_address (lc_page_addr v) (lc_bytes_per_page v) (lc_byte_offset v))
       ((unat (lc_size_in_bits v) + 7) div 8)"

definition mc_wf :: "memory_control_value \<Rightarrow> bool" where
  "mc_wf v \<longleftrightarrow> unat (mc_page_addr v) < 16 \<and> unat (mc_byte_offset v) < 16 \<and>
     1 \<le> unat (mc_size_in_bytes v) \<and> unat (mc_size_in_bytes v) \<le> 256 \<and>
     0 < unat (mc_bytes_per_page v) \<and> unat (mc_bytes_per_page v) < 16 \<and>
     in_address_space (page_address (mc_page_addr v) (mc_bytes_per_page v) (mc_byte_offset v))
       (unat (mc_size_in_bytes v))"

lemma page_address_bound:
  assumes "unat page < 16" and "unat e < 16" and "unat offset < 16"
  shows "page_address page e offset < 491536"
proof -
  have "unat page * 2 ^ unat e \<le> 15 * 2 ^ 15"
    using assms(1,2) by (intro mult_le_mono power_increasing) auto
  with assms(3) show ?thesis by (simp add: page_address_def)
qed

lemma address_computation:
  fixes page e offset :: u8
  assumes "unat page < 16" and "unat e < 16" and "unat offset < 16"
  shows "res_bind (one_shl_chk e) (\<lambda>ps. res_bind (mul_chk (ucast page) ps)
           (\<lambda>p. add_chk p (ucast offset))) =
         (Ok (of_nat (page_address page e offset)) :: ('err, u32) res)"
proof -
  define ps :: u32 where "ps = push_bit (unat e) 1"
  have ps: "unat ps = 2 ^ unat e"
    unfolding ps_def using assms(2) by (intro unat_push_bit_1) simp
  have prod: "unat page * 2 ^ unat e < 491536"
    using page_address_bound [OF assms] by (simp add: page_address_def)
  have mul: "mul_chk (ucast page) ps = (Ok (ucast page * ps) :: ('err, u32) res)"
    using prod by (simp add: mul_chk_def checked_defs ps)
  have p: "unat (ucast page * ps) = unat page * 2 ^ unat e"
    using prod by (simp add: unat_word_ariths ps)
  have add: "add_chk (ucast page * ps) (ucast offset) =
      (Ok (ucast page * ps + ucast offset) :: ('err, u32) res)"
    using page_address_bound [OF assms]
    by (simp add: add_chk_def checked_defs p page_address_def)
  have "unat (ucast page * ps + ucast offset) = page_address page e offset"
    using page_address_bound [OF assms]
    by (simp add: unat_word_ariths(1) p page_address_def)
  then have "ucast page * ps + ucast offset = (of_nat (page_address page e offset) :: u32)"
    by (metis of_nat_unat ucast_id)
  moreover have "one_shl_chk e = (Ok ps :: ('err, u32) res)"
    using assms(2) by (simp add: one_shl_chk_def ps_def)
  ultimately show ?thesis using mul add by simp
qed

lemma lc_byte_address_eq:
  assumes "unat (lc_page_addr v) < 16" "unat (lc_bytes_per_page v) < 16"
    "unat (lc_byte_offset v) < 16"
  shows "lc_byte_address v =
    Ok (of_nat (page_address (lc_page_addr v) (lc_bytes_per_page v) (lc_byte_offset v)))"
  unfolding lc_byte_address_def using assms by (rule address_computation)

lemma mc_byte_address_eq:
  assumes "unat (mc_page_addr v) < 16" "unat (mc_bytes_per_page v) < 16"
    "unat (mc_byte_offset v) < 16"
  shows "mc_byte_address v =
    Ok (of_nat (page_address (mc_page_addr v) (mc_bytes_per_page v) (mc_byte_offset v)))"
  unfolding mc_byte_address_def using assms by (rule address_computation)

lemma check_area_eq:
  assumes "start < 491536"
  shows "check_area_in_address_space (of_nat start) sz =
    (if in_address_space start (unat sz) then Ok () else Err type2_error.InvalidTlv)"
proof -
  have s: "unat (of_nat start :: u32) = start"
    using assms by (simp add: unat_of_nat)
  have sz: "unat sz < 65536" by simp
  then have "unat (of_nat start + ucast sz :: u32) = start + unat sz"
    using assms by (simp add: unat_word_ariths(1) s del: u16_unat_lt)
  then show ?thesis
    using assms sz
    by (auto simp: check_area_in_address_space_def checked_defs s geometry word_less_nat_alt
        word_le_nat_alt in_address_space_def simp del: u16_unat_lt)
qed

lemma lc_wf_address:
  assumes "lc_wf v"
  obtains a where "lc_byte_address v = Ok a"
    and "unat a = page_address (lc_page_addr v) (lc_bytes_per_page v) (lc_byte_offset v)"
    and "unat a + unat (lc_lock_byte_count v) \<le> 261120"
proof
  let ?a = "page_address (lc_page_addr v) (lc_bytes_per_page v) (lc_byte_offset v)"
  show "lc_byte_address v = Ok (of_nat ?a)"
    using assms by (intro lc_byte_address_eq) (simp_all add: lc_wf_def)
  have "?a < 261120" "?a + unat (lc_lock_byte_count v) \<le> 261120"
    using assms by (simp_all add: lc_wf_def in_address_space_def lc_lock_byte_count_def
        unat_div_ceil8)
  then show "unat (of_nat ?a :: u32) = ?a" "unat (of_nat ?a :: u32) +
      unat (lc_lock_byte_count v) \<le> 261120"
    by (simp_all add: unat_of_nat)
qed

lemma mc_wf_address:
  assumes "mc_wf v"
  obtains a where "mc_byte_address v = Ok a"
    and "unat a = page_address (mc_page_addr v) (mc_bytes_per_page v) (mc_byte_offset v)"
    and "unat a + unat (mc_size_in_bytes v) \<le> 261120"
proof
  let ?a = "page_address (mc_page_addr v) (mc_bytes_per_page v) (mc_byte_offset v)"
  show "mc_byte_address v = Ok (of_nat ?a)"
    using assms by (intro mc_byte_address_eq) (simp_all add: mc_wf_def)
  have "?a < 261120" "?a + unat (mc_size_in_bytes v) \<le> 261120"
    using assms by (simp_all add: mc_wf_def in_address_space_def)
  then show "unat (of_nat ?a :: u32) = ?a" "unat (of_nat ?a :: u32) +
      unat (mc_size_in_bytes v) \<le> 261120"
    by (simp_all add: unat_of_nat)
qed

section \<open>The Lock Control codec\<close>

lemma size_field_decode:
  fixes b :: u8
  defines "n \<equiv> (if b = 0 then 256 else ucast b :: u16)"
  shows "1 \<le> unat n \<and> unat n \<le> 256" and "(if n = 256 then 0 else ucast n) = b"
proof -
  have "b \<noteq> 0 \<Longrightarrow> 0 < unat b" by (simp add: unat_gt_0)
  then show "1 \<le> unat n \<and> unat n \<le> 256" by (auto simp: n_def less_imp_le)
  have "ucast b \<noteq> (256 :: u16)"
    using u8_unat_lt [of b] by (auto simp: word_unat_eq_iff simp del: u8_unat_lt)
  moreover have "ucast (ucast b :: u16) = b"
    by (simp add: word_unat_eq_iff unat_ucast_down)
  ultimately show "(if n = 256 then 0 else ucast n) = b"
    by (simp add: n_def)
qed

lemma size_field_encode:
  fixes n :: u16
  assumes "1 \<le> unat n" "unat n \<le> 256"
  shows "(if (if n = 256 then 0 else ucast n :: u8) = 0 then 256
          else ucast (if n = 256 then 0 else ucast n :: u8)) = n"
proof (cases "n = 256")
  case False
  then have "unat n \<noteq> 256" by (simp add: word_unat_eq_iff)
  with assms have "unat n < 256" by simp
  with assms False show ?thesis
    by (auto simp: word_unat_eq_iff unat_ucast_down)
qed simp

lemma unat_nibble_high: "unat (drop_bit 4 b :: u8) < 16"
  by (simp add: less_mult_imp_div_less)

lemmas nibble_bounds = unat_nibble_high unat_low_nibble

lemma lc_from_bytes_eq:
  "lc_from_bytes (b0, b1, b2) =
     (let v = \<lparr>lc_page_addr = drop_bit 4 b0, lc_byte_offset = b0 AND 0x0F,
               lc_size_in_bits = (if b1 = 0 then 256 else ucast b1),
               lc_bytes_per_page = b2 AND 0x0F, lc_bytes_locked_per_bit = drop_bit 4 b2\<rparr>
      in if lc_wf v then Ok v else Err type2_error.InvalidTlv)"
proof -
  define v where "v = \<lparr>lc_page_addr = drop_bit 4 b0, lc_byte_offset = b0 AND 0x0F,
               lc_size_in_bits = (if b1 = 0 then 256 else ucast b1),
               lc_bytes_per_page = b2 AND 0x0F, lc_bytes_locked_per_bit = drop_bit 4 b2\<rparr>"
  let ?a = "page_address (lc_page_addr v) (lc_bytes_per_page v) (lc_byte_offset v)"
  have nib: "unat (lc_page_addr v) < 16" "unat (lc_bytes_per_page v) < 16"
    "unat (lc_byte_offset v) < 16" "unat (lc_bytes_locked_per_bit v) < 16"
    by (simp_all add: v_def unat_nibble_high [simplified])
  have "1 \<le> unat (lc_size_in_bits v) \<and> unat (lc_size_in_bits v) \<le> 256"
    unfolding v_def lock_control_value.simps by (rule size_field_decode(1))
  with nib have wf: "lc_wf v \<longleftrightarrow> lc_bytes_per_page v \<noteq> 0 \<and> lc_bytes_locked_per_bit v \<noteq> 0 \<and>
      in_address_space ?a ((unat (lc_size_in_bits v) + 7) div 8)"
    by (auto simp: lc_wf_def unat_gt_0)
  have "lc_from_bytes (b0, b1, b2) =
     (if lc_bytes_per_page v = 0 \<or> lc_bytes_locked_per_bit v = 0 then Err type2_error.InvalidTlv
      else res_bind (check_area_in_address_space (of_nat ?a) (lc_lock_byte_count v)) (\<lambda>_. Ok v))"
    unfolding lc_from_bytes.simps Let_def v_def [symmetric] lc_byte_address_eq [OF nib(1-3)]
    by (simp add: v_def)
  also have "\<dots> = (if lc_wf v then Ok v else Err type2_error.InvalidTlv)"
    unfolding wf
    by (simp add: check_area_eq [OF page_address_bound [OF nib(1-3)]] lc_lock_byte_count_def
        unat_div_ceil8)
  finally show ?thesis by (simp add: v_def Let_def)
qed

lemma mc_from_bytes_eq:
  "mc_from_bytes (b0, b1, b2) =
     (let v = \<lparr>mc_page_addr = drop_bit 4 b0, mc_byte_offset = b0 AND 0x0F,
               mc_size_in_bytes = (if b1 = 0 then 256 else ucast b1),
               mc_bytes_per_page = b2 AND 0x0F\<rparr>
      in if mc_wf v then Ok v else Err type2_error.InvalidTlv)"
proof -
  define v where "v = \<lparr>mc_page_addr = drop_bit 4 b0, mc_byte_offset = b0 AND 0x0F,
               mc_size_in_bytes = (if b1 = 0 then 256 else ucast b1),
               mc_bytes_per_page = b2 AND 0x0F\<rparr>"
  let ?a = "page_address (mc_page_addr v) (mc_bytes_per_page v) (mc_byte_offset v)"
  have nib: "unat (mc_page_addr v) < 16" "unat (mc_bytes_per_page v) < 16"
    "unat (mc_byte_offset v) < 16"
    by (simp_all add: v_def unat_nibble_high [simplified])
  have "1 \<le> unat (mc_size_in_bytes v) \<and> unat (mc_size_in_bytes v) \<le> 256"
    unfolding v_def memory_control_value.simps by (rule size_field_decode(1))
  with nib have wf: "mc_wf v \<longleftrightarrow> mc_bytes_per_page v \<noteq> 0 \<and>
      in_address_space ?a (unat (mc_size_in_bytes v))"
    by (auto simp: mc_wf_def unat_gt_0)
  have "mc_from_bytes (b0, b1, b2) =
     (if mc_bytes_per_page v = 0 then Err type2_error.InvalidTlv
      else res_bind (check_area_in_address_space (of_nat ?a) (mc_size_in_bytes v)) (\<lambda>_. Ok v))"
    unfolding mc_from_bytes.simps Let_def v_def [symmetric] mc_byte_address_eq [OF nib]
    by (simp add: v_def)
  also have "\<dots> = (if mc_wf v then Ok v else Err type2_error.InvalidTlv)"
    unfolding wf by (simp add: check_area_eq [OF page_address_bound [OF nib]])
  finally show ?thesis by (simp add: v_def Let_def)
qed

lemma lc_from_bytes_wf: "lc_from_bytes bs = Ok v \<Longrightarrow> lc_wf v"
  by (cases bs) (auto simp: lc_from_bytes_eq Let_def split: if_splits)

lemma mc_from_bytes_wf: "mc_from_bytes bs = Ok v \<Longrightarrow> mc_wf v"
  by (cases bs) (auto simp: mc_from_bytes_eq Let_def split: if_splits)

lemma lc_from_bytes_no_Panic: "lc_from_bytes bs \<noteq> Panic"
  by (cases bs) (simp add: lc_from_bytes_eq Let_def)

lemma mc_from_bytes_no_Panic: "mc_from_bytes bs \<noteq> Panic"
  by (cases bs) (simp add: mc_from_bytes_eq Let_def)

lemma low_nibble_id: "unat x < 16 \<Longrightarrow> x AND 0x0F = (x :: u8)"
  by (simp add: word_unat_eq_iff)

lemma lc_decode_encode:
  assumes "lc_wf v"
  shows "lc_from_bytes (lc_to_bytes v) = Ok v"
proof -
  have b: "unat (lc_page_addr v) < 16" "unat (lc_byte_offset v) < 16"
    "unat (lc_bytes_per_page v) < 16" "unat (lc_bytes_locked_per_bit v) < 16"
    "1 \<le> unat (lc_size_in_bits v)" "unat (lc_size_in_bits v) \<le> 256"
    using assms by (simp_all add: lc_wf_def)
  show ?thesis
    unfolding lc_to_bytes_def lc_from_bytes_eq low_nibble_id [OF b(2)] low_nibble_id [OF b(3)]
      nibbles_roundtrip [OF b(1,2)] nibbles_roundtrip [OF b(4,3)] size_field_encode [OF b(5,6)]
    using assms by (cases v) (simp add: Let_def)
qed

lemma mc_decode_encode:
  assumes "mc_wf v"
  shows "mc_from_bytes (mc_to_bytes v) = Ok v"
proof -
  have b: "unat (mc_page_addr v) < 16" "unat (mc_byte_offset v) < 16"
    "unat (mc_bytes_per_page v) < 16"
    "1 \<le> unat (mc_size_in_bytes v)" "unat (mc_size_in_bytes v) \<le> 256"
    using assms by (simp_all add: mc_wf_def)
  show ?thesis
    unfolding mc_to_bytes_def mc_from_bytes_eq low_nibble_id [OF b(2)] low_nibble_id [OF b(3)]
      nibbles_roundtrip [OF b(1,2)] size_field_encode [OF b(4,5)]
    using assms by (cases v) (simp add: Let_def)
qed

section \<open>Properties\<close>

text \<open>
  C22. Every Lock Control descriptor the parser accepts has an address that is computed without
  overflow, equals page address times page size plus offset, and describes lock bytes that all lie
  inside the address space of the tag; the same holds of Memory Control descriptors.
\<close>

theorem control_area_in_address_space:
  "(lc_from_bytes bs = Ok lc \<longrightarrow>
     (\<exists>a. lc_byte_address lc = (Ok a :: ('e, u32) res) \<and>
        unat a = unat (lc_page_addr lc) * 2 ^ unat (lc_bytes_per_page lc) + unat (lc_byte_offset lc) \<and>
        unat a + unat (lc_lock_byte_count lc) \<le> unat ADDRESS_SPACE_END)) \<and>
   (mc_from_bytes bs = Ok mc \<longrightarrow>
     (\<exists>a. mc_byte_address mc = (Ok a :: ('e, u32) res) \<and>
        unat a = unat (mc_page_addr mc) * 2 ^ unat (mc_bytes_per_page mc) + unat (mc_byte_offset mc) \<and>
        unat a + unat (mc_size_in_bytes mc) \<le> unat ADDRESS_SPACE_END))"
proof (intro conjI impI)
  assume "lc_from_bytes bs = Ok lc"
  then have "lc_wf lc" by (rule lc_from_bytes_wf)
  then show "\<exists>a. lc_byte_address lc = (Ok a :: ('e, u32) res) \<and>
        unat a = unat (lc_page_addr lc) * 2 ^ unat (lc_bytes_per_page lc) + unat (lc_byte_offset lc) \<and>
        unat a + unat (lc_lock_byte_count lc) \<le> unat ADDRESS_SPACE_END"
    by (rule lc_wf_address) (auto simp: geometry page_address_def)
next
  assume "mc_from_bytes bs = Ok mc"
  then have "mc_wf mc" by (rule mc_from_bytes_wf)
  then show "\<exists>a. mc_byte_address mc = (Ok a :: ('e, u32) res) \<and>
        unat a = unat (mc_page_addr mc) * 2 ^ unat (mc_bytes_per_page mc) + unat (mc_byte_offset mc) \<and>
        unat a + unat (mc_size_in_bytes mc) \<le> unat ADDRESS_SPACE_END"
    by (rule mc_wf_address) (auto simp: geometry page_address_def)
qed

text \<open>
  C23. The codecs of the control descriptors are inverse to each other: a well-formed descriptor
  survives serialization and parsing, and a parsed one serializes to the bytes it came from (for a
  Memory Control descriptor with the reserved upper nibble of the last byte cleared).
\<close>

theorem control_roundtrip:
  "(lc_wf lc \<longrightarrow> lc_from_bytes (lc_to_bytes lc) = Ok lc) \<and>
   (lc_from_bytes (b0, b1, b2) = Ok lc \<longrightarrow> lc_wf lc \<and> lc_to_bytes lc = (b0, b1, b2)) \<and>
   (mc_wf mc \<longrightarrow> mc_from_bytes (mc_to_bytes mc) = Ok mc) \<and>
   (mc_from_bytes (b0, b1, b2) = Ok mc \<longrightarrow> mc_wf mc \<and> mc_to_bytes mc = (b0, b1, b2 AND 0x0F))"
proof (intro conjI impI)
  assume "lc_from_bytes (b0, b1, b2) = Ok lc"
  then show "lc_to_bytes lc = (b0, b1, b2)"
    using size_field_decode(2) [of b1] nibbles_join [of b0] nibbles_join [of b2]
    by (auto simp: lc_from_bytes_eq Let_def lc_to_bytes_def split: if_splits)
next
  assume "mc_from_bytes (b0, b1, b2) = Ok mc"
  then show "mc_to_bytes mc = (b0, b1, b2 AND 0x0F)"
    using size_field_decode(2) [of b1] nibbles_join [of b0]
    by (auto simp: mc_from_bytes_eq Let_def mc_to_bytes_def split: if_splits)
qed (rule lc_decode_encode mc_decode_encode lc_from_bytes_wf mc_from_bytes_wf; assumption)+

theorem control_area_in_address_space_witness:
  "\<exists>a. lc_byte_address \<lparr>lc_page_addr = 7, lc_byte_offset = 0, lc_size_in_bits = 8,
        lc_bytes_per_page = 2, lc_bytes_locked_per_bit = 3\<rparr> = (Ok a :: (unit, u32) res) \<and>
     unat a = 28"
proof -
  let ?lc = "\<lparr>lc_page_addr = 7, lc_byte_offset = 0, lc_size_in_bits = 8,
        lc_bytes_per_page = 2, lc_bytes_locked_per_bit = 3\<rparr>"
  have "lc_from_bytes (0x70, 0x08, 0x32) = Ok ?lc"
    by (simp add: lc_from_bytes_eq Let_def lc_wf_def page_address_def in_address_space_def geometry)
  from control_area_in_address_space [of "(0x70, 0x08, 0x32)" ?lc undefined,
      THEN conjunct1, rule_format, OF this]
  show ?thesis by auto
qed

theorem control_roundtrip_witness:
  "lc_to_bytes \<lparr>lc_page_addr = 7, lc_byte_offset = 0, lc_size_in_bits = 8,
        lc_bytes_per_page = 2, lc_bytes_locked_per_bit = 3\<rparr> = (0x70, 0x08, 0x32)"
proof -
  have "lc_from_bytes (0x70, 0x08, 0x32) =
      Ok \<lparr>lc_page_addr = 7, lc_byte_offset = 0, lc_size_in_bits = 8,
        lc_bytes_per_page = 2, lc_bytes_locked_per_bit = 3\<rparr>"
    by (simp add: lc_from_bytes_eq Let_def lc_wf_def page_address_def in_address_space_def geometry)
  with control_roundtrip show ?thesis by blast
qed

end
