(* ===== verification/Tlv_Spec.thy ===== *)
theory Tlv_Spec
  imports Control
begin

text \<open>
  A declarative grammar of the TLV area and the proof that \<open>parse_tlvs\<close> of
  \<open>src/src/type2/tlv.rs\<close> accepts exactly its sentences (as far as the fixed capacities of the build
  allow), and that the serializer writes blocks of the grammar.
\<close>

section \<open>The grammar\<close>

inductive len_field :: "u8 list \<Rightarrow> u16 \<Rightarrow> bool" where
  short: "b < 0xFF \<Longrightarrow> len_field [b] (ucast b)"
| long: "len_field [0xFF, hi, lo] (u16_from_be_bytes hi lo)"

text \<open>The bytes of one block and the TLV it stands for, \<open>None\<close> for a tag the standard reserves.\<close>

inductive tlv_block :: "u8 list \<Rightarrow> tlv option \<Rightarrow> bool" where
  null: "tlv_block [0x00] (Some Null)"
| terminator: "tlv_block [0xFE] (Some Terminator)"
| lock: "len_field l 3 \<Longrightarrow> lc_from_bytes (a, b, c) = Ok v \<Longrightarrow>
    tlv_block (0x01 # l @ [a, b, c]) (Some (LockControl v))"
| memory: "len_field l 3 \<Longrightarrow> mc_from_bytes (a, b, c) = Ok v \<Longrightarrow>
    tlv_block (0x02 # l @ [a, b, c]) (Some (MemoryControl v))"
| ndef: "len_field l n \<Longrightarrow> length v = unat n \<Longrightarrow> tlv_block (0x03 # l @ v) (Some (NdefMessage v))"
| proprietary: "len_field l n \<Longrightarrow> length v = unat n \<Longrightarrow>
    tlv_block (0xFD # l @ v) (Some (tlv.Proprietary v))"
| reserved: "t \<notin> {0x00, 0x01, 0x02, 0x03, 0xFD, 0xFE} \<Longrightarrow> len_field l n \<Longrightarrow> length v = unat n \<Longrightarrow>
    tlv_block (t # l @ v) None"

text \<open>A TLV area: blocks up to the Terminator, or to the end of the data.\<close>

inductive tlv_stream :: "u8 list \<Rightarrow> tlv list \<Rightarrow> bool" where
  empty: "tlv_stream [] []"
| stop: "tlv_stream (0xFE # rest) [Terminator]"
| block: "tlv_block b (Some t) \<Longrightarrow> t \<noteq> Terminator \<Longrightarrow> tlv_stream rest ts \<Longrightarrow>
    tlv_stream (b @ rest) (t # ts)"
| skip: "tlv_block b None \<Longrightarrow> tlv_stream rest ts \<Longrightarrow> tlv_stream (b @ rest) ts"

text \<open>Whether the value of a block fits the \<open>DataVec\<close> it is copied to.\<close>

fun value_fits :: "u8 vec_lib \<Rightarrow> tlv option \<Rightarrow> bool" where
  "value_fits bl (Some (NdefMessage v)) = vec_fits bl DATA_VEC_CAP (length v)"
| "value_fits bl (Some (tlv.Proprietary v)) = vec_fits bl DATA_VEC_CAP (length v)"
| "value_fits bl _ = True"

lemma value_fits_Alloc [simp]: "value_fits Alloc (Some t)"
  by (cases t) simp_all

section \<open>One block\<close>

lemma tlv_block_nonempty: "tlv_block b r \<Longrightarrow> b \<noteq> []"
  by (auto elim: tlv_block.cases)

lemma len_field_parse:
  assumes "len_field l n"
  shows "t2_parse_tlv_length (pre @ l @ rest) (length pre) = Ok (n, length l)"
  using assms
  by (cases rule: len_field.cases)
     (auto simp: t2_parse_tlv_length_def parse_tlv_length_def nth_append)

lemma parse_len_field:
  assumes "t2_parse_tlv_length data offset = Ok (n, k)"
  shows "\<exists>l rest. drop offset data = l @ rest \<and> len_field l n \<and> k = length l"
proof -
  from assms have parsed: "parse_tlv_length data offset = Ok (n, k)"
    by (simp add: t2_parse_tlv_length_def)
  then have "offset < length data"
    by (auto simp: parse_tlv_length_def split: if_splits)
  then have first: "drop offset data = data ! offset # drop (Suc offset) data"
    by (simp add: Cons_nth_drop_Suc)
  show ?thesis
  proof (cases "data ! offset < 0xFF")
    case True
    with parsed \<open>offset < length data\<close> first show ?thesis
      by (intro exI [of _ "[data ! offset]"] exI [of _ "drop (Suc offset) data"]) (auto simp: parse_tlv_length_def intro: len_field.short)
  next
    case False
    then have ff: "data ! offset = 0xFF"
      using word_le_nat_alt [of "0xFF" "data ! offset"] u8_unat_lt [of "data ! offset"]
      by (simp add: word_less_nat_alt word_unat_eq_iff del: u8_unat_lt)
    have three: "offset + 3 \<le> length data"
      using parsed False \<open>offset < length data\<close>
      by (auto simp: parse_tlv_length_def split: if_splits)
    then have "drop offset data =
        [0xFF, data ! (offset + 1), data ! (offset + 2)] @ drop (offset + 3) data"
      by (simp add: first ff Cons_nth_drop_Suc eval_nat_numeral)
    with parsed False three \<open>offset < length data\<close> show ?thesis
      by (intro exI [of _ "[0xFF, data ! (offset + 1), data ! (offset + 2)]"]
          exI [of _ "drop (offset + 3) data"])
         (auto simp: parse_tlv_length_def intro: len_field.long)
  qed
qed

lemma parse_control_block:
  assumes "len_field l 3"
  shows "parse_control_value (pre @ l @ a # b # c # rest) (length pre) =
    Ok ((a, b, c), length pre + length l + 3)"
  unfolding parse_control_value_def len_field_parse [OF assms]
  by (simp add: nth_append)

lemma parse_data_block:
  assumes "vec_lib_ok bl" and "len_field l n" and "length v = unat n"
    and "vec_fits bl DATA_VEC_CAP (length v)"
  shows "parse_data_value bl (pre @ l @ v @ rest) (length pre) =
    Ok (v, length pre + length l + length v)"
  unfolding parse_data_value_def len_field_parse [OF assms(2)]
  using assms by (simp add: fill_new_def op_map_err_def try_extend_eq)

lemma tlv_block_parse:
  assumes "tlv_block b r" and "vec_lib_ok bl" and "value_fits bl r"
  shows "parse_tlv_at bl (pre @ b @ rest) (length pre) = Ok (r, length pre + length b)"
  using assms(1)
proof (cases rule: tlv_block.cases)
  case (lock l a b' c v)
  then show ?thesis
    using parse_control_block [of l "pre @ [0x01]" a b' c rest]
    by (simp add: parse_tlv_at_def tlv_tags nth_append)
next
  case (memory l a b' c v)
  then show ?thesis
    using parse_control_block [of l "pre @ [0x02]" a b' c rest]
    by (simp add: parse_tlv_at_def tlv_tags nth_append)
next
  case (ndef l n v)
  then show ?thesis
    using parse_data_block [of bl l n v "pre @ [0x03]" rest] assms(2,3)
    by (simp add: parse_tlv_at_def tlv_tags nth_append)
next
  case (proprietary l n v)
  then show ?thesis
    using parse_data_block [of bl l n v "pre @ [0xFD]" rest] assms(2,3)
    by (simp add: parse_tlv_at_def tlv_tags nth_append)
next
  case (reserved t l n v)
  then show ?thesis
    using len_field_parse [of l n "pre @ [t]" "v @ rest"]
    by (simp add: parse_tlv_at_def tlv_tags nth_append Let_def)
qed (simp_all add: parse_tlv_at_def tlv_tags nth_append)

lemma control_block_parse:
  assumes "parse_control_value data offset = Ok (bs, offset')"
  shows "\<exists>l a b c rest. bs = (a, b, c) \<and> drop offset data = l @ [a, b, c] @ rest \<and>
    len_field l 3 \<and> offset' = offset + length l + 3"
proof -
  from assms obtain k where len: "t2_parse_tlv_length data offset = Ok (3, k)"
    and bound: "offset + k + 3 \<le> length data"
    and bs: "bs = (data ! (offset + k), data ! (offset + k + 1), data ! (offset + k + 2))"
    and offset': "offset' = offset + k + 3"
    by (auto simp: parse_control_value_def res_bind_Ok_iff Let_def split: if_splits)
  from parse_len_field [OF len] obtain l rest where l: "drop offset data = l @ rest"
    "len_field l 3" "k = length l" by blast
  have "rest = drop (offset + k) data"
    using l by (metis append_eq_conv_conj drop_drop add.commute)
  also have "\<dots> = [data ! (offset + k), data ! (offset + k + 1), data ! (offset + k + 2)]
      @ drop (offset + k + 3) data"
    using bound by (simp add: Cons_nth_drop_Suc eval_nat_numeral)
  finally show ?thesis using l bs offset' by auto
qed

lemma data_block_parse:
  assumes "vec_lib_ok bl" and "parse_data_value bl data offset = Ok (v, offset')"
  shows "\<exists>l n rest. drop offset data = l @ v @ rest \<and> len_field l n \<and> length v = unat n \<and>
    offset' = offset + length l + length v \<and> vec_fits bl DATA_VEC_CAP (length v)"
proof -
  from assms obtain n k where len: "t2_parse_tlv_length data offset = Ok (n, k)"
    and bound: "offset + k + unat n \<le> length data"
    and v: "v = take (unat n) (drop (offset + k) data)"
    and offset': "offset' = offset + k + unat n"
    and fits: "vec_fits bl DATA_VEC_CAP (unat n)"
    by (auto simp: parse_data_value_def res_bind_Ok_iff Let_def fill_new_def op_map_err_def
        try_extend_eq split: if_splits)
  from parse_len_field [OF len] obtain l rest where l: "drop offset data = l @ rest"
    "len_field l n" "k = length l" by blast
  have "rest = drop (offset + k) data"
    using l by (metis append_eq_conv_conj drop_drop add.commute)
  then have "v = take (unat n) rest"
    by (simp only: v)
  then have "rest = v @ drop (unat n) rest"
    by simp
  moreover have "length v = unat n"
    using bound by (simp add: v)
  ultimately show ?thesis using l offset' fits by metis
qed

lemma parse_tlv_block:
  assumes "vec_lib_ok bl" and "parse_tlv_at bl data offset = Ok (r, offset')"
  shows "\<exists>b rest. drop offset data = b @ rest \<and> tlv_block b r \<and> offset' = offset + length b \<and>
    value_fits bl r"
proof -
  have "offset < length data"
    using assms(2) by (auto simp: parse_tlv_at_def index_def split: if_splits)
  then obtain tag tail where tag: "index data offset = (Ok tag :: (type2_error, u8) res)"
    "drop offset data = tag # tail" "tail = drop (Suc offset) data"
    by (simp add: Cons_nth_drop_Suc)
  note body = assms(2) [unfolded parse_tlv_at_def tag(1) res_bind.simps Let_def tlv_tags]
  consider "tag = 0x00" | "tag = 0xFE" | "tag = 0x01" | "tag = 0x02" | "tag = 0x03" | "tag = 0xFD"
    | "tag \<notin> {0x00, 0x01, 0x02, 0x03, 0xFD, 0xFE}" by blast
  then show ?thesis
  proof cases
    case 1
    with body tag show ?thesis
      by (intro exI [of _ "[tag]"] exI [of _ tail]) (auto intro: tlv_block.intros)
  next
    case 2
    with body tag show ?thesis
      by (intro exI [of _ "[tag]"] exI [of _ tail]) (auto intro: tlv_block.intros)
  next
    case 3
    with body obtain bs v where "parse_control_value data (Suc offset) = Ok (bs, offset')"
      "lc_from_bytes bs = Ok v" "r = Some (LockControl v)"
      by (auto simp: res_bind_Ok_iff)
    moreover from control_block_parse [OF this(1)] obtain l a b c rest
      where "bs = (a, b, c)" "tail = l @ [a, b, c] @ rest" "len_field l 3"
        "offset' = Suc offset + length l + 3"
      by (auto simp: tag)
    ultimately show ?thesis
      using 3 tag by (intro exI [of _ "tag # l @ [a, b, c]"] exI [of _ rest])
        (simp add: tlv_block.lock)
  next
    case 4
    with body obtain bs v where "parse_control_value data (Suc offset) = Ok (bs, offset')"
      "mc_from_bytes bs = Ok v" "r = Some (MemoryControl v)"
      by (auto simp: res_bind_Ok_iff)
    moreover from control_block_parse [OF this(1)] obtain l a b c rest
      where "bs = (a, b, c)" "tail = l @ [a, b, c] @ rest" "len_field l 3"
        "offset' = Suc offset + length l + 3"
      by (auto simp: tag)
    ultimately show ?thesis
      using 4 tag by (intro exI [of _ "tag # l @ [a, b, c]"] exI [of _ rest])
        (simp add: tlv_block.memory)
  next
    case 5
    with body obtain v where "parse_data_value bl data (Suc offset) = Ok (v, offset')"
      "r = Some (NdefMessage v)"
      by (auto simp: res_bind_Ok_iff)
    moreover from data_block_parse [OF assms(1) this(1)] obtain l n rest
      where "tail = l @ v @ rest" "len_field l n" "length v = unat n"
        "offset' = Suc offset + length l + length v" "vec_fits bl DATA_VEC_CAP (length v)"
      by (auto simp: tag)
    ultimately show ?thesis
      using 5 tag by (intro exI [of _ "tag # l @ v"] exI [of _ rest])
        (simp add: tlv_block.ndef [of l n])
  next
    case 6
    with body obtain v where "parse_data_value bl data (Suc offset) = Ok (v, offset')"
      "r = Some (tlv.Proprietary v)"
      by (auto simp: res_bind_Ok_iff)
    moreover from data_block_parse [OF assms(1) this(1)] obtain l n rest
      where "tail = l @ v @ rest" "len_field l n" "length v = unat n"
        "offset' = Suc offset + length l + length v" "vec_fits bl DATA_VEC_CAP (length v)"
      by (auto simp: tag)
    ultimately show ?thesis
      using 6 tag by (intro exI [of _ "tag # l @ v"] exI [of _ rest])
        (simp add: tlv_block.proprietary [of l n])
  next
    case 7
    with body obtain n k where len: "t2_parse_tlv_length data (Suc offset) = Ok (n, k)"
      and bound: "Suc offset + k + unat n \<le> length data"
      and res: "r = None" "offset' = Suc offset + k + unat n"
      by (auto simp: res_bind_Ok_iff split: if_splits)
    from parse_len_field [OF len] obtain l rest where l: "tail = l @ rest" "len_field l n" "k = length l"
      using tag by auto
    have "length rest = length data - (Suc offset + k)"
      using l tag(3) by (metis add_diff_cancel_left' diff_diff_left length_append length_drop)
    then have "length (take (unat n) rest) = unat n"
      using bound by simp
    moreover have "drop offset data = (tag # l @ take (unat n) rest) @ drop (unat n) rest"
      using tag l by simp
    ultimately show ?thesis
      using tlv_block.reserved [OF 7 l(2), of "take (unat n) rest"] res l
      by (intro exI [of _ "tag # l @ take (unat n) rest"] exI [of _ "drop (unat n) rest"]) simp
  qed
qed

lemma tlv_block_unique:
  assumes "tlv_block b r" "tlv_block b' r'" "b @ rest = b' @ rest'"
  shows "b = b' \<and> r = r' \<and> rest = rest'"
proof -
  have "value_fits Alloc x" for x
    by (cases "(Alloc :: u8 vec_lib, x)" rule: value_fits.cases) auto
  then have "parse_tlv_at Alloc (b @ rest) 0 = Ok (r, length b)"
    and "parse_tlv_at Alloc (b' @ rest') 0 = Ok (r', length b')"
    using tlv_block_parse [OF assms(1), of Alloc "[]" rest]
      tlv_block_parse [OF assms(2), of Alloc "[]" rest'] by simp_all
  with assms(3) show ?thesis by (simp add: append_eq_append_conv)
qed

section \<open>The parser\<close>

lemma push_tlv_eq:
  "vec_lib_ok tvl \<Longrightarrow> push_tlv tvl t out =
     (if vec_fits tvl TLV_VEC_CAP (Suc (length out)) then (Ok (), out @ [t])
      else (Err type2_error.BufferFull, out))"
  by (simp add: push_tlv_def op_map_err_def try_push_eq)

lemma terminator_block: "tlv_block b (Some Terminator) \<Longrightarrow> b = [0xFE]"
  by (auto elim: tlv_block.cases)

lemma parse_into_sound:
  "vec_lib_ok bl \<Longrightarrow> vec_lib_ok tvl \<Longrightarrow>
   parse_tlvs_into bl tvl data offset out = (Ok (), out') \<Longrightarrow>
    \<exists>ts. out' = out @ ts \<and> tlv_stream (drop offset data) ts \<and>
      (\<forall>t \<in> set ts. value_fits bl (Some t)) \<and> (ts = [] \<or> vec_fits tvl TLV_VEC_CAP (length out'))"
proof (induction bl tvl data offset out rule: parse_tlvs_into.induct)
  case (1 bl tvl data offset out)
  note libs = "1.prems"(1,2)
  note ok = "1.prems"(3) [unfolded parse_tlvs_into.simps [of bl tvl data offset out]]
  show ?case
  proof (cases "offset < length data")
    case False
    with ok show ?thesis by (simp add: tlv_stream.empty)
  next
    case True
    with ok have "\<exists>x. parse_tlv_at bl data offset = Ok x"
      by (cases "parse_tlv_at bl data offset") simp_all
    then obtain r offset' where at: "parse_tlv_at bl data offset = Ok (r, offset')"
      by auto
    from parse_tlv_block [OF libs(1) at] obtain b where
      b: "drop offset data = b @ drop offset' data" "tlv_block b r" "value_fits bl r"
      by (metis append_eq_conv_conj drop_drop add.commute)
    show ?thesis
    proof (cases r)
      case None
      with ok True at have "parse_tlvs_into bl tvl data offset' out = (Ok (), out')" by simp
      from "1.IH"(1) [OF True at refl None libs this] b None show ?thesis
        by (metis tlv_stream.skip)
    next
      case (Some t)
      with ok True at have fits: "vec_fits tvl TLV_VEC_CAP (Suc (length out))"
        by (auto simp: push_tlv_eq libs split: if_splits)
      show ?thesis
      proof (cases "t = Terminator")
        case True
        with ok \<open>offset < length data\<close> at Some fits b show ?thesis
          by (auto simp: push_tlv_eq libs dest!: terminator_block intro: tlv_stream.stop)
      next
        case False
        with ok True at Some fits
        have "parse_tlvs_into bl tvl data offset' (out @ [t]) = (Ok (), out')"
          by (simp add: push_tlv_eq libs)
        moreover have "(Ok (), out @ [t]) = push_tlv tvl t out"
          using fits by (simp add: push_tlv_eq libs)
        ultimately
        obtain ts where "out' = (out @ [t]) @ ts" "tlv_stream (drop offset' data) ts"
          "\<forall>t \<in> set ts. value_fits bl (Some t)" "ts = [] \<or> vec_fits tvl TLV_VEC_CAP (length out')"
          using "1.IH"(2) [OF True at refl Some _ refl False libs] by metis
        with b Some False fits show ?thesis
          by (intro exI [of _ "t # ts"]) (auto simp: tlv_stream.block)
      qed
    qed
  qed
qed

lemma parse_into_complete:
  assumes "vec_lib_ok bl" and "vec_lib_ok tvl"
  shows "tlv_stream s ts \<Longrightarrow> s = drop offset data \<Longrightarrow> offset \<le> length data \<Longrightarrow>
    \<forall>t \<in> set ts. value_fits bl (Some t) \<Longrightarrow> vec_fits tvl TLV_VEC_CAP (length out + length ts) \<Longrightarrow>
    parse_tlvs_into bl tvl data offset out = (Ok (), out @ ts)"
proof (induction arbitrary: offset out rule: tlv_stream.induct)
  case empty
  then show ?case by (simp add: parse_tlvs_into.simps [of bl tvl data offset])
next
  case (stop rest)
  then have "data = take offset data @ [0xFE] @ rest" "length (take offset data) = offset"
    by (metis append_Cons append_Nil append_take_drop_id, use stop.prems(2) in simp)
  with tlv_block_parse [OF tlv_block.terminator assms(1), of "take offset data" rest]
  have "parse_tlv_at bl data offset = Ok (Some Terminator, Suc offset)" by simp
  moreover have "offset < length data" using stop by (metis drop_all list.distinct(1) not_le)
  ultimately show ?case
    using stop assms by (simp add: parse_tlvs_into.simps [of bl tvl data offset] push_tlv_eq)
next
  case (block b t rest ts)
  then have data: "data = take offset data @ b @ rest" "length (take offset data) = offset"
    by (metis append_take_drop_id, use block.prems(2) in simp)
  with tlv_block_parse [OF block(1) assms(1), of "take offset data" rest] block
  have at: "parse_tlv_at bl data offset = Ok (Some t, offset + length b)" by simp
  have lt: "offset < length data" using tlv_block_nonempty [OF block(1)] block.prems
    by (metis append_is_Nil_conv drop_all not_le)
  have "rest = drop (offset + length b) data"
    using block.prems(1) by (metis append_eq_conv_conj drop_drop add.commute)
  moreover have "offset + length b \<le> length data"
    using parse_tlv_at_progress [OF at] by simp
  ultimately have "parse_tlvs_into bl tvl data (offset + length b) (out @ [t]) =
      (Ok (), (out @ [t]) @ ts)"
    using block by (intro block.IH) auto
  moreover have "vec_fits tvl TLV_VEC_CAP (Suc (length out))"
    using block.prems(4) by (rule vec_fits_mono [OF assms(2)]) simp
  ultimately show ?case
    using at lt block(2) assms
    by (simp add: parse_tlvs_into.simps [of bl tvl data offset] push_tlv_eq)
next
  case (skip b rest ts)
  then have data: "data = take offset data @ b @ rest" "length (take offset data) = offset"
    by (metis append_take_drop_id, use skip.prems(2) in simp)
  with tlv_block_parse [OF skip(1) assms(1), of "take offset data" rest]
  have at: "parse_tlv_at bl data offset = Ok (None, offset + length b)" by simp
  have lt: "offset < length data" using tlv_block_nonempty [OF skip(1)] skip.prems
    by (metis append_is_Nil_conv drop_all not_le)
  have "rest = drop (offset + length b) data"
    using skip.prems(1) by (metis append_eq_conv_conj drop_drop add.commute)
  moreover have "offset + length b \<le> length data"
    using parse_tlv_at_progress [OF at] by simp
  ultimately have "parse_tlvs_into bl tvl data (offset + length b) out = (Ok (), out @ ts)"
    using skip by (intro skip.IH) auto
  then show ?case
    using at lt by (simp add: parse_tlvs_into.simps [of bl tvl data offset])
qed

lemma parse_tlvs_iff:
  assumes "vec_lib_ok bl" and "vec_lib_ok tvl"
  shows "parse_tlvs bl tvl data = Ok ts \<longleftrightarrow>
    tlv_stream data ts \<and> (\<forall>t \<in> set ts. value_fits bl (Some t)) \<and>
    vec_fits tvl TLV_VEC_CAP (length ts)"
proof
  assume "parse_tlvs bl tvl data = Ok ts"
  then have "parse_tlvs_into bl tvl data 0 [] = (Ok (), ts)"
    by (auto simp: parse_tlvs_def fill_new_def split: prod.splits res.splits)
  from parse_into_sound [OF assms this]
  show "tlv_stream data ts \<and> (\<forall>t \<in> set ts. value_fits bl (Some t)) \<and>
      vec_fits tvl TLV_VEC_CAP (length ts)"
    by (cases tvl) auto
next
  assume "tlv_stream data ts \<and> (\<forall>t \<in> set ts. value_fits bl (Some t)) \<and>
      vec_fits tvl TLV_VEC_CAP (length ts)"
  then have "parse_tlvs_into bl tvl data 0 [] = (Ok (), [] @ ts)"
    by (intro parse_into_complete [OF assms]) auto
  then show "parse_tlvs bl tvl data = Ok ts"
    by (simp add: parse_tlvs_def fill_new_def)
qed

section \<open>The serializer\<close>

fun tlv_bytes :: "tlv \<Rightarrow> u8 list" where
  "tlv_bytes Null = [0x00]"
| "tlv_bytes Terminator = [0xFE]"
| "tlv_bytes (LockControl v) = 0x01 # 0x03 # bytes3_list (lc_to_bytes v)"
| "tlv_bytes (MemoryControl v) = 0x02 # 0x03 # bytes3_list (mc_to_bytes v)"
| "tlv_bytes (NdefMessage data) = 0x03 # length_field (of_nat (length data)) @ data"
| "tlv_bytes (tlv.Proprietary data) = 0xFD # length_field (of_nat (length data)) @ data"

fun tlv_wf :: "tlv \<Rightarrow> bool" where
  "tlv_wf (LockControl v) = lc_wf v"
| "tlv_wf (MemoryControl v) = mc_wf v"
| "tlv_wf (NdefMessage data) = (length data \<le> 0xFFFE)"
| "tlv_wf (tlv.Proprietary data) = (length data \<le> 0xFFFE)"
| "tlv_wf _ = True"

lemma put_byte_Ok_iff:
  "vec_lib_ok bl \<Longrightarrow> put_byte bl b v = (Ok (), w) \<longleftrightarrow>
     vec_fits bl DATA_VEC_CAP (Suc (length v)) \<and> w = v @ [b]"
  by (auto simp: op_map_err_def try_push_eq)

lemma put_bytes_Ok_iff:
  "vec_lib_ok bl \<Longrightarrow> put_bytes bl bs v = (Ok (), w) \<longleftrightarrow>
     vec_fits bl DATA_VEC_CAP (length v + length bs) \<and> w = v @ bs"
  by (auto simp: op_map_err_def try_extend_eq)

lemma encode_Ok_iff:
  assumes "vec_lib_ok bl"
  shows "t2_encode_tlv_length bl len v = (Ok (), w) \<longleftrightarrow> len \<le> MAX_TLV_LENGTH \<and>
     vec_fits bl DATA_VEC_CAP (length v + length (length_field len)) \<and> w = v @ length_field len"
    (is "?lhs \<longleftrightarrow> ?rhs")
proof
  assume ?lhs
  then show ?rhs
    by (auto simp: t2_encode_tlv_length_def encode_tlv_length_def op_defs try_push_eq [OF assms]
        try_extend_eq [OF assms] length_field_def u16_to_be_bytes_def not_less
        split: if_splits)
next
  assume ?rhs
  then show ?lhs
    by (simp add: t2_encode_tlv_length_def op_map_err_def encode_tlv_length_eq [OF assms])
qed

lemma checked_value_length_eq:
  "checked_value_length n = (if n \<le> 0xFFFE then Ok (of_nat n) else Err OutOfRange)"
  by (auto simp: checked_value_length_def MAX_TLV_LENGTH_def word_le_nat_alt unat_of_nat)

lemma tlv_to_bytes_Ok_iff:
  assumes "vec_lib_ok bl"
  shows "tlv_to_bytes bl t = Ok bs \<longleftrightarrow> bs = tlv_bytes t \<and> vec_fits bl DATA_VEC_CAP (length bs) \<and>
     (case t of NdefMessage d \<Rightarrow> length d \<le> 0xFFFE | tlv.Proprietary d \<Rightarrow> length d \<le> 0xFFFE
      | _ \<Rightarrow> True)"
proof -
  have run: "tlv_to_bytes bl t = Ok bs \<longleftrightarrow> tlv_write bl t [] = (Ok (), bs)"
    by (auto simp: tlv_to_bytes_def fill_new_def split: prod.splits res.splits)
  have mono: "vec_fits bl DATA_VEC_CAP n \<Longrightarrow> m \<le> n \<Longrightarrow> vec_fits bl DATA_VEC_CAP m" for n m
    using vec_fits_mono [OF assms] by blast
  have max: "n \<le> 0xFFFE \<Longrightarrow> (of_nat n :: u16) \<le> MAX_TLV_LENGTH" for n
    by (simp add: MAX_TLV_LENGTH_def word_le_nat_alt unat_of_nat)
  have b3: "length (bytes3_list x) = 3" for x by (cases x) simp
  show ?thesis
    unfolding run
    by (cases t)
      (auto simp: op_bind_Ok_iff op_lift_def put_byte_Ok_iff [OF assms] put_bytes_Ok_iff [OF assms]
        encode_Ok_iff [OF assms] checked_value_length_eq tlv_tags b3 max
        simp del: length_length_field intro: mono split: if_splits)
qed

lemma length_field_len_field: "len_field (length_field n) n"
proof (cases "n < 0xFF")
  case True
  then show ?thesis
    using len_field.short [of "ucast n"]
    by (simp add: length_field_def ucast_u8_less_255 ucast_u8_u16_id)
next
  case False
  then show ?thesis
    using len_field.long [of "ucast (drop_bit 8 n)" "ucast n"]
    by (simp add: length_field_def u16_to_be_bytes_def)
qed

lemma len_field_3: "len_field [3] 3"
  using len_field.short [of 3] by simp

lemma tlv_bytes_block: "tlv_wf t \<Longrightarrow> tlv_block (tlv_bytes t) (Some t)"
proof (cases t)
  case (LockControl v)
  obtain a b c where bytes: "lc_to_bytes v = (a, b, c)" by (cases "lc_to_bytes v")
  moreover assume "tlv_wf t"
  then have "lc_from_bytes (a, b, c) = Ok v"
    using LockControl by (simp add: lc_decode_encode flip: bytes)
  ultimately show ?thesis
    using LockControl tlv_block.lock [OF len_field_3, of a b c v] by simp
next
  case (MemoryControl v)
  obtain a b c where bytes: "mc_to_bytes v = (a, b, c)" by (cases "mc_to_bytes v")
  moreover assume "tlv_wf t"
  then have "mc_from_bytes (a, b, c) = Ok v"
    using MemoryControl by (simp add: mc_decode_encode flip: bytes)
  ultimately show ?thesis
    using MemoryControl tlv_block.memory [OF len_field_3, of a b c v] by simp
next
  case (NdefMessage d)
  assume "tlv_wf t"
  with NdefMessage show ?thesis
    using tlv_block.ndef [OF length_field_len_field, of d "of_nat (length d)"]
    by (simp add: unat_of_nat)
next
  case (Proprietary d)
  assume "tlv_wf t"
  with Proprietary show ?thesis
    using tlv_block.proprietary [OF length_field_len_field, of d "of_nat (length d)"]
    by (simp add: unat_of_nat)
qed (auto intro: tlv_block.intros)

lemma serialized_value_fits:
  "vec_lib_ok bl \<Longrightarrow> tlv_to_bytes bl t = Ok bs \<Longrightarrow> value_fits bl (Some t)"
  by (cases t) (auto simp: tlv_to_bytes_Ok_iff simp del: length_length_field
      intro: vec_fits_mono)

lemma tlv_stream_serialized:
  assumes "\<forall>t \<in> set ts. tlv_wf t \<and> t \<noteq> Terminator" and "tlv_stream rest us"
  shows "tlv_stream (concat (map tlv_bytes ts) @ rest) (ts @ us)"
  using assms by (induction ts) (auto intro: tlv_stream.block tlv_bytes_block)

section \<open>The values of blocks\<close>

fun block_value :: "tlv \<Rightarrow> u8 list" where
  "block_value (NdefMessage v) = v"
| "block_value (tlv.Proprietary v) = v"
| "block_value _ = []"

lemma tlv_block_value:
  "tlv_block b (Some t) \<Longrightarrow> length (block_value t) < length b \<and> length (block_value t) \<le> 0xFFFF"
proof (induction b "Some t" rule: tlv_block.induct)
  case (ndef l n v)
  then show ?case using u16_unat_lt [of n] by (auto simp del: u16_unat_lt)
next
  case (proprietary l n v)
  then show ?case using u16_unat_lt [of n] by (auto simp del: u16_unat_lt)
qed auto

lemma tlv_stream_values:
  "tlv_stream data ts \<Longrightarrow> sum_list (map (\<lambda>t. length (block_value t)) ts) \<le> length data \<and>
    Terminator \<notin> set (butlast ts) \<and> (\<forall>t \<in> set ts. length (block_value t) \<le> 0xFFFF)"
  by (induction rule: tlv_stream.induct) (auto dest!: tlv_block_value)

section \<open>No panics\<close>

lemma t2_parse_tlv_length_no_Panic [simp]: "t2_parse_tlv_length data offset \<noteq> Panic"
  by (simp add: t2_parse_tlv_length_def parse_tlv_length_no_Panic)

lemma try_push_no_Panic: "fst (try_push l N x v) \<noteq> Panic"
  by (cases l) (auto split: prod.splits)

lemma try_extend_no_Panic: "fst (try_extend l N xs v) \<noteq> Panic"
  by (cases l) (auto split: prod.splits)

lemma fill_new_Panic_iff: "fill_new m = Panic \<longleftrightarrow> fst (m []) = Panic"
  by (auto simp: fill_new_def split: prod.splits res.splits)

lemma put_bytes_no_Panic: "fill_new (put_bytes bl bs) \<noteq> Panic"
  using try_extend_no_Panic [of bl DATA_VEC_CAP bs "[]"]
  by (auto simp: fill_new_Panic_iff op_map_err_def split: prod.splits)

lemma parse_control_value_no_Panic: "parse_control_value data offset \<noteq> Panic"
  by (auto simp: parse_control_value_def res_bind_Panic_iff Let_def split: if_splits)

lemma parse_data_value_no_Panic: "parse_data_value bl data offset \<noteq> Panic"
  by (auto simp: parse_data_value_def res_bind_Panic_iff Let_def put_bytes_no_Panic split: if_splits)

lemma parse_tlv_at_no_Panic: "offset < length data \<Longrightarrow> parse_tlv_at bl data offset \<noteq> Panic"
  by (auto simp: parse_tlv_at_def res_bind_Panic_iff Let_def lc_from_bytes_no_Panic
      mc_from_bytes_no_Panic parse_control_value_no_Panic parse_data_value_no_Panic
      split: if_splits)

lemma parse_into_no_Panic: "fst (parse_tlvs_into bl tvl data offset out) \<noteq> Panic"
proof (induction bl tvl data offset out rule: parse_tlvs_into.induct)
  case (1 bl tvl data offset out)
  have "fst (push_tlv tvl t out) \<noteq> Panic" for t
    by (auto simp: push_tlv_def op_map_err_def split: prod.splits)
       (metis fst_conv try_push_no_Panic)
  then have "push_tlv tvl t out \<noteq> (Panic, out')" for t out' by (metis fst_conv)
  with 1 show ?case
    using parse_tlv_at_no_Panic [of offset data bl]
    by (subst parse_tlvs_into.simps) (auto split: res.splits prod.splits option.splits)
qed

section \<open>Buffers of a fixed size\<close>

text \<open>The only effect of a buffer's capacity is the error \<open>BufferFull\<close>.\<close>

lemma parse_data_value_alike:
  assumes "vec_lib_ok bl"
  shows "parse_data_value bl data offset = parse_data_value Alloc data offset \<or>
    parse_data_value bl data offset = Err type2_error.BufferFull"
  unfolding parse_data_value_def
  by (cases "t2_parse_tlv_length data offset")
    (auto simp: Let_def fill_new_def op_map_err_def try_extend_eq [OF assms] slice_def split: if_splits)

lemma parse_tlv_at_alike:
  assumes "vec_lib_ok bl"
  shows "parse_tlv_at bl data offset = parse_tlv_at Alloc data offset \<or>
    parse_tlv_at bl data offset = Err type2_error.BufferFull"
proof (cases "index data offset :: (type2_error, u8) res")
  case (Ok tag)
  then show ?thesis
    using parse_data_value_alike [OF assms, of data "offset + 1"]
    by (auto simp: parse_tlv_at_def Let_def)
qed (simp_all add: parse_tlv_at_def)

lemma push_tlv_alike:
  assumes "vec_lib_ok tvl"
  shows "push_tlv tvl t out = (Ok (), out @ [t]) \<or> push_tlv tvl t out = (Err type2_error.BufferFull, out)"
  by (auto simp: push_tlv_def op_map_err_def try_push_eq [OF assms])

lemma parse_tlvs_into_alike:
  assumes "vec_lib_ok bl" and "vec_lib_ok tvl"
  shows "parse_tlvs_into bl tvl data offset out = parse_tlvs_into Alloc Alloc data offset out \<or>
    fst (parse_tlvs_into bl tvl data offset out) = Err type2_error.BufferFull"
  using assms
proof (induction bl tvl data offset out rule: parse_tlvs_into.induct)
  case (1 bl tvl data offset out)
  note at = parse_tlv_at_alike [OF 1(3), of data offset]
  show ?case
  proof (cases "offset < length data \<and> parse_tlv_at bl data offset \<noteq> Err type2_error.BufferFull")
    case True
    then have eq: "parse_tlv_at Alloc data offset = parse_tlv_at bl data offset"
      using at by simp
    note step = parse_tlvs_into.simps [of _ _ data offset out] and IH = 1(1,2)
    show ?thesis
    proof (cases "parse_tlv_at bl data offset")
      case (Ok r)
      obtain u offset' where r: "r = (u, offset')" by fastforce
      show ?thesis
      proof (cases u)
        case None
        with True Ok r IH(1) 1(3,4) show ?thesis by (simp add: step eq)
      next
        case (Some t)
        have push: "push_tlv Alloc t out = (Ok (), out @ [t])"
          by (simp add: push_tlv_def op_map_err_def)
        from push_tlv_alike [OF 1(4), of t out] show ?thesis
        proof
          assume "push_tlv tvl t out = (Ok (), out @ [t])"
          with True Ok r Some push IH(2) 1(3,4) show ?thesis by (simp add: step eq)
        next
          assume "push_tlv tvl t out = (Err type2_error.BufferFull, out)"
          with True Ok r Some show ?thesis by (simp add: step)
        qed
      qed
    qed (use True in \<open>simp_all add: step eq\<close>)
  next
    case False
    then show ?thesis
      by (auto simp: parse_tlvs_into.simps [of _ _ data offset out])
  qed
qed

lemma parse_tlvs_alike:
  assumes "vec_lib_ok bl" and "vec_lib_ok tvl"
  shows "parse_tlvs bl tvl data = parse_tlvs Alloc Alloc data \<or>
    parse_tlvs bl tvl data = Err type2_error.BufferFull"
  using parse_tlvs_into_alike [OF assms, of data 0 "[]"]
  by (auto simp: parse_tlvs_def fill_new_def split: prod.splits res.splits)

section \<open>Properties\<close>

text \<open>
  C16. The two vector libraries differ in capacity only: on every input the parser with any library
  either gives exactly what it gives with growable vectors, blocks and errors alike, or \<open>BufferFull\<close>.
\<close>

theorem parse_tlvs_builds_alike:
  assumes "vec_lib_ok bl" and "vec_lib_ok tvl"
  shows "parse_tlvs bl tvl data = parse_tlvs Alloc Alloc data \<or>
    parse_tlvs bl tvl data = Err type2_error.BufferFull"
  by (rule parse_tlvs_alike [OF assms])

theorem parse_tlvs_builds_alike_witness:
  "parse_tlvs Alloc Alloc (replicate 9 0) = Ok (replicate 9 Null) \<and>
   parse_tlvs heapless_lib heapless_lib (replicate 9 0) = Err type2_error.BufferFull"
proof -
  have stream: "tlv_stream (replicate n 0) (replicate n Null)" for n
  proof (induction n)
    case (Suc n)
    from tlv_stream.block [OF tlv_block.null _ this] show ?case by simp
  qed (simp add: tlv_stream.empty)
  have "parse_tlvs Alloc Alloc (replicate 9 0) = Ok (replicate 9 Null)"
    using stream [of 9] by (subst parse_tlvs_iff) simp_all
  moreover have "parse_tlvs heapless_lib heapless_lib (replicate 9 0) \<noteq> Ok (replicate 9 Null)"
    by (subst parse_tlvs_iff) (simp_all add: TLV_VEC_CAP_def)
  ultimately show ?thesis
    using parse_tlvs_builds_alike [of heapless_lib heapless_lib "replicate 9 0"] by simp
qed

text \<open>
  C15. The parser accepts exactly the sentences of the TLV grammar whose values and number of
  blocks fit the buffers of the build, and returns their blocks: it is sound and complete for the
  declarative grammar. On every other input, of whatever content and length, it returns an error and
  does not panic.
\<close>

theorem parse_tlvs_refines_grammar:
  assumes "vec_lib_ok bl" and "vec_lib_ok tvl"
  shows "(parse_tlvs bl tvl data = Ok ts \<longleftrightarrow>
      tlv_stream data ts \<and> (\<forall>t \<in> set ts. value_fits bl (Some t)) \<and>
      vec_fits tvl TLV_VEC_CAP (length ts)) \<and>
    parse_tlvs bl tvl data \<noteq> Panic"
  using parse_tlvs_iff [OF assms] by (simp add: parse_tlvs_def fill_new_Panic_iff parse_into_no_Panic)

theorem parse_tlvs_refines_grammar_witness:
  "parse_tlvs heapless_lib heapless_lib [0x03, 0x01, 0xD0, 0xFE, 0x55] =
     Ok [NdefMessage [0xD0], Terminator]"
proof -
  have "tlv_stream ([0x03, 0x01, 0xD0] @ [0xFE, 0x55]) [NdefMessage [0xD0], Terminator]"
    using tlv_block.ndef [OF len_field.short [of 1], of "[0xD0]"]
    by (intro tlv_stream.block tlv_stream.stop) simp_all
  then show ?thesis
    by (subst parse_tlvs_refines_grammar [THEN conjunct1]) (simp_all add: DATA_VEC_CAP_def TLV_VEC_CAP_def)
qed

text \<open>
  C17. A sequence of well-formed blocks, each serialized by \<open>to_bytes\<close>, closed by a Terminator and
  followed by arbitrary bytes, parses to those blocks and the Terminator.
\<close>

theorem tlv_blocks_roundtrip:
  assumes "vec_lib_ok bl" and "vec_lib_ok tvl"
    and "list_all2 (\<lambda>t bs. tlv_to_bytes bl t = Ok bs) ts bss"
    and "\<forall>t \<in> set ts. tlv_wf t \<and> t \<noteq> Terminator"
    and "vec_fits tvl TLV_VEC_CAP (Suc (length ts))"
  shows "parse_tlvs bl tvl (concat bss @ TLV_TERMINATOR # junk) = Ok (ts @ [Terminator])"
proof -
  have "bss = map tlv_bytes ts"
    using assms(3) by (induction rule: list_all2_induct) (simp_all add: tlv_to_bytes_Ok_iff assms(1))
  moreover have "\<forall>t \<in> set ts. value_fits bl (Some t)"
    using assms(3) by (induction rule: list_all2_induct)
      (auto dest: serialized_value_fits [OF assms(1)])
  moreover have "tlv_stream (concat (map tlv_bytes ts) @ 0xFE # junk) (ts @ [Terminator])"
    using assms(4) by (rule tlv_stream_serialized) (rule tlv_stream.stop)
  ultimately show ?thesis
    using assms by (simp add: parse_tlvs_iff tlv_tags)
qed

theorem tlv_blocks_roundtrip_witness:
  "parse_tlvs heapless_lib heapless_lib
     ([0x00, 0xFD, 0x02, 0xAA, 0xBB, 0x03, 0x00] @ TLV_TERMINATOR # [0x77]) =
   Ok ([Null, tlv.Proprietary [0xAA, 0xBB], NdefMessage []] @ [Terminator])"
proof -
  have "list_all2 (\<lambda>t bs. tlv_to_bytes heapless_lib t = Ok bs)
      [Null, tlv.Proprietary [0xAA, 0xBB], NdefMessage []]
      [[0x00], [0xFD, 0x02, 0xAA, 0xBB], [0x03, 0x00]]"
    by (simp add: tlv_to_bytes_Ok_iff length_field_def DATA_VEC_CAP_def)
  then show ?thesis
    using tlv_blocks_roundtrip [of heapless_lib heapless_lib
        "[Null, tlv.Proprietary [0xAA, 0xBB], NdefMessage []]"
        "[[0x00], [0xFD, 0x02, 0xAA, 0xBB], [0x03, 0x00]]" "[0x77]"]
    by (simp add: TLV_VEC_CAP_def)
qed

end
