(* ===== verification/Layout.thy ===== *)
theory Layout
  imports Memory Tlv_Spec
begin

text \<open>
  Properties of \<open>src/src/type2/memory.rs\<close>: the address conversions are inverse to each other, the
  layout built from parsed TLVs covers every lock and reserved byte they announce, and the walk of
  \<open>usable_offset_to_address\<close> finds the \<open>n\<close>-th usable address of the data area.
\<close>

section \<open>Addresses\<close>

lemma unat_of_nat_u32: "n < 4294967296 \<Longrightarrow> unat (of_nat n :: u32) = n"
  by (simp add: unat_of_nat)

lemma address_to_sector_block_eq:
  "address_to_sector_block a =
     (if unat a < 261120
      then Some (of_nat (unat a div 1024), of_nat (unat a mod 1024 div 4), of_nat (unat a mod 4))
      else None)"
proof -
  have lt: "(unat a div 1024 \<le> 254) = (unat a < 261120)"
    using div_less_iff_less_mult [of 1024 "unat a" 255] by linarith
  have gt: "(a div 1024 > 254) = (\<not> unat a < 261120)"
    by (simp add: word_less_nat_alt unat_div not_le flip: lt)
  have m4: "unat a mod 1024 mod 4 = unat a mod 4"
    by (simp add: mod_mod_cancel)
  have blk: "unat a mod 1024 div 4 < 256"
    by (rule less_mult_imp_div_less) simp
  have sec: "unat a div 1024 < 256" if "unat a < 261120"
    using that lt by simp
  have casts: "ucast (a mod 1024 div 4) = (of_nat (unat a mod 1024 div 4) :: u8)"
    "ucast (a mod 1024 mod 4) = (of_nat (unat a mod 4) :: u8)"
    "ucast (a div 1024) = (of_nat (unat a div 1024) :: u8)"
    by (simp_all add: word_unat_eq_iff unat_ucast_down unat_of_nat unat_div unat_mod m4)
  show ?thesis
    by (simp add: address_to_sector_block_def geometry Let_def gt casts)
qed

lemma address_to_sector_blockD:
  assumes "address_to_sector_block a = Some (s, b, offs)"
  shows "unat a < 261120" and "unat s = unat a div 1024" and "unat b = unat a mod 1024 div 4"
    and "unat offs = unat a mod 4" and "unat a = 1024 * unat s + 4 * unat b + unat offs"
proof -
  show lt: "unat a < 261120"
    using assms by (auto simp: address_to_sector_block_eq split: if_splits)
  have "unat a div 1024 < 256"
    using lt by (intro less_mult_imp_div_less) simp
  with lt assms show s: "unat s = unat a div 1024"
    by (auto simp: address_to_sector_block_eq unat_of_nat)
  have "unat a mod 1024 div 4 < 256"
    by (rule less_mult_imp_div_less) simp
  with lt assms show b: "unat b = unat a mod 1024 div 4"
    by (auto simp: address_to_sector_block_eq unat_of_nat)
  have "unat a mod 4 < 256"
    using mod_less_divisor [of 4 "unat a"] by linarith
  with lt assms show o: "unat offs = unat a mod 4"
    by (auto simp: address_to_sector_block_eq unat_of_nat)
  have "unat a mod 1024 mod 4 = unat a mod 4"
    by (simp add: mod_mod_cancel)
  then have "4 * (unat a mod 1024 div 4) + unat a mod 4 = unat a mod 1024"
    by (metis mult_div_mod_eq)
  then show "unat a = 1024 * unat s + 4 * unat b + unat offs"
    unfolding s b o by (metis add.assoc mult_div_mod_eq)
qed

lemma address_to_sector_block_less:
  "unat a < 261120 \<Longrightarrow> \<exists>s b offs. address_to_sector_block a = Some (s, b, offs)"
  by (simp add: address_to_sector_block_eq)

lemma unat_sector_block_address:
  "unat (ucast s * 1024 + ucast b * 4 + ucast offs :: u32) =
     1024 * unat (s :: u8) + 4 * unat (b :: u8) + unat (offs :: u8)"
proof -
  have "unat s < 256" "unat b < 256" "unat offs < 256" by simp_all
  then show ?thesis
    by (simp add: unat_word_ariths del: u8_unat_lt)
qed

lemma sector_block_to_address_eq:
  "sector_block_to_address s b offs =
     (if unat s \<le> 254 then Some (of_nat (1024 * unat s + 4 * unat b + unat offs)) else None)"
proof -
  have "ucast s * 1024 + ucast b * 4 + ucast offs =
      (of_nat (1024 * unat s + 4 * unat b + unat offs) :: u32)"
    by (metis of_nat_unat ucast_id unat_sector_block_address)
  then show ?thesis
    by (simp add: sector_block_to_address_def geometry word_less_nat_alt)
qed

section \<open>Usable addresses\<close>

definition usable :: "memory_layout \<Rightarrow> nat \<Rightarrow> bool" where
  "usable layout a \<longleftrightarrow> \<not> is_skip_area layout (of_nat a)"

text \<open>The usable addresses from \<open>a\<close> on in order, up to the end of the address space.\<close>

definition space_end :: nat where "space_end = unat ADDRESS_SPACE_END"

definition usable_from :: "memory_layout \<Rightarrow> nat \<Rightarrow> nat list" where
  "usable_from layout a = filter (usable layout) [a..<space_end]"

abbreviation usable_addrs :: "memory_layout \<Rightarrow> nat list" where
  "usable_addrs layout \<equiv> usable_from layout 16"

lemma space_end_eq: "space_end = 261120"
  by (simp add: space_end_def geometry)

lemma usable_from_step:
  "a < space_end \<Longrightarrow>
   usable_from layout a = (if usable layout a then [a] else []) @ usable_from layout (Suc a)"
  by (simp add: usable_from_def upt_conv_Cons)

lemma usable_from_end: "space_end \<le> a \<Longrightarrow> usable_from layout a = []"
  by (simp add: usable_from_def)

lemma usable_walk_eq:
  "usable_walk layout addr remaining =
     (let as = usable_from layout (unat addr) in
      if unat remaining < length as then Some (of_nat (as ! unat remaining)) else None)"
proof (induction layout addr remaining rule: usable_walk.induct)
  case (1 layout addr remaining)
  show ?case
  proof (cases "addr < ADDRESS_SPACE_END")
    case False
    then show ?thesis
      by (simp add: usable_walk.simps [of layout addr] usable_from_end space_end_def
          word_le_nat_alt not_less)
  next
    case True
    then have lt: "unat addr < space_end" and nle: "\<not> ADDRESS_SPACE_END \<le> addr"
      by (simp_all add: word_less_nat_alt space_end_def not_le)
    have next_addr: "checked_add addr 1 = Some (addr + 1)" "unat (addr + 1) = Suc (unat addr)"
      using unat_next_addr [OF True] checked_add_Some [of addr 1] by simp_all
    note step = usable_from_step [OF lt, of layout]
    have us: "usable layout (unat addr) \<longleftrightarrow> \<not> is_skip_area layout addr"
      by (simp add: usable_def)
    show ?thesis
    proof (cases "is_skip_area layout addr")
      case skip: True
      then show ?thesis
        using "1.IH"(2) [of "addr + 1"] nle next_addr us
        by (simp add: usable_walk.simps [of layout addr] step)
    next
      case False
      show ?thesis
      proof (cases "remaining = 0")
        case True
        then show ?thesis
          using nle us False by (simp add: usable_walk.simps [of layout addr] step)
      next
        case nonzero: False
        then have "unat (remaining - 1) = unat remaining - 1" "0 < unat remaining"
          by (simp_all add: unat_minus_one unat_gt_0)
        then show ?thesis
          using "1.IH"(1) [of "addr + 1"] nle next_addr us False nonzero
          by (auto simp: usable_walk.simps [of layout addr] step Let_def nth_Cons')
      qed
    qed
  qed
qed

lemma usable_offset_to_address_eq:
  "usable_offset_to_address layout n =
     (if unat n < length (usable_addrs layout) then Some (of_nat (usable_addrs layout ! unat n))
      else None)"
  by (simp add: usable_offset_to_address_def usable_walk_eq geometry Let_def)

lemma usable_from_mem: "a \<in> set (usable_from layout b) \<longleftrightarrow> b \<le> a \<and> a < space_end \<and> usable layout a"
  by (auto simp: usable_from_def)

lemma usable_from_sorted: "sorted_wrt (<) (usable_from layout b)"
  by (simp add: usable_from_def sorted_wrt_filter)

section \<open>The layout of parsed TLVs\<close>

fun is_alloc :: "'a vec_lib \<Rightarrow> bool" where
  "is_alloc Alloc = True"
| "is_alloc (Heapless _ _) = False"

text \<open>
  A build of the crate: one vector library for all element types, as documented, and a \<open>usize\<close> of
  at least 32 bits.
\<close>

definition build_ok :: "build \<Rightarrow> bool" where
  "build_ok B \<longleftrightarrow> vec_lib_ok (bytes_lib B) \<and> vec_lib_ok (tlv_lib B) \<and>
     vec_lib_ok (lock_lib B) \<and> vec_lib_ok (reserved_lib B) \<and>
     is_alloc (tlv_lib B) = is_alloc (bytes_lib B) \<and>
     is_alloc (lock_lib B) = is_alloc (bytes_lib B) \<and>
     is_alloc (reserved_lib B) = is_alloc (bytes_lib B) \<and> 4294967295 \<le> usize_max B"

lemma build_okD:
  assumes "build_ok B"
  shows "vec_lib_ok (bytes_lib B)" "vec_lib_ok (tlv_lib B)" "vec_lib_ok (lock_lib B)"
    "vec_lib_ok (reserved_lib B)" "is_alloc (lock_lib B) = is_alloc (tlv_lib B)"
    "is_alloc (reserved_lib B) = is_alloc (tlv_lib B)"
  using assms by (simp_all add: build_ok_def)

text \<open>The two builds of the crate: without and with the feature \<open>alloc\<close>.\<close>

abbreviation heapless_build :: build where
  "heapless_build \<equiv> \<lparr>bytes_lib = heapless_lib, tlv_lib = heapless_lib, lock_lib = heapless_lib,
     reserved_lib = heapless_lib, usize_max = 0xFFFFFFFF\<rparr>"

abbreviation alloc_build :: build where
  "alloc_build \<equiv> \<lparr>bytes_lib = Alloc, tlv_lib = Alloc, lock_lib = Alloc,
     reserved_lib = Alloc, usize_max = 0xFFFFFFFFFFFFFFFF\<rparr>"

lemma builds_ok [simp]: "build_ok heapless_build" "build_ok alloc_build"
  by (simp_all add: build_ok_def)

lemma push_area_fits:
  assumes "vec_lib_ok l" and "is_alloc l \<or> length v < AREA_VEC_CAP"
  shows "snd (push_area l x v) = v @ [x]"
proof -
  have "vec_fits l AREA_VEC_CAP (Suc (length v))"
    using assms(2) by (cases l) auto
  then show ?thesis
    by (simp add: push_area_def op_map_err_def try_push_eq [OF assms(1)])
qed

text \<open>The area of a control TLV that is well-formed.\<close>

definition lock_area_of :: "lock_control_value \<Rightarrow> lock_area" where
  "lock_area_of lc = \<lparr>la_byte_address = of_nat (page_address (lc_page_addr lc)
       (lc_bytes_per_page lc) (lc_byte_offset lc)),
     la_size_in_bits = lc_size_in_bits lc,
     la_bytes_per_lock_bit = push_bit (unat (lc_bytes_locked_per_bit lc)) 1\<rparr>"

definition reserved_area_of :: "memory_control_value \<Rightarrow> reserved_area" where
  "reserved_area_of mc = \<lparr>ra_byte_address = of_nat (page_address (mc_page_addr mc)
       (mc_bytes_per_page mc) (mc_byte_offset mc)), ra_size = mc_size_in_bytes mc\<rparr>"

lemma from_lock_control_eq: "lc_wf lc \<Longrightarrow> from_lock_control lc = Ok (lock_area_of lc)"
  by (simp add: from_lock_control_def lock_area_of_def lc_wf_def lc_byte_address_eq
      lc_bytes_per_lock_bit_def one_shl_chk_def)

lemma from_memory_control_eq: "mc_wf mc \<Longrightarrow> from_memory_control mc = Ok (reserved_area_of mc)"
  by (simp add: from_memory_control_def reserved_area_of_def mc_wf_def mc_byte_address_eq)

fun control_ok :: "tlv \<Rightarrow> bool" where
  "control_ok (LockControl lc) = lc_wf lc"
| "control_ok (MemoryControl mc) = mc_wf mc"
| "control_ok _ = True"

fun lock_areas_of :: "tlv list \<Rightarrow> lock_area list" where
  "lock_areas_of [] = []"
| "lock_areas_of (LockControl lc # ts) = lock_area_of lc # lock_areas_of ts"
| "lock_areas_of (_ # ts) = lock_areas_of ts"

fun reserved_areas_of :: "tlv list \<Rightarrow> reserved_area list" where
  "reserved_areas_of [] = []"
| "reserved_areas_of (MemoryControl mc # ts) = reserved_area_of mc # reserved_areas_of ts"
| "reserved_areas_of (_ # ts) = reserved_areas_of ts"

lemma collect_areas_eq:
  assumes "build_ok B" and "\<forall>t \<in> set ts. control_ok t"
    and "is_alloc (tlv_lib B) \<or> length ls + length rs + length ts \<le> AREA_VEC_CAP"
  shows "collect_areas B ts ls rs = Ok (ls @ lock_areas_of ts, rs @ reserved_areas_of ts)"
  using assms(2,3)
proof (induction ts arbitrary: ls rs)
  case (Cons t ts)
  then show ?case
    using build_okD [OF assms(1)]
    by (cases t) (auto simp: from_lock_control_eq from_memory_control_eq push_area_fits)
qed simp

lemma block_control_ok: "tlv_block b (Some t) \<Longrightarrow> control_ok t"
  by (cases rule: tlv_block.cases, assumption) (auto dest: lc_from_bytes_wf mc_from_bytes_wf)

lemma stream_control_ok: "tlv_stream data ts \<Longrightarrow> \<forall>t \<in> set ts. control_ok t"
  by (induction rule: tlv_stream.induct) (auto dest: block_control_ok)

lemma parsed_control_ok:
  "build_ok B \<Longrightarrow> parse_tlvs (bytes_lib B) (tlv_lib B) data = Ok ts \<Longrightarrow> \<forall>t \<in> set ts. control_ok t"
  by (auto simp: parse_tlvs_iff build_okD dest: stream_control_ok)

lemma parsed_tlvs_few:
  assumes "build_ok B" and "parse_tlvs (bytes_lib B) (tlv_lib B) data = Ok ts"
  shows "is_alloc (tlv_lib B) \<or> length ts \<le> 4"
proof -
  have "vec_fits (tlv_lib B) TLV_VEC_CAP (length ts)"
    using assms(2) parse_tlvs_iff [OF build_okD(1,2) [OF assms(1)]] by blast
  then show ?thesis
    by (cases "tlv_lib B") (simp_all add: TLV_VEC_CAP_def)
qed

definition layout_of :: "capability_container \<Rightarrow> tlv list \<Rightarrow> memory_layout" where
  "layout_of cc ts = \<lparr>data_area_size = cc_data_area_size cc,
     lock_areas = (if is_dynamic cc \<and> lock_areas_of ts = []
                   then [default_dynamic_lock_area (cc_data_area_size cc)] else lock_areas_of ts),
     reserved_areas = reserved_areas_of ts\<rparr>"

lemma from_cc_and_tlvs_eq:
  assumes "build_ok B" and "\<forall>t \<in> set ts. control_ok t"
    and "is_alloc (tlv_lib B) \<or> length ts \<le> 8"
  shows "from_cc_and_tlvs B cc ts = (Ok (layout_of cc ts) :: ('e, memory_layout) res)"
proof -
  have "collect_areas B ts [] [] = (Ok (lock_areas_of ts, reserved_areas_of ts) ::
      ('e, lock_area list \<times> reserved_area list) res)"
    using collect_areas_eq [of B ts "[]" "[]"] assms by (simp add: AREA_VEC_CAP_def)
  moreover have "snd (push_area (lock_lib B) a []) = [a]" for a
    using push_area_fits [of "lock_lib B" "[]" a] build_okD [OF assms(1)]
    by (simp add: AREA_VEC_CAP_def)
  ultimately show ?thesis
    by (simp add: from_cc_and_tlvs_def layout_of_def Let_def)
qed

lemma from_cc_and_parsed:
  assumes "build_ok B" and "parse_tlvs (bytes_lib B) (tlv_lib B) data = Ok ts"
  shows "from_cc_and_tlvs B cc ts = Ok (layout_of cc ts)"
  using parsed_tlvs_few [OF assms] parsed_control_ok [OF assms]
  by (intro from_cc_and_tlvs_eq assms) auto

subsection \<open>The bytes a layout skips\<close>

text \<open>The bytes of the areas that a list of control TLVs announces.\<close>

fun control_bytes :: "tlv \<Rightarrow> nat set" where
  "control_bytes (LockControl lc) =
     (let a = page_address (lc_page_addr lc) (lc_bytes_per_page lc) (lc_byte_offset lc)
      in {a ..< a + (unat (lc_size_in_bits lc) + 7) div 8})"
| "control_bytes (MemoryControl mc) =
     (let a = page_address (mc_page_addr mc) (mc_bytes_per_page mc) (mc_byte_offset mc)
      in {a ..< a + unat (mc_size_in_bytes mc)})"
| "control_bytes _ = {}"

lemma la_contains_iff:
  assumes "unat (la_byte_address ar) + (unat (la_size_in_bits ar) + 7) div 8 < 4294967296"
  shows "la_contains ar a \<longleftrightarrow> unat (la_byte_address ar) \<le> unat a \<and>
    unat a < unat (la_byte_address ar) + (unat (la_size_in_bits ar) + 7) div 8"
  using assms
  by (simp add: la_contains_def la_end_address_def la_lock_byte_count_def checked_defs
      word_le_nat_alt word_less_nat_alt unat_word_ariths unat_div_ceil8)

lemma ra_contains_iff:
  assumes "unat (ra_byte_address ar) + unat (ra_size ar) < 4294967296"
  shows "ra_contains ar a \<longleftrightarrow> unat (ra_byte_address ar) \<le> unat a \<and>
    unat a < unat (ra_byte_address ar) + unat (ra_size ar)"
  using assms
  by (simp add: ra_contains_def ra_end_address_def checked_defs
      word_le_nat_alt word_less_nat_alt unat_word_ariths)

lemma lock_area_of_contains:
  assumes "lc_wf lc"
  shows "la_contains (lock_area_of lc) a \<longleftrightarrow> unat a \<in> control_bytes (LockControl lc)"
proof -
  have "unat (la_byte_address (lock_area_of lc)) =
      page_address (lc_page_addr lc) (lc_bytes_per_page lc) (lc_byte_offset lc)"
    using assms by (simp add: lock_area_of_def lc_wf_def in_address_space_def unat_of_nat)
  moreover have "la_size_in_bits (lock_area_of lc) = lc_size_in_bits lc"
    by (simp add: lock_area_of_def)
  ultimately show ?thesis
    using assms by (subst la_contains_iff) (auto simp: lc_wf_def in_address_space_def Let_def)
qed

lemma reserved_area_of_contains:
  assumes "mc_wf mc"
  shows "ra_contains (reserved_area_of mc) a \<longleftrightarrow> unat a \<in> control_bytes (MemoryControl mc)"
proof -
  have "unat (ra_byte_address (reserved_area_of mc)) =
      page_address (mc_page_addr mc) (mc_bytes_per_page mc) (mc_byte_offset mc)"
    using assms by (simp add: reserved_area_of_def mc_wf_def in_address_space_def unat_of_nat)
  moreover have "ra_size (reserved_area_of mc) = mc_size_in_bytes mc"
    by (simp add: reserved_area_of_def)
  ultimately show ?thesis
    using assms by (subst ra_contains_iff) (auto simp: mc_wf_def in_address_space_def Let_def)
qed

lemma areas_of_contain:
  assumes "\<forall>t \<in> set ts. control_ok t"
  shows "list_ex (\<lambda>ar. la_contains ar a) (lock_areas_of ts) \<or>
         list_ex (\<lambda>ar. ra_contains ar a) (reserved_areas_of ts) \<longleftrightarrow>
         (\<exists>t \<in> set ts. unat a \<in> control_bytes t)"
  using assms
proof (induction ts)
  case (Cons t ts)
  then show ?case
    by (cases t) (auto simp: lock_area_of_contains reserved_area_of_contains
        simp del: control_bytes.simps(1,2))
qed simp

text \<open>The bytes of the lock area a dynamic tag without Lock Control TLV has behind its data area.\<close>

definition default_lock_bytes :: "capability_container \<Rightarrow> nat set" where
  "default_lock_bytes cc = (let n = 8 * unat (size_field cc) in
     {16 + n ..< 16 + n + ((n - 48) div 8 + 7) div 8})"

lemma default_area_contains:
  assumes "is_dynamic cc"
  shows "la_contains (default_dynamic_lock_area (cc_data_area_size cc)) a \<longleftrightarrow>
    unat a \<in> default_lock_bytes cc"
proof -
  define n where "n = unat (size_field cc)"
  have n: "6 < n" "n < 256"
    using assms by (simp_all add: n_def is_dynamic_def word_less_nat_alt)
  let ?ar = "default_dynamic_lock_area (cc_data_area_size cc)"
  have sz: "unat (cc_data_area_size cc) = 8 * n"
    by (simp add: n_def unat_data_area_size)
  have addr: "unat (la_byte_address ?ar) = 16 + 8 * n"
    using n by (simp add: default_dynamic_lock_area_def geometry unat_word_ariths sz)
  have "unat (cc_data_area_size cc - 48) = 8 * n - 48"
    using n by (simp add: unat_sub word_le_nat_alt sz)
  then have bits: "unat (la_size_in_bits ?ar) = n - 6"
    using n by (simp add: default_dynamic_lock_area_def geometry saturating_sub_def
        word_le_nat_alt sz unat_div_ceil8)
  have "(8 * n - 48) div 8 = n - 6"
    by (simp add: diff_mult_distrib2 [symmetric])
  moreover have "(n - 6 + 7) div 8 < 256"
    using n by (intro less_mult_imp_div_less) simp
  ultimately show ?thesis
    using n by (subst la_contains_iff) (auto simp: addr bits default_lock_bytes_def n_def [symmetric] Let_def)
qed

text \<open>The bytes that are no data bytes, by the Capability Container and the control TLVs.\<close>

definition skipped_bytes :: "capability_container \<Rightarrow> tlv list \<Rightarrow> nat set" where
  "skipped_bytes cc ts = (\<Union>t \<in> set ts. control_bytes t) \<union>
     (if is_dynamic cc \<and> lock_areas_of ts = [] then default_lock_bytes cc else {})"

lemma is_skip_area_layout_of:
  assumes "\<forall>t \<in> set ts. control_ok t"
  shows "is_skip_area (layout_of cc ts) a \<longleftrightarrow> unat a \<in> skipped_bytes cc ts"
  using areas_of_contain [OF assms, of a]
  by (auto simp: is_skip_area_def layout_of_def skipped_bytes_def default_area_contains)

section \<open>The number of sectors\<close>

lemma sum_chk_eq:
  assumes "unat acc + sum_list (map unat xs) < 4294967296"
  shows "\<exists>t. sum_chk acc xs = (Ok t :: ('e, u32) res) \<and> unat t = unat acc + sum_list (map unat xs)"
  using assms
proof (induction xs arbitrary: acc)
  case (Cons x xs)
  then have "unat acc + unat x < 4294967296"
    by simp
  then have "add_chk acc x = (Ok (acc + x) :: ('e, u32) res)" "unat (acc + x) = unat acc + unat x"
    by (simp_all add: add_chk_def checked_defs unat_word_ariths)
  with Cons.IH [of "acc + x"] Cons.prems show ?case by (simp add: add.assoc)
qed simp

lemma unat_div_ceil_1024: "unat (div_ceil (x :: u32) 1024) = (unat x + 1023) div 1024"
proof -
  have "unat x div 1024 < 4194304"
    by (rule less_mult_imp_div_less) simp
  then have "unat (x div 1024 + 1) = Suc (unat x div 1024)" and "unat (x div 1024) = unat x div 1024"
    by (simp_all add: unat_word_ariths unat_div)
  moreover have "(x mod 1024 = 0) = (unat x mod 1024 = 0)"
    by (simp add: word_unat_eq_iff unat_mod)
  moreover have "(unat x + 1023) div 1024 =
      (if unat x mod 1024 = 0 then unat x div 1024 else Suc (unat x div 1024))"
  proof -
    define q r where "q = unat x div 1024" and "r = unat x mod 1024"
    then have n: "unat x = 1024 * q + r" and "r < 1024" by simp_all
    then have "(unat x + 1023) div 1024 = q + (r + 1023) div 1024"
      by (simp add: add.assoc)
    moreover have "(r + 1023) div 1024 = (if r = 0 then 0 else 1)"
      using \<open>r < 1024\<close> by (auto simp: div_nat_eqI)
    ultimately show ?thesis by (simp add: q_def r_def)
  qed
  ultimately show ?thesis
    unfolding div_ceil_def by presburger
qed

lemma sector_count_eq:
  assumes "unat (data_area_size L) + 16 +
      sum_list (map (unat \<circ> la_lock_byte_count) (lock_areas L)) +
      sum_list (map (unat \<circ> ra_size) (reserved_areas L)) < 4294967296"
  shows "\<exists>n. sector_count L = (Ok n :: ('e, u8) res) \<and> unat n = min 255
    ((unat (data_area_size L) + 16 + sum_list (map (unat \<circ> la_lock_byte_count) (lock_areas L)) +
      sum_list (map (unat \<circ> ra_size) (reserved_areas L)) + 1023) div 1024)"
proof -
  let ?l = "map (ucast \<circ> la_lock_byte_count) (lock_areas L) :: u32 list"
  let ?r = "map (ucast \<circ> ra_size) (reserved_areas L) :: u32 list"
  have maps: "map unat ?l = map (unat \<circ> la_lock_byte_count) (lock_areas L)"
    "map unat ?r = map (unat \<circ> ra_size) (reserved_areas L)"
    by simp_all
  obtain lk where lk: "sum_chk 0 ?l = (Ok lk :: ('e, u32) res)" "unat lk = sum_list (map unat ?l)"
    using sum_chk_eq [of 0 ?l] assms unfolding maps by auto
  obtain rv where rv: "sum_chk 0 ?r = (Ok rv :: ('e, u32) res)" "unat rv = sum_list (map unat ?r)"
    using sum_chk_eq [of 0 ?r] assms unfolding maps by auto
  define hd_size :: u32 where "hd_size = ucast (data_area_size L) + 16"
  have "unat (data_area_size L) < 65536" by simp
  then have hd_size: "unat hd_size = unat (data_area_size L) + 16"
    by (simp add: hd_size_def unat_word_ariths del: u16_unat_lt)
  note bound = assms [folded maps, folded lk(2) rv(2) hd_size]
  have s1: "add_chk hd_size lk = (Ok (hd_size + lk) :: ('e, u32) res)"
    "unat (hd_size + lk) = unat hd_size + unat lk"
    using bound by (simp_all add: add_chk_def checked_defs unat_word_ariths)
  have s2: "add_chk (hd_size + lk) rv = (Ok (hd_size + lk + rv) :: ('e, u32) res)"
    "unat (hd_size + lk + rv) = unat hd_size + unat lk + unat rv"
    using bound s1(2) by (simp_all add: add_chk_def checked_defs unat_word_ariths)
  have "unat (ucast (min x 255 :: u32) :: u8) = min 255 (unat x)" for x :: u32
    by (simp add: unat_ucast_down min_def word_le_nat_alt)
  then show ?thesis
    unfolding maps [symmetric] lk(2) [symmetric] rv(2) [symmetric] hd_size [symmetric] s2(2) [symmetric]
    by (simp add: sector_count_def geometry lk(1) rv(1) hd_size_def [symmetric] s1(1) s2(1)
        unat_div_ceil_1024 Let_def)
qed

lemma tlv_stream_length: "tlv_stream data ts \<Longrightarrow> length ts \<le> length data"
proof (induction rule: tlv_stream.induct)
  case (block b t rest ts)
  then have "b \<noteq> []" by (blast dest: tlv_block_nonempty)
  with block.IH show ?case by (cases b) auto
qed auto

lemma sum_list_bound: "(\<forall>x \<in> set xs. f x \<le> (k :: nat)) \<Longrightarrow> sum_list (map f xs) \<le> k * length xs"
  by (induction xs) auto

lemma lock_areas_of_bounds:
  "\<forall>t \<in> set ts. control_ok t \<Longrightarrow>
   (\<forall>ar \<in> set (lock_areas_of ts). unat (la_lock_byte_count ar) \<le> 32) \<and>
   (\<forall>ar \<in> set (reserved_areas_of ts). unat (ra_size ar) \<le> 256) \<and>
   length (lock_areas_of ts) \<le> length ts \<and> length (reserved_areas_of ts) \<le> length ts"
proof (induction ts)
  case (Cons t ts)
  have "(n + 7) div 8 \<le> (32 :: nat)" if "n \<le> 256" for n
    using div_le_mono [of "n + 7" 263 8] that by simp
  with Cons show ?case
    by (cases t) (auto simp: lock_area_of_def reserved_area_of_def la_lock_byte_count_def
        unat_div_ceil8 lc_wf_def mc_wf_def)
qed simp

lemma default_area_bytes:
  "unat (la_lock_byte_count (default_dynamic_lock_area n)) \<le> 65536"
  by (rule less_imp_le) (rule u16_unat_lt)

section \<open>Properties\<close>

text \<open>
  C21. The address conversions are inverse to each other on the addressable memory: a linear address
  splits into a sector, a block and an offset below 4 exactly when joining these gives the address
  back, and precisely the addresses below 255 * 1024 split. Sector 255 (reserved) is refused by both.
\<close>

theorem address_conversion_roundtrip:
  "(address_to_sector_block a = Some (s, b, offs) \<longleftrightarrow>
      unat offs < 4 \<and> sector_block_to_address s b offs = Some a) \<and>
   (address_to_sector_block a = None \<longleftrightarrow> 255 * 1024 \<le> unat a) \<and>
   (sector_block_to_address s b offs = None \<longleftrightarrow> s = 255)"
proof -
  have inv: "address_to_sector_block a = Some (s, b, offs)"
    if "unat offs < 4" "sector_block_to_address s b offs = Some a"
  proof -
    let ?n = "1024 * unat s + 4 * unat b + unat offs"
    have s: "unat s \<le> 254" and "a = of_nat ?n"
      using that(2) by (auto simp: sector_block_to_address_eq split: if_splits)
    moreover have b: "unat b < 256" by simp
    ultimately have a: "unat a = ?n" "unat a < 261120"
      using that(1) unat_of_nat_u32 [of ?n] by (simp_all del: u8_unat_lt of_nat_add of_nat_mult)
    have "?n = unat s * 1024 + (4 * unat b + unat offs)" "4 * unat b + unat offs < 1024"
      using b that(1) by (simp_all del: u8_unat_lt)
    then have d: "?n div 1024 = unat s" "?n mod 1024 = 4 * unat b + unat offs"
      by (simp_all only: div_mult_self3 mod_mult_self3 div_less mod_less add_0_right add_0_left)
    have m: "?n mod 4 = unat offs"
      using that(1) by (simp add: mod_add_left_eq [symmetric] mod_mult_left_eq [symmetric])
    have "(4 * unat b + unat offs) div 4 = unat b"
      using that(1) by simp
    then show ?thesis
      using a(2) by (simp add: address_to_sector_block_eq a(1) d m)
  qed
  have "unat offs < 4 \<and> sector_block_to_address s b offs = Some a"
    if "address_to_sector_block a = Some (s, b, offs)"
  proof -
    note D = address_to_sector_blockD [OF that]
    have "unat s < 255"
      using D(1) by (simp add: D(2) less_mult_imp_div_less)
    moreover have "of_nat (1024 * unat s + 4 * unat b + unat offs) = a"
      unfolding D(5) [symmetric] by simp
    ultimately show ?thesis
      using mod_less_divisor [of 4 "unat a"]
      by (simp add: sector_block_to_address_eq D(4) [symmetric] del: of_nat_add of_nat_mult)
  qed
  moreover have "unat s \<le> 254 \<longleftrightarrow> s \<noteq> 255"
    using u8_unat_lt [of s] by (auto simp: word_unat_eq_iff simp del: u8_unat_lt)
  ultimately show ?thesis
    using inv by (auto simp: address_to_sector_block_eq sector_block_to_address_eq split: if_splits)
qed

text \<open>
  C20. The walk of \<open>usable_offset_to_address\<close> is the reference: the \<open>n\<close>-th address, from byte 16 on
  and below the end of the address space, that lies in no lock and no reserved area of the layout;
  \<open>None\<close> when there are not that many.
\<close>

theorem usable_offset_to_address_nth:
  "usable_offset_to_address layout n =
     (let as = filter (\<lambda>a. \<not> is_skip_area layout (of_nat a)) [16 ..< unat ADDRESS_SPACE_END] in
      if unat n < length as then Some (of_nat (as ! unat n)) else None)"
  by (simp only: usable_offset_to_address_eq usable_from_def usable_def [abs_def] space_end_def Let_def)

text \<open>
  C19. The layout built from parsed TLVs never fails and is exact: a byte is skipped if and only if
  it lies in an area announced by a Lock or Memory Control TLV or, on a dynamic tag with no Lock
  Control TLV, in the default lock area behind the data area. No area is lost to the fixed capacity
  of the area vectors.
\<close>

theorem layout_of_parsed_tlvs_exact:
  assumes "build_ok B" and "parse_tlvs (bytes_lib B) (tlv_lib B) data = Ok ts"
  shows "\<exists>layout. from_cc_and_tlvs B cc ts = (Ok layout :: ('e, memory_layout) res) \<and>
    data_area_size layout = cc_data_area_size cc \<and>
    (\<forall>a. is_skip_area layout a \<longleftrightarrow> unat a \<in> skipped_bytes cc ts)"
  using from_cc_and_parsed [OF assms, where ?'a = 'e, of cc]
    is_skip_area_layout_of [OF parsed_control_ok [OF assms]]
  by (auto simp: layout_of_def)

theorem layout_of_parsed_tlvs_exact_witness:
  "\<exists>layout. from_cc_and_tlvs heapless_build \<lparr>version_major = 1, version_minor = 0,
       size_field = 0x0C, read_access = Granted, write_access = Granted\<rparr>
       [LockControl \<lparr>lc_page_addr = 7, lc_byte_offset = 0, lc_size_in_bits = 8,
          lc_bytes_per_page = 2, lc_bytes_locked_per_bit = 3\<rparr>, Terminator] =
       (Ok layout :: (unit, memory_layout) res) \<and>
     is_skip_area layout 28 \<and> \<not> is_skip_area layout 29 \<and> \<not> is_skip_area layout 112"
proof -
  let ?lc = "\<lparr>lc_page_addr = 7, lc_byte_offset = 0, lc_size_in_bits = 8,
        lc_bytes_per_page = 2, lc_bytes_locked_per_bit = 3\<rparr>"
  have lc: "lc_from_bytes (0x70, 0x08, 0x32) = Ok ?lc"
    by (simp add: lc_from_bytes_eq Let_def lc_wf_def page_address_def in_address_space_def geometry)
  have "tlv_stream ([0x01, 0x03, 0x70, 0x08, 0x32] @ [0xFE]) [LockControl ?lc, Terminator]"
    using tlv_block.lock [OF len_field.short [of 3, simplified] lc]
    by (intro tlv_stream.block tlv_stream.stop) simp_all
  then have "parse_tlvs (bytes_lib heapless_build) (tlv_lib heapless_build)
      [0x01, 0x03, 0x70, 0x08, 0x32, 0xFE] = Ok [LockControl ?lc, Terminator]"
    by (subst parse_tlvs_iff) (simp_all add: TLV_VEC_CAP_def)
  from layout_of_parsed_tlvs_exact [OF builds_ok(1) this] show ?thesis
    by (force simp: skipped_bytes_def page_address_def)
qed

text \<open>
  C27. \<open>sector_count\<close> does not overflow on the layout of parsed TLVs, for a data area of up to a
  mebibyte (a tag announces 2040 bytes at most), and gives the number of 1024-byte sectors that
  the 16 header bytes, the data area and the lock and reserved bytes fill, 255 at most.
\<close>

theorem sector_count_of_parsed_tlvs:
  assumes "build_ok B" and "parse_tlvs (bytes_lib B) (tlv_lib B) data = Ok ts"
    and "length data \<le> 1048576"
    and "from_cc_and_tlvs B cc ts = (Ok layout :: ('e, memory_layout) res)"
  shows "\<exists>n. sector_count layout = (Ok n :: ('e, u8) res) \<and> unat n = min 255
    ((unat (cc_data_area_size cc) + 16 +
      sum_list (map (unat \<circ> la_lock_byte_count) (lock_areas layout)) +
      sum_list (map (unat \<circ> ra_size) (reserved_areas layout)) + 1023) div 1024)"
proof -
  have L: "layout = layout_of cc ts"
    using from_cc_and_parsed [OF assms(1,2), where ?'a = 'e, of cc] assms(4) by simp
  have "length ts \<le> 1048576"
    using assms(2,3) parse_tlvs_iff [OF build_okD(1,2) [OF assms(1)]] tlv_stream_length
    by (meson order_trans)
  moreover note lock_areas_of_bounds [OF parsed_control_ok [OF assms(1,2)]]
  moreover have "sum_list (map (unat \<circ> la_lock_byte_count) (lock_areas layout)) \<le>
      32 * length (lock_areas_of ts) + 65536"
    using calculation(2) default_area_bytes [of "cc_data_area_size cc"]
      sum_list_bound [of "lock_areas_of ts" "unat \<circ> la_lock_byte_count" 32]
    by (auto simp: L layout_of_def)
  moreover have "sum_list (map (unat \<circ> ra_size) (reserved_areas layout)) \<le>
      256 * length (reserved_areas_of ts)"
    using calculation(2) sum_list_bound [of "reserved_areas_of ts" "unat \<circ> ra_size" 256]
    by (simp add: L layout_of_def)
  moreover have "data_area_size layout = cc_data_area_size cc"
    by (simp add: L layout_of_def)
  moreover have "unat (cc_data_area_size cc) < 65536" by simp
  ultimately have "unat (data_area_size layout) + 16 +
      sum_list (map (unat \<circ> la_lock_byte_count) (lock_areas layout)) +
      sum_list (map (unat \<circ> ra_size) (reserved_areas layout)) < 4294967296"
    by (simp del: u16_unat_lt)
  from sector_count_eq [OF this, where ?'e = 'e] show ?thesis
    by (simp add: L layout_of_def)
qed

theorem sector_count_of_parsed_tlvs_witness:
  "\<exists>n. sector_count (layout_of \<lparr>version_major = 1, version_minor = 0,
       size_field = 0xFE, read_access = Granted, write_access = Granted\<rparr> []) =
       (Ok n :: (unit, u8) res) \<and> unat n = 3"
proof -
  let ?cc = "\<lparr>version_major = 1, version_minor = 0,
       size_field = 0xFE, read_access = Granted, write_access = Granted\<rparr>"
  have parsed: "parse_tlvs (bytes_lib heapless_build) (tlv_lib heapless_build) [] = Ok []"
    by (subst parse_tlvs_iff) (simp_all add: tlv_stream.empty)
  have "unat (cc_data_area_size ?cc) = 2032"
    by (simp add: unat_data_area_size)
  moreover have "lock_areas (layout_of ?cc []) = [default_dynamic_lock_area (cc_data_area_size ?cc)]"
    "reserved_areas (layout_of ?cc []) = []"
    by (simp_all add: layout_of_def is_dynamic_def)
  moreover have "la_lock_byte_count (default_dynamic_lock_area (cc_data_area_size ?cc)) = 31"
    by (simp add: default_dynamic_lock_area_def la_lock_byte_count_def div_ceil_def
        saturating_sub_def cc_data_area_size_def geometry)
  ultimately show ?thesis
    using sector_count_of_parsed_tlvs [OF builds_ok(1) parsed,
        OF _ from_cc_and_parsed [OF builds_ok(1) parsed], of ?cc]
    by simp
qed

end
