(* ===== verification/Scanner.thy ===== *)
theory Scanner
  imports Tlv_Spec
begin

text \<open>
  \<open>TlvScanner\<close> of \<open>src/src/type2/reader.rs\<close>: the state machine that follows the TLV structure of
  a byte stream, so that reading the data area can stop at the Terminator TLV.
\<close>

section \<open>Definitions\<close>

datatype tlv_scan_state =
    TagState
  | LengthState
  | LengthExtMsb
  | LengthExtLsb u8
  | ValueState u16

definition scanner_new :: tlv_scan_state where "scanner_new = TagState"

fun feed :: "u8 \<Rightarrow> tlv_scan_state \<Rightarrow> bool \<times> tlv_scan_state" where
  "feed byte TagState =
     (if byte = TLV_TERMINATOR then (True, TagState)
      else if byte = TLV_NULL then (False, TagState)
      else (False, LengthState))"
| "feed byte LengthState =
     (False,
      if byte = 0xFF then LengthExtMsb
      else if byte = 0 then TagState
      else ValueState (ucast byte))"
| "feed byte LengthExtMsb = (False, LengthExtLsb byte)"
| "feed byte (LengthExtLsb msb) =
     (let len = push_bit 8 (ucast msb) OR ucast byte
      in (False, if len = 0 then TagState else ValueState len))"
| "feed byte (ValueState remaining) =
     (False, if remaining \<le> 1 then TagState else ValueState (remaining - 1))"

section \<open>Running the scanner\<close>

text \<open>The index of the byte at which \<open>feed\<close> tells the caller to stop.\<close>

fun scan :: "tlv_scan_state \<Rightarrow> u8 list \<Rightarrow> nat option" where
  "scan st [] = None"
| "scan st (b # bs) =
     (case feed b st of (stop, st') \<Rightarrow> if stop then Some 0 else map_option Suc (scan st' bs))"

text \<open>A block as the scanner sees it: it does not look into the values of the control TLVs.\<close>

inductive raw_block :: "u8 list \<Rightarrow> bool" where
  raw_null: "raw_block [0x00]"
| raw_tlv: "t \<notin> {0x00, 0xFE} \<Longrightarrow> len_field l n \<Longrightarrow> length v = unat n \<Longrightarrow> raw_block (t # l @ v)"

lemma tlv_block_raw: "tlv_block b r \<Longrightarrow> r \<noteq> Some Terminator \<Longrightarrow> raw_block b"
  by (cases rule: tlv_block.cases, assumption)
     (auto intro!: raw_block.intros simp: len_field.simps)

lemma unat_minus_one_u16: "(n :: u16) \<noteq> 0 \<Longrightarrow> unat (n - 1) = unat n - 1"
  by (simp add: unat_minus_one)

lemma scan_value:
  "unat n = Suc (length v) \<Longrightarrow>
   scan (ValueState n) (x # v @ rest) = map_option (\<lambda>k. Suc (length v) + k) (scan TagState rest)"
proof (induction v arbitrary: n x)
  case Nil
  then have "n \<le> 1" by (simp add: word_le_nat_alt)
  then show ?case by (simp add: option.map_comp comp_def)
next
  case (Cons y v)
  then have gt: "\<not> n \<le> 1" and "n \<noteq> 0" by (auto simp: word_le_nat_alt)
  then have "unat (n - 1) = Suc (length v)"
    using Cons.prems by (simp add: unat_minus_one_u16)
  from Cons.IH [OF this, of y] gt show ?case
    by (simp add: option.map_comp comp_def)
qed

lemma scan_value_short: "length v < unat n \<Longrightarrow> scan (ValueState n) v = None"
proof (induction v arbitrary: n)
  case (Cons x v)
  then have gt: "\<not> n \<le> 1" and "n \<noteq> 0" by (auto simp: word_le_nat_alt)
  then have "length v < unat (n - 1)"
    using Cons.prems by (simp add: unat_minus_one_u16)
  with Cons.IH gt show ?case by simp
qed simp

text \<open>The state the scanner is in once it has read the length field.\<close>

definition after_length :: "u16 \<Rightarrow> tlv_scan_state" where
  "after_length n = (if n = 0 then TagState else ValueState n)"

lemma scan_length_field:
  assumes "len_field l n"
  shows "scan LengthState (l @ rest) = map_option (\<lambda>k. length l + k) (scan (after_length n) rest)"
  using assms
proof (cases rule: len_field.cases)
  case (short b)
  moreover have "ucast b = (0 :: u16) \<longleftrightarrow> b = 0"
    by (simp add: word_unat_eq_iff)
  moreover have "b \<noteq> 0xFF" using short by auto
  ultimately show ?thesis by (simp add: after_length_def)
next
  case (long hi lo)
  then show ?thesis
    by (simp add: after_length_def u16_from_be_bytes_def Let_def option.map_comp comp_def)
qed

lemma scan_after_length:
  assumes "length v = unat n"
  shows "scan (after_length n) (v @ rest) = map_option (\<lambda>k. length v + k) (scan TagState rest)"
proof (cases v)
  case Nil
  with assms show ?thesis
    by (simp add: after_length_def unat_0_iff option.map_ident)
next
  case (Cons x w)
  with assms have "n \<noteq> 0" "unat n = Suc (length w)" by auto
  with scan_value [of n w x rest] Cons show ?thesis
    by (simp add: after_length_def)
qed

lemma scan_raw_block:
  assumes "raw_block b"
  shows "scan TagState (b @ rest) = map_option (\<lambda>k. length b + k) (scan TagState rest)"
  using assms
proof (cases rule: raw_block.cases)
  case raw_null
  then show ?thesis by (simp add: tlv_tags)
next
  case (raw_tlv t l n v)
  then have "scan TagState (b @ rest) = map_option Suc (scan LengthState (l @ v @ rest))"
    by (simp add: tlv_tags)
  also have "\<dots> = map_option (\<lambda>k. length b + k) (scan TagState rest)"
    using raw_tlv
    by (simp add: scan_length_field scan_after_length option.map_comp comp_def add.assoc)
  finally show ?thesis .
qed

lemma scan_Some_blocks:
  "scan TagState data = Some k \<Longrightarrow>
   \<exists>bs rest. data = concat bs @ 0xFE # rest \<and> (\<forall>b \<in> set bs. raw_block b) \<and> k = length (concat bs)"
proof (induction data arbitrary: k rule: length_induct)
  case (1 data)
  have step: ?case if "raw_block b" "data = b @ rest" for b rest
  proof -
    have "length rest < length data"
      using that by (auto elim: raw_block.cases)
    moreover from 1(2) that scan_raw_block obtain k' where "scan TagState rest = Some k'"
      "k = length b + k'" by (auto simp: scan_raw_block)
    ultimately obtain bs rest' where "rest = concat bs @ 0xFE # rest'" "\<forall>b \<in> set bs. raw_block b"
      "k' = length (concat bs)" using 1(1) by blast
    with that \<open>k = length b + k'\<close> show ?case
      by (intro exI [of _ "b # bs"] exI [of _ rest']) auto
  qed
  from 1(2) obtain t data' where data: "data = t # data'" by (cases data) auto
  consider "t = 0xFE" | "t = 0x00" | "t \<notin> {0x00, 0xFE}" by blast
  then show ?case
  proof cases
    case 1
    with \<open>scan TagState data = Some k\<close> data show ?thesis
      by (intro exI [of _ "[]"] exI [of _ data']) (simp add: tlv_tags)
  next
    case 2
    with step [of "[0x00]" data'] data show ?thesis by (simp add: raw_block.raw_null)
  next
    case 3
    with \<open>scan TagState data = Some k\<close> data obtain k1 where k1: "scan LengthState data' = Some k1"
      by (auto simp: tlv_tags)
    have "\<exists>l n rest. data' = l @ rest \<and> len_field l n"
    proof (cases data')
      case (Cons x xs)
      show ?thesis
      proof (cases "x < 0xFF")
        case True
        with Cons show ?thesis
          by (intro exI [of _ "[x]"] exI [of _ "ucast x"] exI [of _ xs]) (auto intro: len_field.short)
      next
        case False
        then have "x = 0xFF"
          using u8_unat_lt [of x]
          by (simp add: word_less_nat_alt word_unat_eq_iff del: u8_unat_lt)
        moreover from this k1 Cons obtain hi lo rest where "xs = hi # lo # rest"
          by (cases xs; cases "tl xs") auto
        ultimately show ?thesis using Cons len_field.long [of hi lo]
          by (intro exI [of _ "[0xFF, hi, lo]"] exI [of _ "u16_from_be_bytes hi lo"]
              exI [of _ rest]) auto
      qed
    qed (use k1 in simp)
    then obtain l n rest where l: "data' = l @ rest" "len_field l n" by blast
    with k1 have "scan (after_length n) rest \<noteq> None"
      by (auto simp: scan_length_field)
    then have "unat n \<le> length rest"
      using scan_value_short [of rest n] by (cases "n = 0") (auto simp: after_length_def not_less [symmetric])
    then have "raw_block (t # l @ take (unat n) rest)"
      using 3 l by (intro raw_block.raw_tlv) auto
    then show ?thesis
      using step [of "t # l @ take (unat n) rest" "drop (unat n) rest"] data l by simp
  qed
qed

section \<open>Early stopping does not change the parse\<close>

lemma parse_data_value_local:
  assumes "len_field l n" and "length v = unat n"
  shows "parse_data_value bl (pre @ l @ v @ rest) (length pre) =
         parse_data_value bl (pre @ l @ v) (length pre)"
    and "parse_data_value bl (pre @ l @ v @ rest) (length pre) = Ok (w, offset') \<Longrightarrow>
         offset' = length pre + length l + length v"
  using assms len_field_parse [OF assms(1), of pre "v @ rest"] len_field_parse [OF assms(1), of pre v]
  by (simp_all add: parse_data_value_def Let_def res_bind_Ok_iff)

lemma parse_control_value_local:
  assumes "len_field l n" and "length v = unat n"
  shows "parse_control_value (pre @ l @ v @ rest) (length pre) =
         parse_control_value (pre @ l @ v) (length pre)"
    and "parse_control_value (pre @ l @ v @ rest) (length pre) = Ok (w, offset') \<Longrightarrow>
         offset' = length pre + length l + length v"
  using assms len_field_parse [OF assms(1), of pre "v @ rest"] len_field_parse [OF assms(1), of pre v]
  by (auto simp: parse_control_value_def Let_def res_bind_Ok_iff nth_append split: if_splits)

lemma parse_raw_block_local:
  assumes "raw_block b"
  shows "parse_tlv_at bl (pre @ b @ rest) (length pre) = parse_tlv_at bl (pre @ b) (length pre)"
  using assms
proof (cases rule: raw_block.cases)
  case (raw_tlv t l n v)
  note locals = parse_data_value_local(1) [OF raw_tlv(3,4), of bl "pre @ [t]" rest]
    parse_control_value_local(1) [OF raw_tlv(3,4), of "pre @ [t]" rest]
    len_field_parse [OF raw_tlv(3), of "pre @ [t]" "v @ rest"]
    len_field_parse [OF raw_tlv(3), of "pre @ [t]" v]
  from raw_tlv(1,2,4) locals [simplified] show ?thesis
    by (auto simp: parse_tlv_at_def nth_append tlv_tags Let_def)
qed (simp add: parse_tlv_at_def tlv_tags nth_append)

lemma parse_raw_block_end:
  assumes "raw_block b" and "parse_tlv_at bl (pre @ b @ rest) (length pre) = Ok (r, offset')"
  shows "offset' = length pre + length b \<and> r \<noteq> Some Terminator"
  using assms(1)
proof (cases rule: raw_block.cases)
  case (raw_tlv t l n v)
  have ends: "parse_data_value bl (pre @ u # l @ v @ rest) (Suc (length pre)) = Ok (w, i) \<Longrightarrow>
      i = Suc (length pre + (length l + length v))"
    "parse_control_value (pre @ u # l @ v @ rest) (Suc (length pre)) = Ok (x, i) \<Longrightarrow>
      i = Suc (length pre + (length l + length v))" for u w x i
    using parse_data_value_local(2) [OF raw_tlv(3,4), of bl "pre @ [u]" rest w i]
      parse_control_value_local(2) [OF raw_tlv(3,4), of "pre @ [u]" rest x i] by simp_all
  have len: "t2_parse_tlv_length (pre @ t # l @ v @ rest) (Suc (length pre)) = Ok (n, length l)"
    using len_field_parse [OF raw_tlv(3), of "pre @ [t]" "v @ rest"] by simp
  from assms(2) raw_tlv(1,2,4) show ?thesis
    by (auto simp: parse_tlv_at_def nth_append tlv_tags Let_def res_bind_Ok_iff len
        split: if_splits dest!: ends)
qed (use assms(2) in \<open>auto simp: parse_tlv_at_def tlv_tags nth_append\<close>)

lemma parse_into_stop_local:
  assumes "\<forall>b \<in> set bs. raw_block b"
  shows "parse_tlvs_into bl tvl (pre @ concat bs @ 0xFE # rest) (length pre) out =
         parse_tlvs_into bl tvl (pre @ concat bs @ [0xFE]) (length pre) out"
  using assms
proof (induction bs arbitrary: pre out)
  case Nil
  have "parse_tlv_at bl (pre @ 0xFE # xs) (length pre) = Ok (Some Terminator, Suc (length pre))" for xs
    by (simp add: parse_tlv_at_def tlv_tags)
  then show ?case
    by (simp add: parse_tlvs_into.simps [of bl tvl _ "length pre" out] split: prod.splits res.splits)
next
  case (Cons b bs)
  then have b: "raw_block b" and ne: "b \<noteq> []" by (auto elim: raw_block.cases)
  let ?tail = "\<lambda>xs. concat bs @ 0xFE # xs"
  have at: "parse_tlv_at bl (pre @ b @ ?tail rest) (length pre) =
      parse_tlv_at bl (pre @ b @ ?tail []) (length pre)"
    using parse_raw_block_local [OF b, of bl pre] by simp
  note end_at = parse_raw_block_end [OF b, of bl pre "?tail []"]
  have IH: "parse_tlvs_into bl tvl (pre @ b @ ?tail rest) (length pre + length b) out' =
      parse_tlvs_into bl tvl (pre @ b @ ?tail []) (length pre + length b) out'" for out'
    using Cons.IH [of "pre @ b" out'] Cons.prems by simp
  show ?case
    using ne at end_at IH
    by (simp add: parse_tlvs_into.simps [of bl tvl _ "length pre" out])
       (auto split: res.splits prod.splits option.splits)
qed

lemma scan_stop_parse:
  assumes "scan scanner_new data = Some k"
  shows "parse_tlvs bl tvl (take (Suc k) data) = parse_tlvs bl tvl data"
proof -
  from assms obtain bs rest where data: "data = concat bs @ 0xFE # rest"
    "\<forall>b \<in> set bs. raw_block b" "k = length (concat bs)"
    unfolding scanner_new_def by (blast dest: scan_Some_blocks)
  then have "take (Suc k) data = concat bs @ [0xFE]" by simp
  with data parse_into_stop_local [OF data(2), of bl tvl "[]" rest] show ?thesis
    by (simp add: parse_tlvs_def fill_new_def)
qed

lemma scan_None_no_terminator:
  "tlv_stream data ts \<Longrightarrow> (Terminator \<in> set ts) = (scan TagState data \<noteq> None)"
  by (induction rule: tlv_stream.induct)
     (auto simp: scan_raw_block tlv_block_raw tlv_tags)

section \<open>Properties\<close>

text \<open>
  C18. Stopping the read at the byte where the scanner reports the Terminator loses nothing: the
  parser gives the same result, errors included, on the bytes up to that one as on the whole data
  area; and on a well-formed area the scanner reports a Terminator exactly when the parser finds
  one.
\<close>

theorem scanner_early_stop:
  "(scan scanner_new data = Some k \<longrightarrow>
      parse_tlvs bl tvl (take (Suc k) data) = parse_tlvs bl tvl data) \<and>
   (vec_lib_ok bl \<longrightarrow> vec_lib_ok tvl \<longrightarrow> parse_tlvs bl tvl data = Ok ts \<longrightarrow>
      (Terminator \<in> set ts) = (scan scanner_new data \<noteq> None))"
  using scan_stop_parse scan_None_no_terminator [of data ts]
  by (auto simp: parse_tlvs_iff scanner_new_def)

theorem scanner_early_stop_witness:
  "parse_tlvs heapless_lib heapless_lib (take (Suc 3) [0x03, 0x01, 0xFE, 0xFE, 0x03]) =
   parse_tlvs heapless_lib heapless_lib [0x03, 0x01, 0xFE, 0xFE, 0x03]"
proof -
  have "scan scanner_new [0x03, 0x01, 0xFE, 0xFE, 0x03] = Some 3"
    by (simp add: scanner_new_def tlv_tags numeral_3_eq_3)
  with scanner_early_stop show ?thesis by blast
qed

end
