(* ===== verification/Mocks.thy ===== *)
theory Mocks
  imports Type2 Geometry
begin

text \<open>
  The transceivers the tests of \<open>src/src/type2/reader.rs\<close> implement the trait with: a flat memory
  of one sector (\<open>MockTransceiver\<close>), wrappers of it that count the commands (\<open>CountingTransceiver\<close>)
  or fail the first ones (\<open>FailingTransceiver\<close>), a flat memory that counts the WRITE commands
  (\<open>RecordingTransceiver\<close>), and a tag with sectors that an induced failure resets to sector 0
  (\<open>SectorResetTransceiver\<close>). They are concrete instances of the parameter \<open>T\<close> of the reader.

  The array \<open>[u8; 1024]\<close> of a mock is a function from indices to bytes, read below 1024 only.
  \<open>SectorResetTransceiver\<close> reads \<open>cmd[0]\<close> of the second SECTOR SELECT packet; on an empty slice that
  would panic, but the only caller is \<open>force_sector_select\<close>, which sends four bytes, and \<open>cmd ! 0\<close> is
  the first of them.
\<close>

section \<open>Flat memory\<close>

definition MOCK_MEMORY_SIZE :: nat where "MOCK_MEMORY_SIZE = 1024"

record recording_transceiver =
  memory :: "nat \<Rightarrow> u8"
  writes :: nat

definition recording_new :: recording_transceiver where
  "recording_new = \<lparr>memory = (\<lambda>_. 0), writes = 0\<rparr>"

definition recording_setup :: "u8 \<Rightarrow> recording_transceiver \<Rightarrow> recording_transceiver" where
  "recording_setup size_f m = m\<lparr>memory := (memory m)
     (12 := 0xE1, 13 := 0x10, 14 := size_f, 15 := 0x00, 16 := 0x03, 17 := 0x00, 18 := 0xFE)\<rparr>"

definition setup_proprietary_before_ndef :: "recording_transceiver \<Rightarrow> recording_transceiver" where
  "setup_proprietary_before_ndef m = m\<lparr>memory := (memory m)
     (12 := 0xE1, 13 := 0x10, 14 := 0x0C, 15 := 0x00, 16 := 0xFD, 17 := 86,
      104 := 0x03, 105 := 0x00, 106 := 0xFE, 112 := 0xA5)\<rparr>"

text \<open>The sixteen bytes of a READ, padded with zeros at the end of the memory.\<close>

definition flat_read :: "(nat \<Rightarrow> u8) \<Rightarrow> u8 \<Rightarrow> u8 list" where
  "flat_read mem block_no =
     (let start = unat block_no * BLOCK_SIZE; stop = min (start + 16) MOCK_MEMORY_SIZE
      in map mem [start..<stop] @ replicate (16 - (stop - start)) 0)"

fun flat_write :: "(nat \<Rightarrow> u8) \<Rightarrow> u8 \<Rightarrow> bytes4 \<Rightarrow> nat \<Rightarrow> u8" where
  "flat_write mem block_no (a, b, c, d) =
     (let start = unat block_no * BLOCK_SIZE in
      if start + 4 \<le> MOCK_MEMORY_SIZE
      then mem(start := a, start + 1 := b, start + 2 := c, start + 3 := d) else mem)"

definition recording_transceive ::
  "u8 list \<Rightarrow> recording_transceiver \<Rightarrow> (unit + u8 list) \<times> recording_transceiver" where
  "recording_transceive cmd m =
     (case command_try_from cmd of
        Ok (Read block_no) \<Rightarrow> (Inr (flat_read (memory m) block_no), m)
      | Ok (Write block_no data) \<Rightarrow>
          (Inr [ACK], m\<lparr>memory := flat_write (memory m) block_no data, writes := writes m + 1\<rparr>)
      | Ok SectorSelectPart1 \<Rightarrow> (Inr [ACK], m)
      | Ok (SectorSelectPart2 _) \<Rightarrow> (Inl (), m)
      | _ \<Rightarrow> (Inl (), m))"

definition recording_no_response ::
  "u8 list \<Rightarrow> recording_transceiver \<Rightarrow> (unit + u8 option) \<times> recording_transceiver" where
  "recording_no_response cmd m = (Inr None, m)"

definition recording :: "(recording_transceiver, unit) t2t_transceiver" where
  "recording = \<lparr>transceive = recording_transceive, transceive_no_response = recording_no_response\<rparr>"

section \<open>The flat memory alone, counted, and failing\<close>

record mock_transceiver =
  mock_memory :: "nat \<Rightarrow> u8"

definition mock_new :: mock_transceiver where
  "mock_new = \<lparr>mock_memory = (\<lambda>_. 0)\<rparr>"

definition setup_static_initialized :: "mock_transceiver \<Rightarrow> mock_transceiver" where
  "setup_static_initialized m = m\<lparr>mock_memory := (mock_memory m)
     (12 := 0xE1, 13 := 0x10, 14 := 0x06, 15 := 0x00, 16 := 0x03, 17 := 0x00, 18 := 0xFE)\<rparr>"

definition setup_static_with_ndef :: "mock_transceiver \<Rightarrow> mock_transceiver" where
  "setup_static_with_ndef m =
     (let m1 = setup_static_initialized m in
      m1\<lparr>mock_memory := (mock_memory m1)
        (16 := 0x03, 17 := 0x03, 18 := 0xD0, 19 := 0x00, 20 := 0x00, 21 := 0xFE)\<rparr>)"

definition mock_transceive ::
  "u8 list \<Rightarrow> mock_transceiver \<Rightarrow> (unit + u8 list) \<times> mock_transceiver" where
  "mock_transceive cmd m =
     (case command_try_from cmd of
        Ok (Read block_no) \<Rightarrow> (Inr (flat_read (mock_memory m) block_no), m)
      | Ok (Write block_no data) \<Rightarrow>
          (Inr [ACK], m\<lparr>mock_memory := flat_write (mock_memory m) block_no data\<rparr>)
      | Ok SectorSelectPart1 \<Rightarrow> (Inr [ACK], m)
      | Ok (SectorSelectPart2 _) \<Rightarrow> (Inl (), m)
      | _ \<Rightarrow> (Inl (), m))"

definition mock_no_response ::
  "u8 list \<Rightarrow> mock_transceiver \<Rightarrow> (unit + u8 option) \<times> mock_transceiver" where
  "mock_no_response cmd m = (Inr None, m)"

definition mock :: "(mock_transceiver, unit) t2t_transceiver" where
  "mock = \<lparr>transceive = mock_transceive, transceive_no_response = mock_no_response\<rparr>"

record counting_transceiver =
  counted_mock :: mock_transceiver
  transceive_count :: nat

definition counting_new :: counting_transceiver where
  "counting_new = \<lparr>counted_mock = mock_new, transceive_count = 0\<rparr>"

definition counting_transceive ::
  "u8 list \<Rightarrow> counting_transceiver \<Rightarrow> (unit + u8 list) \<times> counting_transceiver" where
  "counting_transceive cmd m =
     (case mock_transceive cmd (counted_mock m) of (x, inner) \<Rightarrow>
        (x, m\<lparr>counted_mock := inner, transceive_count := transceive_count m + 1\<rparr>))"

definition counting_no_response ::
  "u8 list \<Rightarrow> counting_transceiver \<Rightarrow> (unit + u8 option) \<times> counting_transceiver" where
  "counting_no_response cmd m =
     (case mock_no_response cmd (counted_mock m) of (x, inner) \<Rightarrow> (x, m\<lparr>counted_mock := inner\<rparr>))"

definition counting :: "(counting_transceiver, unit) t2t_transceiver" where
  "counting = \<lparr>transceive = counting_transceive, transceive_no_response = counting_no_response\<rparr>"

record failing_transceiver =
  failing_mock :: mock_transceiver
  failures_remaining :: nat
  attempts :: nat

definition failing_new :: "nat \<Rightarrow> failing_transceiver" where
  "failing_new fail_count =
     \<lparr>failing_mock = mock_new, failures_remaining = fail_count, attempts = 0\<rparr>"

definition failing_transceive ::
  "u8 list \<Rightarrow> failing_transceiver \<Rightarrow> (unit + u8 list) \<times> failing_transceiver" where
  "failing_transceive cmd m =
     (let m1 = m\<lparr>attempts := attempts m + 1\<rparr> in
      if failures_remaining m1 > 0
      then (Inl (), m1\<lparr>failures_remaining := failures_remaining m1 - 1\<rparr>)
      else (case mock_transceive cmd (failing_mock m1) of (x, inner) \<Rightarrow> (x, m1\<lparr>failing_mock := inner\<rparr>)))"

definition failing_no_response ::
  "u8 list \<Rightarrow> failing_transceiver \<Rightarrow> (unit + u8 option) \<times> failing_transceiver" where
  "failing_no_response cmd m =
     (case mock_no_response cmd (failing_mock m) of (x, inner) \<Rightarrow> (x, m\<lparr>failing_mock := inner\<rparr>))"

definition failing :: "(failing_transceiver, unit) t2t_transceiver" where
  "failing = \<lparr>transceive = failing_transceive, transceive_no_response = failing_no_response\<rparr>"

section \<open>A tag that loses its sector\<close>

record sector_reset_transceiver =
  tag_sector :: u8
  fail_in :: nat
  applied_writes :: "(u8 \<times> u8 \<times> bytes4) list"
  selects :: nat
  fail_packet2 :: bool

definition sector_reset_new :: sector_reset_transceiver where
  "sector_reset_new = \<lparr>tag_sector = 0, fail_in = 0, applied_writes = [], selects = 0,
     fail_packet2 = False\<rparr>"

definition sector_reset_transceive ::
  "u8 list \<Rightarrow> sector_reset_transceiver \<Rightarrow> (unit + u8 list) \<times> sector_reset_transceiver" where
  "sector_reset_transceive cmd m =
     (case command_try_from cmd of
        Err _ \<Rightarrow> (Inl (), m)
      | Panic \<Rightarrow> (Inl (), m)
      | Ok command \<Rightarrow>
          let m1 = m\<lparr>fail_in := fail_in m - 1\<rparr> in
          if fail_in m = 1 then (Inl (), m1\<lparr>tag_sector := 0\<rparr>)
          else (case command of
              Read _ \<Rightarrow> (Inr (replicate 16 0), m1)
            | Write block_no data \<Rightarrow>
                (Inr [ACK], if length (applied_writes m1) < 8
                   then m1\<lparr>applied_writes := applied_writes m1 @ [(tag_sector m1, block_no, data)]\<rparr>
                   else m1)
            | SectorSelectPart1 \<Rightarrow> (Inr [ACK], m1)
            | SectorSelectPart2 _ \<Rightarrow> (Inl (), m1)))"

definition sector_reset_no_response ::
  "u8 list \<Rightarrow> sector_reset_transceiver \<Rightarrow> (unit + u8 option) \<times> sector_reset_transceiver" where
  "sector_reset_no_response cmd m =
     (if fail_packet2 m then (Inl (), m)
      else (Inr None, m\<lparr>tag_sector := cmd ! 0, selects := selects m + 1\<rparr>))"

definition sector_reset :: "(sector_reset_transceiver, unit) t2t_transceiver" where
  "sector_reset = \<lparr>transceive = sector_reset_transceive,
     transceive_no_response = sector_reset_no_response\<rparr>"

text \<open>The same tag, refusing every second packet.\<close>

definition nack_p2_no_response ::
  "u8 list \<Rightarrow> sector_reset_transceiver \<Rightarrow> (unit + u8 option) \<times> sector_reset_transceiver" where
  "nack_p2_no_response cmd m = (Inr (Some 0x00), m)"

definition nack_p2 :: "(sector_reset_transceiver, unit) t2t_transceiver" where
  "nack_p2 = \<lparr>transceive = sector_reset_transceive,
     transceive_no_response = nack_p2_no_response\<rparr>"

end
