(* ===== verification/Reader.thy ===== *)
theory Reader
  imports Layout Scanner Mocks
begin

text \<open>
  \<open>T2TReader\<close> of \<open>src/src/type2/reader.rs\<close>: the state of the reader, the retry and sector logic,
  the read cache and the block commands. The data area and the NDEF procedures follow in
  \<open>Data_Area\<close> and \<open>Ndef\<close>.

  Every operation takes the transceiver \<open>T\<close> (the implementation of the trait) and the build \<open>B\<close>
  (the vector libraries) and maps a reader state to a result and a new reader state. The loops of
  the source are recursive functions; each is proved to terminate for every transceiver.
\<close>

section \<open>Definitions\<close>

datatype 'e reader_error = Transceiver 'e | Protocol type2_error

definition DEFAULT_MAX_RETRIES :: u8 where "DEFAULT_MAX_RETRIES = 1"

datatype sector_state = Known u8 | Unknown

record 't reader =
  transceiver :: 't
  sector :: sector_state
  cache_block :: "u8 option"
  cache_data :: "u8 list"
  max_retries :: u8

type_synonym ('t, 'e, 'a) rop = "('t reader, 'e reader_error, 'a) op"

definition reader_new :: "'t \<Rightarrow> 't reader" where
  "reader_new t = \<lparr>transceiver = t, sector = Known 0, cache_block = None,
     cache_data = replicate 16 0, max_retries = DEFAULT_MAX_RETRIES\<rparr>"

definition set_max_retries :: "u8 \<Rightarrow> 't reader \<Rightarrow> 't reader" where
  "set_max_retries n r = r\<lparr>max_retries := n\<rparr>"

definition current_sector :: "'t reader \<Rightarrow> u8 option" where
  "current_sector r = (case sector r of Known s \<Rightarrow> Some s | Unknown \<Rightarrow> None)"

text \<open>
  \<open>transceiver()\<close> hands out the transceiver, on which the caller may run any custom command \<open>f\<close>.
\<close>

definition with_transceiver :: "('t \<Rightarrow> 'a \<times> 't) \<Rightarrow> 't reader \<Rightarrow> 'a \<times> 't reader" where
  "with_transceiver f r = (case f (transceiver r) of (x, t) \<Rightarrow> (x, r\<lparr>transceiver := t\<rparr>))"

definition invalidate_cache :: "'t reader \<Rightarrow> 't reader" where
  "invalidate_cache r = r\<lparr>cache_block := None\<rparr>"

definition mark_tag_state_unknown :: "'t reader \<Rightarrow> 't reader" where
  "mark_tag_state_unknown r = invalidate_cache (r\<lparr>sector := Unknown\<rparr>)"

subsection \<open>Calls of the transceiver\<close>

definition call_transceive ::
  "('t, 'e) t2t_transceiver \<Rightarrow> u8 list \<Rightarrow> 't reader \<Rightarrow> ('e + u8 list) \<times> 't reader" where
  "call_transceive T cmd r =
     (case transceive T cmd (transceiver r) of (x, t) \<Rightarrow> (x, r\<lparr>transceiver := t\<rparr>))"

definition call_no_response ::
  "('t, 'e) t2t_transceiver \<Rightarrow> u8 list \<Rightarrow> 't reader \<Rightarrow> ('e + u8 option) \<times> 't reader" where
  "call_no_response T cmd r =
     (case transceive_no_response T cmd (transceiver r) of (x, t) \<Rightarrow> (x, r\<lparr>transceiver := t\<rparr>))"

subsection \<open>Sector selection\<close>

definition force_sector_select ::
  "('t, 'e) t2t_transceiver \<Rightarrow> build \<Rightarrow> u8 \<Rightarrow> ('t, 'e, unit) rop" where
  "force_sector_select T B s r =
     (if s > MAX_SECTOR then (Err (Protocol OutOfRange), r)
      else let r1 = (invalidate_cache r)\<lparr>sector := Unknown\<rparr> in
      case call_transceive T (command_to_bytes (bytes_lib B) SectorSelectPart1) r1 of
        (Inl e, r2) \<Rightarrow> (Err (Transceiver e), r2)
      | (Inr raw, r2) \<Rightarrow>
         (case parse_answer SectorSelectPart1 raw of
            Err e \<Rightarrow> (Err (Protocol e), r2)
          | Panic \<Rightarrow> (Panic, r2)
          | Ok Ack \<Rightarrow>
             (case call_no_response T
                (command_to_bytes (bytes_lib B) (SectorSelectPart2 s)) r2 of
                (Inl e, r3) \<Rightarrow> (Err (Transceiver e), r3)
              | (Inr (Some nack_code), r3) \<Rightarrow> (Err (Protocol (NackError nack_code)), r3)
              | (Inr None, r3) \<Rightarrow> (Ok (), r3\<lparr>sector := Known s\<rparr>))
          | Ok (Nack code) \<Rightarrow> (Err (Protocol (NackError code)), r2)
          | Ok _ \<Rightarrow> (Err (Protocol InvalidLength), r2)))"

definition sector_select ::
  "('t, 'e) t2t_transceiver \<Rightarrow> build \<Rightarrow> u8 \<Rightarrow> ('t, 'e, unit) rop" where
  "sector_select T B s r =
     (if s > MAX_SECTOR then (Err (Protocol OutOfRange), r)
      else if sector r = Known s then (Ok (), r)
      else force_sector_select T B s r)"

subsection \<open>Transceiving with retries\<close>

text \<open>
  What an attempt does before it transmits: nothing on the first one; on a later one the intended
  sector is selected again, or the loop is left (\<open>Ok False\<close>) when there was no known sector.
\<close>

definition retry_recover ::
  "('t, 'e) t2t_transceiver \<Rightarrow> build \<Rightarrow> sector_state \<Rightarrow> nat \<Rightarrow> ('t, 'e, bool) rop" where
  "retry_recover T B intended attempt r =
     (if attempt > 0 then
        (case intended of
           Known s \<Rightarrow> op_bind (force_sector_select T B s) (\<lambda>_. op_return True) r
         | Unknown \<Rightarrow> (Ok False, r))
      else (Ok True, r))"

definition report_last_err :: "'e option \<Rightarrow> ('t, 'e, 'a) rop" where
  "report_last_err last_err r =
     (case last_err of Some e \<Rightarrow> (Err (Transceiver e), r) | None \<Rightarrow> (Panic, r))"

text \<open>The loop over \<open>0..=max_retries\<close>, with \<open>n\<close> iterations left.\<close>

fun retry_loop :: "('t, 'e) t2t_transceiver \<Rightarrow> build \<Rightarrow> sector_state \<Rightarrow> u8 list \<Rightarrow>
    nat \<Rightarrow> nat \<Rightarrow> 'e option \<Rightarrow> ('t, 'e, u8 list) rop" where
  "retry_loop T B intended cmd attempt 0 last_err r = report_last_err last_err r"
| "retry_loop T B intended cmd attempt (Suc n) last_err r =
     (case retry_recover T B intended attempt r of
        (Err e, r1) \<Rightarrow> (Err e, r1)
      | (Panic, r1) \<Rightarrow> (Panic, r1)
      | (Ok False, r1) \<Rightarrow> report_last_err last_err r1
      | (Ok True, r1) \<Rightarrow>
          (case call_transceive T cmd r1 of
             (Inr raw, r2) \<Rightarrow> (Ok raw, r2)
           | (Inl e, r2) \<Rightarrow>
               retry_loop T B intended cmd (Suc attempt) n (Some e)
                 (invalidate_cache (r2\<lparr>sector := Unknown\<rparr>))))"

definition transceive_with_retry ::
  "('t, 'e) t2t_transceiver \<Rightarrow> build \<Rightarrow> u8 list \<Rightarrow> ('t, 'e, u8 list) rop" where
  "transceive_with_retry T B cmd r =
     retry_loop T B (sector r) cmd 0 (unat (max_retries r) + 1) None r"

subsection \<open>Block commands\<close>

definition read_block :: "('t, 'e) t2t_transceiver \<Rightarrow> build \<Rightarrow> u8 \<Rightarrow> ('t, 'e, u8 list) rop" where
  "read_block T B block_no r =
     (if cache_block r = Some block_no then (Ok (cache_data r), r)
      else op_bind (transceive_with_retry T B (command_to_bytes (bytes_lib B) (Read block_no)))
        (\<lambda>raw r1. case parse_answer (Read block_no) raw of
             Err e \<Rightarrow> (Err (Protocol e), r1)
           | Panic \<Rightarrow> (Panic, r1)
           | Ok (Data data) \<Rightarrow>
               (Ok data, r1\<lparr>cache_block := Some block_no, cache_data := data\<rparr>)
           | Ok (Nack code) \<Rightarrow> (Err (Protocol (NackError code)), r1)
           | Ok _ \<Rightarrow> (Err (Protocol InvalidLength), r1)) r)"

definition write_block ::
  "('t, 'e) t2t_transceiver \<Rightarrow> build \<Rightarrow> u8 \<Rightarrow> bytes4 \<Rightarrow> ('t, 'e, unit) rop" where
  "write_block T B block_no data =
     op_bind (transceive_with_retry T B (command_to_bytes (bytes_lib B) (Write block_no data)))
       (\<lambda>raw r1. let r2 = invalidate_cache r1 in
          case parse_answer (Write block_no data) raw of
            Err e \<Rightarrow> (Err (Protocol e), r2)
          | Panic \<Rightarrow> (Panic, r2)
          | Ok Ack \<Rightarrow> (Ok (), r2)
          | Ok (Nack code) \<Rightarrow> (Err (Protocol (NackError code)), r2)
          | Ok _ \<Rightarrow> (Err (Protocol InvalidLength), r2))"

definition read_cc ::
  "('t, 'e) t2t_transceiver \<Rightarrow> build \<Rightarrow> ('t, 'e, capability_container) rop" where
  "read_cc T B =
     op_bind (sector_select T B 0) (\<lambda>_.
     op_bind (read_block T B CC_BLOCK) (\<lambda>data.
     op_lift (res_bind (index data 0) (\<lambda>b0. res_bind (index data 1) (\<lambda>b1.
              res_bind (index data 2) (\<lambda>b2. res_bind (index data 3) (\<lambda>b3.
              map_err Protocol (cc_try_from (b0, b1, b2, b3)))))))))"

section \<open>What the reader transmits\<close>

text \<open>
  \<open>traced T\<close> is the transceiver \<open>T\<close> with a log of what was transmitted and received. The relations
  below are the protocol the reader follows, as sequences of such events with their outcome.
\<close>

datatype 'e event =
    Sent "u8 list" "'e + u8 list"
  | Sent_No_Response "u8 list" "'e + u8 option"

definition traced :: "('t, 'e) t2t_transceiver \<Rightarrow> ('t \<times> 'e event list, 'e) t2t_transceiver" where
  "traced T = \<lparr>
     transceive = (\<lambda>cmd (t, lg). case transceive T cmd t of (x, t') \<Rightarrow> (x, (t', lg @ [Sent cmd x]))),
     transceive_no_response = (\<lambda>cmd (t, lg). case transceive_no_response T cmd t of
       (x, t') \<Rightarrow> (x, (t', lg @ [Sent_No_Response cmd x])))\<rparr>"

abbreviation event_log :: "('t \<times> 'e event list) reader \<Rightarrow> 'e event list" where
  "event_log r \<equiv> snd (transceiver r)"

text \<open>The two packets of SECTOR SELECT and their outcomes.\<close>

inductive select_run :: "u8 \<Rightarrow> 'e event list \<Rightarrow> ('e reader_error, unit) res \<Rightarrow> bool" where
  no_answer: "select_run s [Sent [0xC2, 0xFF] (Inl e)] (Err (Transceiver e))"
| garbled: "parse_ack raw = Err e \<Longrightarrow>
    select_run s [Sent [0xC2, 0xFF] (Inr raw)] (Err (Protocol e))"
| rejected: "parse_ack raw = Ok (Nack c) \<Longrightarrow>
    select_run s [Sent [0xC2, 0xFF] (Inr raw)] (Err (Protocol (NackError c)))"
| packet2_failed: "parse_ack raw = Ok Ack \<Longrightarrow>
    select_run s [Sent [0xC2, 0xFF] (Inr raw), Sent_No_Response [s, 0, 0, 0] (Inl e)]
      (Err (Transceiver e))"
| packet2_nack: "parse_ack raw = Ok Ack \<Longrightarrow>
    select_run s [Sent [0xC2, 0xFF] (Inr raw), Sent_No_Response [s, 0, 0, 0] (Inr (Some c))]
      (Err (Protocol (NackError c)))"
| selected: "parse_ack raw = Ok Ack \<Longrightarrow>
    select_run s [Sent [0xC2, 0xFF] (Inr raw), Sent_No_Response [s, 0, 0, 0] (Inr None)] (Ok ())"

text \<open>
  A command with retries: \<open>n\<close> retries are left, and each one follows a complete, acknowledged
  selection of the sector the command was meant for.
\<close>

inductive retry_run :: "sector_state \<Rightarrow> u8 list \<Rightarrow> nat \<Rightarrow> 'e event list \<Rightarrow>
    ('e reader_error, u8 list) res \<Rightarrow> bool" where
  answered: "retry_run i cmd n [Sent cmd (Inr raw)] (Ok raw)"
| given_up: "i = Unknown \<or> n = 0 \<Longrightarrow> retry_run i cmd n [Sent cmd (Inl e)] (Err (Transceiver e))"
| retried: "select_run s sel (Ok ()) \<Longrightarrow> retry_run (Known s) cmd n es x \<Longrightarrow>
    retry_run (Known s) cmd (Suc n) (Sent cmd (Inl e) # sel @ es) x"
| sector_lost: "select_run s sel (Err err) \<Longrightarrow>
    retry_run (Known s) cmd (Suc n) (Sent cmd (Inl e) # sel) (Err err)"

inductive_cases select_run_OkE: "select_run s es (Ok u)"

lemma traced_simps [simp]:
  "transceive (traced T) cmd (t, lg) =
     (case transceive T cmd t of (x, t') \<Rightarrow> (x, (t', lg @ [Sent cmd x])))"
  "transceive_no_response (traced T) cmd (t, lg) =
     (case transceive_no_response T cmd t of (x, t') \<Rightarrow> (x, (t', lg @ [Sent_No_Response cmd x])))"
  by (simp_all add: traced_def)

lemma parse_ack_Ok_cases:
  obtains "parse_ack raw = Ok Ack" | c where "parse_ack raw = Ok (Nack c)"
  | e where "parse_ack raw = Err e"
  using parse_ack_cases [of raw] parse_answer_no_Panic [of SectorSelectPart1 raw]
  by (cases "parse_ack raw") auto

lemma call_traced:
  "call_transceive (traced T) cmd r = (x, r') \<Longrightarrow>
     \<exists>t'. r' = r\<lparr>transceiver := (t', event_log r @ [Sent cmd x])\<rparr>"
  "call_no_response (traced T) cmd r = (y, r'') \<Longrightarrow>
     \<exists>t'. r'' = r\<lparr>transceiver := (t', event_log r @ [Sent_No_Response cmd y])\<rparr>"
  by (cases "transceiver r"; auto simp: call_transceive_def call_no_response_def split: prod.splits)+

lemma force_sector_select_eq:
  assumes "vec_lib_ok (bytes_lib B)" and "s \<le> MAX_SECTOR"
  shows "force_sector_select T B s r =
    (case call_transceive T [0xC2, 0xFF] ((invalidate_cache r)\<lparr>sector := Unknown\<rparr>) of
        (Inl e, r2) \<Rightarrow> (Err (Transceiver e), r2)
      | (Inr raw, r2) \<Rightarrow>
         (case parse_ack raw of
            Err e \<Rightarrow> (Err (Protocol e), r2)
          | Panic \<Rightarrow> (Panic, r2)
          | Ok Ack \<Rightarrow>
             (case call_no_response T [s, 0, 0, 0] r2 of
                (Inl e, r3) \<Rightarrow> (Err (Transceiver e), r3)
              | (Inr (Some nack_code), r3) \<Rightarrow> (Err (Protocol (NackError nack_code)), r3)
              | (Inr None, r3) \<Rightarrow> (Ok (), r3\<lparr>sector := Known s\<rparr>))
          | Ok (Nack code) \<Rightarrow> (Err (Protocol (NackError code)), r2)
          | Ok _ \<Rightarrow> (Err (Protocol InvalidLength), r2)))"
  using leD [OF assms(2)]
  unfolding force_sector_select_def command_to_bytes_wire [OF assms(1)] wire.simps
    parse_answer.simps Let_def
  by simp

lemma force_sector_select_run:
  assumes "vec_lib_ok (bytes_lib B)" and "s \<le> MAX_SECTOR"
    and "force_sector_select (traced T) B s r = (x, r')"
  shows "\<exists>es. select_run s es x \<and> event_log r' = event_log r @ es \<and>
    cache_block r' = None \<and> sector r' = (if x = Ok () then Known s else Unknown) \<and>
    cache_data r' = cache_data r \<and> max_retries r' = max_retries r"
proof -
  define r1 where "r1 = (invalidate_cache r)\<lparr>sector := Unknown\<rparr>"
  obtain y r2 where call1: "call_transceive (traced T) [0xC2, 0xFF] r1 = (y, r2)"
    by fastforce
  then obtain t2 where r2: "r2 = r1\<lparr>transceiver := (t2, event_log r @ [Sent [0xC2, 0xFF] y])\<rparr>"
    using call_traced(1) [OF call1] by (auto simp: r1_def invalidate_cache_def)
  note run = assms(3) [unfolded force_sector_select_eq [OF assms(1,2)], folded r1_def,
      unfolded call1]
  note simps = r2 r1_def invalidate_cache_def
  show ?thesis
  proof (cases y)
    case (Inl e)
    with run show ?thesis
      by (auto simp: simps intro: select_run.intros)
  next
    case (Inr raw)
    show ?thesis
    proof (cases rule: parse_ack_Ok_cases [of raw])
      case 1
      obtain z r3 where call2: "call_no_response (traced T) [s, 0, 0, 0] r2 = (z, r3)"
        by fastforce
      then obtain t3 where r3: "r3 = r2\<lparr>transceiver := (t3, event_log r2 @
          [Sent_No_Response [s, 0, 0, 0] z])\<rparr>"
        using call_traced(2) [OF call2] by auto
      show ?thesis
        using run Inr 1 call2
        by (auto simp: r3 simps intro: select_run.intros split: sum.splits option.splits)
    qed (use run Inr in \<open>auto simp: simps intro: select_run.intros\<close>)
  qed
qed

text \<open>An attempt of the loop after its recovery.\<close>

definition retry_send :: "('t, 'e) t2t_transceiver \<Rightarrow> build \<Rightarrow> sector_state \<Rightarrow> u8 list \<Rightarrow>
    nat \<Rightarrow> nat \<Rightarrow> ('t, 'e, u8 list) rop" where
  "retry_send T B intended cmd attempt n r =
     (case call_transceive T cmd r of
        (Inr raw, r2) \<Rightarrow> (Ok raw, r2)
      | (Inl e, r2) \<Rightarrow>
          retry_loop T B intended cmd (Suc attempt) n (Some e)
            (invalidate_cache (r2\<lparr>sector := Unknown\<rparr>)))"

lemma transceive_with_retry_eq:
  "transceive_with_retry T B cmd r = retry_send T B (sector r) cmd 0 (unat (max_retries r)) r"
  by (simp add: transceive_with_retry_def retry_send_def retry_recover_def)

lemma retry_loop_again:
  "retry_loop T B Unknown cmd (Suc attempt) (Suc n) (Some e) r = (Err (Transceiver e), r)"
  "retry_loop T B (Known s) cmd (Suc attempt) (Suc n) (Some e) r =
     op_bind (force_sector_select T B s) (\<lambda>_. retry_send T B (Known s) cmd (Suc attempt) n) r"
  "retry_loop T B i cmd (Suc attempt) 0 (Some e) r = (Err (Transceiver e), r)"
  by (simp_all add: retry_recover_def report_last_err_def op_defs retry_send_def
      split: prod.splits res.splits)

declare retry_loop.simps [simp del]

lemma retry_send_run:
  assumes "vec_lib_ok (bytes_lib B)" and "\<And>s. i = Known s \<Longrightarrow> s \<le> MAX_SECTOR"
    and "retry_send (traced T) B i cmd attempt n r = (x, r')" and "sector r = i"
  shows "\<exists>es. retry_run i cmd n es x \<and> event_log r' = event_log r @ es \<and>
    sector r' = (if \<exists>raw. x = Ok raw then i else Unknown) \<and>
    cache_block r' = (if \<exists>raw. es = [Sent cmd (Inr raw)] then cache_block r else None) \<and>
    cache_data r' = cache_data r \<and> max_retries r' = max_retries r"
  using assms(3,4)
proof (induction n arbitrary: r attempt)
  case (0 r attempt)
  obtain y r2 where call: "call_transceive (traced T) cmd r = (y, r2)" by fastforce
  then obtain t where r2: "r2 = r\<lparr>transceiver := (t, event_log r @ [Sent cmd y])\<rparr>"
    using call_traced(1) [OF call] by auto
  show ?case
  proof (cases y)
    case (Inl e)
    then have "x = Err (Transceiver e)" "r' = invalidate_cache (r2\<lparr>sector := Unknown\<rparr>)"
      using 0(1) call by (simp_all add: retry_send_def retry_loop_again)
    then show ?thesis
      using Inl retry_run.given_up [of i 0 cmd e]
      by (intro exI [of _ "[Sent cmd (Inl e)]"]) (simp add: r2 invalidate_cache_def)
  next
    case (Inr raw)
    then show ?thesis
      using 0 call retry_run.answered [of i cmd 0 raw]
      by (intro exI [of _ "[Sent cmd (Inr raw)]"]) (auto simp: retry_send_def r2)
  qed
next
  case (Suc n r attempt)
  obtain y r2 where call: "call_transceive (traced T) cmd r = (y, r2)" by fastforce
  then obtain t where r2: "r2 = r\<lparr>transceiver := (t, event_log r @ [Sent cmd y])\<rparr>"
    using call_traced(1) [OF call] by auto
  show ?case
  proof (cases y)
    case (Inr raw)
    then show ?thesis
      using Suc.prems call retry_run.answered [of i cmd "Suc n" raw]
      by (intro exI [of _ "[Sent cmd (Inr raw)]"]) (auto simp: retry_send_def r2)
  next
    case (Inl e)
    define r3 where "r3 = invalidate_cache (r2\<lparr>sector := Unknown\<rparr>)"
    have log3: "event_log r3 = event_log r @ [Sent cmd (Inl e)]"
      by (simp add: r3_def r2 invalidate_cache_def Inl)
    have keep3: "cache_data r3 = cache_data r" "max_retries r3 = max_retries r"
      "cache_block r3 = None" "sector r3 = Unknown"
      by (simp_all add: r3_def r2 invalidate_cache_def)
    have run: "retry_loop (traced T) B i cmd (Suc attempt) (Suc n) (Some e) r3 = (x, r')"
      using Suc.prems(1) call Inl by (simp add: retry_send_def r3_def)
    show ?thesis
    proof (cases i)
      case Unknown
      with run have "x = Err (Transceiver e)" "r' = r3"
        by (auto simp: retry_loop_again)
      then show ?thesis
        using log3 keep3 Unknown retry_run.given_up [of i "Suc n" cmd e]
        by (intro exI [of _ "[Sent cmd (Inl e)]"]) simp
    next
      case (Known s)
      obtain z r4 where sel: "force_sector_select (traced T) B s r3 = (z, r4)" by fastforce
      obtain es4 where es4: "select_run s es4 z" "event_log r4 = event_log r3 @ es4"
        "cache_block r4 = None" "sector r4 = (if z = Ok () then Known s else Unknown)"
        "cache_data r4 = cache_data r" "max_retries r4 = max_retries r"
        using force_sector_select_run [OF assms(1) assms(2) [OF Known] sel] keep3 by auto
      show ?thesis
      proof (cases z)
        case (Ok u)
        have "retry_send (traced T) B i cmd (Suc attempt) n r4 = (x, r')"
          using run sel by (simp add: Known retry_loop_again op_bind_def Ok)
        from Suc.IH [OF this] es4(4) Ok Known
        obtain es where "retry_run i cmd n es x" "event_log r' = event_log r4 @ es"
          "sector r' = (if \<exists>raw. x = Ok raw then i else Unknown)" "cache_block r' = None"
          "cache_data r' = cache_data r4" "max_retries r' = max_retries r4"
          using es4(3) by (auto split: if_splits)
        moreover have "retry_run i cmd (Suc n) (Sent cmd (Inl e) # es4 @ es) x"
          using calculation(1) es4(1) Known Ok by (auto intro: retry_run.retried)
        ultimately show ?thesis
          using es4 log3 by (intro exI [of _ "Sent cmd (Inl e) # es4 @ es"]) simp
      next
        case (Err err)
        then have "x = Err err" "r' = r4"
          using run sel by (auto simp: Known retry_loop_again op_bind_def)
        moreover have "retry_run i cmd (Suc n) (Sent cmd (Inl e) # es4) (Err err)"
          using es4(1) Known Err by (auto intro: retry_run.sector_lost)
        ultimately show ?thesis
          using es4 log3 Err by (intro exI [of _ "Sent cmd (Inl e) # es4"]) simp
      next
        case Panic
        with es4(1) show ?thesis by (auto elim: select_run.cases)
      qed
    qed
  qed
qed

section \<open>Well-formed readers\<close>

definition reader_wf :: "'t reader \<Rightarrow> bool" where
  "reader_wf r \<longleftrightarrow> length (cache_data r) = 16 \<and> sector r \<noteq> Known 255"

lemma reader_wf_new [simp]: "reader_wf (reader_new t)"
  by (simp add: reader_wf_def reader_new_def)

lemma le_MAX_SECTOR: "s \<le> MAX_SECTOR \<longleftrightarrow> s \<noteq> (255 :: u8)"
proof -
  have "unat s < 256" by simp
  then show ?thesis
    by (auto simp: MAX_SECTOR_def word_le_nat_alt word_unat_eq_iff simp del: u8_unat_lt)
qed

lemma force_sector_select_255:
  "force_sector_select T B 255 r = (Err (Protocol OutOfRange), r)"
  by (simp add: force_sector_select_def MAX_SECTOR_def)

text \<open>An operation that keeps the reader well-formed, never panics and returns only values in \<open>V\<close>.\<close>

definition wf_op :: "('t, 'e, 'a) rop \<Rightarrow> ('a \<Rightarrow> bool) \<Rightarrow> bool" where
  "wf_op m V \<longleftrightarrow> triple reader_wf m (\<lambda>x r. reader_wf r \<and> V x) (\<lambda>_. reader_wf)"

lemma wf_op_bind: "wf_op m V \<Longrightarrow> (\<And>x. V x \<Longrightarrow> wf_op (f x) W) \<Longrightarrow> wf_op (op_bind m f) W"
  unfolding wf_op_def by (rule triple_bind, assumption) (auto simp: triple_def)

lemma wf_op_lift: "r \<noteq> Panic \<Longrightarrow> (\<And>x. r = Ok x \<Longrightarrow> V x) \<Longrightarrow> wf_op (op_lift r) V"
  unfolding wf_op_def by (rule triple_lift) auto

lemma wf_op_return: "V x \<Longrightarrow> wf_op (op_return x) V"
  unfolding wf_op_def by (rule triple_return) simp

lemma wf_op_fail: "wf_op (op_fail e) V"
  unfolding wf_op_def by (rule triple_fail)

lemma wf_op_if: "(b \<Longrightarrow> wf_op m V) \<Longrightarrow> (\<not> b \<Longrightarrow> wf_op n V) \<Longrightarrow> wf_op (if b then m else n) V"
  by simp

lemma wf_opI:
  assumes "\<And>r x r'. reader_wf r \<Longrightarrow> m r = (Ok x, r') \<Longrightarrow> reader_wf r' \<and> V x"
    and "\<And>r e r'. reader_wf r \<Longrightarrow> m r = (Err e, r') \<Longrightarrow> reader_wf r'"
    and "\<And>r r'. reader_wf r \<Longrightarrow> m r = (Panic, r') \<Longrightarrow> False"
  shows "wf_op m V"
  unfolding wf_op_def using assms by (intro tripleI) blast+

lemma wf_opD:
  assumes "wf_op m V"
  shows "m r = (Ok x, r') \<Longrightarrow> reader_wf r \<Longrightarrow> reader_wf r' \<and> V x"
    and "m r = (Err e, r') \<Longrightarrow> reader_wf r \<Longrightarrow> reader_wf r'"
    and "m r = (Panic, r') \<Longrightarrow> reader_wf r \<Longrightarrow> False"
  using assms unfolding wf_op_def by (auto simp: triple_def)

text \<open>The same for every state is the same for the operation.\<close>

lemma wf_op_cong: "(\<And>r. reader_wf r \<Longrightarrow> \<exists>n. wf_op n V \<and> m r = n r) \<Longrightarrow> wf_op m V"
  by (rule wf_opI) (metis wf_opD)+

lemma reader_wf_invalidate [simp]:
  "reader_wf (invalidate_cache r) = reader_wf r"
  "reader_wf r \<Longrightarrow> reader_wf (r\<lparr>sector := Unknown\<rparr>)"
  "reader_wf (r\<lparr>transceiver := t\<rparr>) = reader_wf r"
  by (simp_all add: reader_wf_def invalidate_cache_def)

lemma force_sector_select_wf: "wf_op (force_sector_select T B s) (\<lambda>_. True)"
  using parse_answer_no_Panic [of SectorSelectPart1]
  by (intro wf_opI)
    (auto simp: force_sector_select_def call_transceive_def call_no_response_def Let_def
      reader_wf_def invalidate_cache_def le_MAX_SECTOR not_less
      split: if_splits prod.splits sum.splits res.splits answer.splits option.splits)

lemma sector_select_wf: "wf_op (sector_select T B s) (\<lambda>_. True)"
  using force_sector_select_wf [of T B s] by (simp add: sector_select_def wf_op_def triple_def)

lemma retry_send_wf: "wf_op (retry_send T B i cmd attempt n) (\<lambda>_. True)"
proof (induction n arbitrary: attempt)
  case 0
  show ?case
    by (intro wf_opI) (auto simp: retry_send_def retry_loop_again call_transceive_def
        split: prod.splits sum.splits)
next
  case (Suc n)
  have "wf_op (retry_loop T B i cmd (Suc attempt) (Suc n) (Some e)) (\<lambda>_. True)" for e
  proof (cases i)
    case (Known s)
    show ?thesis
      unfolding Known retry_loop_again(2) [abs_def]
      using force_sector_select_wf Suc.IH unfolding Known by (rule wf_op_bind)
  qed (auto simp: retry_loop_again wf_op_def triple_def)
  note again = wf_opD [OF this]
  show ?case
    by (intro wf_opI) (auto simp: retry_send_def call_transceive_def
        split: prod.splits sum.splits dest: again)
qed

lemma transceive_with_retry_wf: "wf_op (transceive_with_retry T B cmd) (\<lambda>_. True)"
  by (rule wf_op_cong) (auto simp: transceive_with_retry_eq intro: retry_send_wf)

lemma read_block_wf: "wf_op (read_block T B b) (\<lambda>d. length d = 16)"
proof -
  let ?m = "op_bind (transceive_with_retry T B (command_to_bytes (bytes_lib B) (Read b)))
        (\<lambda>raw r1. case parse_answer (Read b) raw of
             Err e \<Rightarrow> (Err (Protocol e), r1)
           | Panic \<Rightarrow> (Panic, r1)
           | Ok (Data data) \<Rightarrow> (Ok data, r1\<lparr>cache_block := Some b, cache_data := data\<rparr>)
           | Ok (Nack code) \<Rightarrow> (Err (Protocol (NackError code)), r1)
           | Ok _ \<Rightarrow> (Err (Protocol InvalidLength), r1))"
  have "wf_op ?m (\<lambda>d. length d = 16)"
    by (rule wf_op_bind [OF transceive_with_retry_wf]) (auto simp: wf_op_def triple_def reader_wf_def)
  then show ?thesis
    by (simp add: wf_op_def triple_def read_block_def reader_wf_def)
qed

lemma write_block_wf: "wf_op (write_block T B b d) (\<lambda>_. True)"
  unfolding write_block_def
  using parse_answer_no_Panic [of "Write b d"]
  by (intro wf_op_bind [OF transceive_with_retry_wf])
    (auto simp: wf_op_def triple_def Let_def split: res.splits answer.splits)

lemma cc_try_from_no_Panic [simp]: "cc_try_from bs \<noteq> Panic"
  by (cases bs) (simp add: Let_def)

lemma read_cc_wf: "wf_op (read_cc T B) cc_wf"
  unfolding read_cc_def
  by (intro wf_op_bind [OF sector_select_wf] wf_op_bind [OF read_block_wf] wf_op_lift)
    (auto dest: cc_try_from_wf simp del: cc_try_from.simps)

section \<open>Properties\<close>

text \<open>
  C13. A command sent through \<open>transceive_with_retry\<close> follows the retry protocol: it is sent once
  in the current sector and again, up to \<open>max_retries\<close> times, only after a transceiver error and
  a complete SECTOR SELECT of the sector that was current at the start; with an unknown sector it
  is never sent twice, and a failed re-selection ends the attempts with its error. Afterwards the
  sector is the original one if the command was answered and unknown otherwise, and the read
  cache survives only a command that was answered at once.
\<close>

theorem retry_follows_protocol:
  assumes "vec_lib_ok (bytes_lib B)" and "reader_wf r"
    and "transceive_with_retry (traced T) B cmd r = (x, r')"
  shows "\<exists>es. retry_run (sector r) cmd (unat (max_retries r)) es x \<and>
    event_log r' = event_log r @ es \<and>
    sector r' = (if \<exists>raw. x = Ok raw then sector r else Unknown) \<and>
    cache_block r' = (if \<exists>raw. es = [Sent cmd (Inr raw)] then cache_block r else None)"
proof -
  have "s \<le> MAX_SECTOR" if "sector r = Known s" for s
    using assms(2) that by (auto simp: le_MAX_SECTOR reader_wf_def)
  from retry_send_run [OF assms(1) this assms(3) [unfolded transceive_with_retry_eq] refl]
  show ?thesis by blast
qed

abbreviation reader_after_reset :: "(sector_reset_transceiver \<times> unit event list) reader" where
  "reader_after_reset \<equiv> \<lparr>transceiver = (sector_reset_new\<lparr>tag_sector := 1, fail_in := 1\<rparr>, []),
     sector = Known 1, cache_block = None, cache_data = replicate 16 0, max_retries = 1\<rparr>"

lemma run_after_reset:
  "\<exists>r'. transceive_with_retry (traced sector_reset) heapless_build [0xA2, 5, 1, 2, 3, 4]
     reader_after_reset = (Ok [ACK], r') \<and>
   event_log r' = [Sent [0xA2, 5, 1, 2, 3, 4] (Inl ()), Sent [0xC2, 0xFF] (Inr [ACK]),
     Sent_No_Response [1, 0, 0, 0] (Inr None), Sent [0xA2, 5, 1, 2, 3, 4] (Inr [ACK])] \<and>
   applied_writes (fst (transceiver r')) = [(1, 5, (1, 2, 3, 4))]"
  by (simp add: transceive_with_retry_eq retry_send_def call_transceive_def call_no_response_def
      sector_reset_def sector_reset_transceive_def sector_reset_no_response_def sector_reset_new_def
      command_try_from_def command_codes retry_loop_again op_bind_def force_sector_select_eq
      MAX_SECTOR_def invalidate_cache_def ACK_def)

theorem retry_follows_protocol_witness:
  "\<exists>es. retry_run (Known 1) [0xA2, 5, 1, 2, 3, 4] 1 es (Ok [ACK] :: (unit reader_error, u8 list) res) \<and>
     length es = 4"
proof -
  obtain r' where r': "transceive_with_retry (traced sector_reset) heapless_build
      [0xA2, 5, 1, 2, 3, 4] reader_after_reset = (Ok [ACK], r')" "length (event_log r') = 4"
    using run_after_reset by auto
  have "reader_wf reader_after_reset" by (simp add: reader_wf_def)
  from retry_follows_protocol [OF _ this r'(1)] r'(2) show ?thesis by auto
qed

text \<open>
  C14. \<open>sector_select\<close>: the reserved sector 255 is refused and a sector known to be selected costs
  nothing, both without traffic and without a change of the reader; in every other case the two
  packets are sent, the read cache is dropped, and the sector is the new one if and only if the
  tag acknowledged both packets and unknown otherwise.
\<close>

theorem sector_select_outcome:
  assumes "vec_lib_ok (bytes_lib B)" and "sector_select (traced T) B s r = (x, r')"
  shows "if s = 255 then x = Err (Protocol OutOfRange) \<and> r' = r
    else if sector r = Known s then x = Ok () \<and> r' = r
    else \<exists>es. select_run s es x \<and> event_log r' = event_log r @ es \<and> cache_block r' = None \<and>
           sector r' = (if x = Ok () then Known s else Unknown)"
proof (cases "s = 255 \<or> sector r = Known s")
  case True
  then show ?thesis
    using assms(2) le_MAX_SECTOR [of s]
    by (auto simp: sector_select_def not_le [symmetric] split: if_splits)
next
  case False
  then have "s \<le> MAX_SECTOR" by (simp add: le_MAX_SECTOR)
  moreover have "force_sector_select (traced T) B s r = (x, r')"
    using False assms(2) leD [OF calculation] by (simp add: sector_select_def)
  ultimately have "\<exists>es. select_run s es x \<and> event_log r' = event_log r @ es \<and>
      cache_block r' = None \<and> sector r' = (if x = Ok () then Known s else Unknown)"
    using force_sector_select_run [OF assms(1)] by blast
  with False show ?thesis by simp
qed

theorem sector_select_outcome_witness:
  "\<exists>r'. sector_select (traced sector_reset) heapless_build 2 (reader_new (sector_reset_new, [])) =
     (Ok (), r') \<and> sector r' = Known 2 \<and> (\<exists>es. select_run 2 es (Ok () :: (unit reader_error, unit) res) \<and>
     event_log r' = es)"
proof -
  obtain r' where r': "sector_select (traced sector_reset) heapless_build 2
      (reader_new (sector_reset_new, [])) = (Ok (), r')"
    by (simp add: sector_select_def reader_new_def MAX_SECTOR_def call_transceive_def
        call_no_response_def sector_reset_def sector_reset_transceive_def
        sector_reset_no_response_def sector_reset_new_def command_try_from_def command_codes
        force_sector_select_eq invalidate_cache_def ACK_def)
  from sector_select_outcome [OF _ this] r' show ?thesis
    by (auto simp: reader_new_def)
qed

end
