(* ===== verification/Data_Area.thy ===== *)
theory Data_Area
  imports Reader
begin

text \<open>
  The two loops of \<open>src/src/type2/reader.rs\<close> over the data area: \<open>read_data_area\<close>, which collects
  the usable bytes up to the Terminator TLV, and \<open>write_usable_bytes\<close>, which places bytes on the
  usable addresses and leaves lock and reserved bytes as they are.

  The additions on addresses in this theory cannot overflow: they are made on an address for which
  \<open>address_to_sector_block\<close> succeeded, hence below \<open>ADDRESS_SPACE_END\<close>.
\<close>

section \<open>Definitions\<close>

lemma address_to_sector_block_Some:
  "address_to_sector_block addr = Some x \<Longrightarrow> addr < ADDRESS_SPACE_END"
proof -
  assume "address_to_sector_block addr = Some x"
  then have "\<not> addr div 1024 > 254"
    by (auto simp: address_to_sector_block_def geometry Let_def split: if_splits)
  then have "unat addr div 1024 \<le> 254"
    by (simp add: word_less_nat_alt unat_div)
  then have "unat addr < 255 * 1024"
    using div_less_iff_less_mult [of 1024 "unat addr" 255] by simp
  then show ?thesis
    by (simp add: word_less_nat_alt geometry)
qed

lemma page_base_step:
  assumes "address_to_sector_block addr = Some (sec, block, offset)"
  shows "unat (addr - ucast offset) = 4 * (unat addr div 4)"
    and "unat offset = unat addr mod 4"
    and "unat (addr - ucast offset + of_nat BLOCK_SIZE) = 4 * (unat addr div 4) + 4"
proof -
  have "unat (addr mod 1024 mod 4) = unat addr mod 4"
    by (simp add: unat_mod mod_mod_cancel)
  then show off: "unat offset = unat addr mod 4"
    using assms
    by (auto simp: address_to_sector_block_def geometry Let_def unat_ucast_down split: if_splits)
  have bound: "unat addr < 261120"
    using address_to_sector_block_Some [OF assms] by (simp add: word_less_nat_alt geometry)
  have "ucast offset \<le> addr"
    by (simp add: word_le_nat_alt off)
  then show base: "unat (addr - ucast offset) = 4 * (unat addr div 4)"
    by (simp add: unat_sub off minus_mod_eq_mult_div)
  show "unat (addr - ucast offset + of_nat BLOCK_SIZE) = 4 * (unat addr div 4) + 4"
    using bound base by (simp add: unat_word_ariths(1) geometry)
qed

definition ensure_sector :: "('t, 'e) t2t_transceiver \<Rightarrow> build \<Rightarrow> u8 \<Rightarrow> ('t, 'e, unit) rop" where
  "ensure_sector T B s r =
     (if sector r \<noteq> Known s then sector_select T B s r else (Ok (), r))"

subsection \<open>Reading\<close>

text \<open>The four bytes of a block, from the cached 16-byte READ when they are in it.\<close>

definition fetch_block :: "('t, 'e) t2t_transceiver \<Rightarrow> build \<Rightarrow> u8 \<Rightarrow> ('t, 'e, u8 list) rop" where
  "fetch_block T B block r =
     (let cached = Option.bind (cache_block r) (\<lambda>cb.
            let ahead = block - cb in if ahead < 4 then Some (unat ahead) else None)
      in case cached of
           Some blocks_ahead \<Rightarrow>
             let offset = blocks_ahead * BLOCK_SIZE in
             (slice (cache_data r) offset (offset + BLOCK_SIZE), r)
         | None \<Rightarrow>
             op_bind (read_block T B block) (\<lambda>data. op_lift (slice data 0 BLOCK_SIZE)) r)"

text \<open>
  The loop over the bytes of one block: \<open>Break\<close> leaves the outer loop. The loop state is the
  collected result, the number of usable bytes read and the state of the scanner.
\<close>

datatype 'a flow = Continue 'a | Break 'a

type_synonym scan_acc = "u8 list \<times> u16 \<times> tlv_scan_state"

fun read_block_bytes :: "build \<Rightarrow> memory_layout \<Rightarrow> u32 \<Rightarrow> u8 list \<Rightarrow> scan_acc \<Rightarrow>
    (type2_error, scan_acc flow) res" where
  "read_block_bytes B layout addr [] acc = Ok (Continue acc)"
| "read_block_bytes B layout addr (byte # bs) (result, bytes_read, tlv_scan) =
     (if is_skip_area layout addr
      then read_block_bytes B layout (addr + 1) bs (result, bytes_read, tlv_scan)
      else if bytes_read \<ge> data_area_size layout then Ok (Break (result, bytes_read, tlv_scan))
      else case try_push (bytes_lib B) DATA_VEC_CAP byte result of
          (Err e, _) \<Rightarrow> Err (type2_error_from e)
        | (Panic, _) \<Rightarrow> Panic
        | (Ok _, result') \<Rightarrow>
            (case feed byte tlv_scan of (stop, tlv_scan') \<Rightarrow>
               if stop then Ok (Break (result', bytes_read + 1, tlv_scan'))
               else read_block_bytes B layout (addr + 1) bs (result', bytes_read + 1, tlv_scan')))"

function read_area_loop :: "('t, 'e) t2t_transceiver \<Rightarrow> build \<Rightarrow> memory_layout \<Rightarrow>
    u32 \<Rightarrow> scan_acc \<Rightarrow> ('t, 'e, u8 list) rop" where
  "read_area_loop T B layout byte_addr acc r =
     (if fst (snd acc) < data_area_size layout then
        (case address_to_sector_block byte_addr of
           None \<Rightarrow> (Err (Protocol OutOfRange), r)
         | Some (sec, block, _) \<Rightarrow>
             (case op_bind (ensure_sector T B sec) (\<lambda>_. fetch_block T B block) r of
                (Err e, r1) \<Rightarrow> (Err e, r1)
              | (Panic, r1) \<Rightarrow> (Panic, r1)
              | (Ok block_data, r1) \<Rightarrow>
                  (case read_block_bytes B layout byte_addr block_data acc of
                     Err e \<Rightarrow> (Err (Protocol e), r1)
                   | Panic \<Rightarrow> (Panic, r1)
                   | Ok (Break acc') \<Rightarrow> (Ok (fst acc'), r1)
                   | Ok (Continue acc') \<Rightarrow>
                       read_area_loop T B layout (byte_addr + of_nat BLOCK_SIZE) acc' r1)))
      else (Ok (fst acc), r))"
  by pat_completeness auto
termination
proof (relation "measure (\<lambda>(T, B, layout, byte_addr, acc, r). unat ADDRESS_SPACE_END - unat byte_addr)",
    goal_cases)
  case 1
  show ?case by simp
next
  case (2 T B layout byte_addr)
  then have "byte_addr < ADDRESS_SPACE_END"
    by (blast dest: address_to_sector_block_Some)
  then show ?case
    by (simp add: geometry word_less_nat_alt unat_word_ariths)
qed

declare read_area_loop.simps [simp del]

definition data_start_addr :: u32 where
  "data_start_addr = ucast DATA_START_BLOCK * of_nat BLOCK_SIZE"

definition read_data_area ::
  "('t, 'e) t2t_transceiver \<Rightarrow> build \<Rightarrow> memory_layout \<Rightarrow> ('t, 'e, u8 list) rop" where
  "read_data_area T B layout =
     read_area_loop T B layout data_start_addr ([], 0, scanner_new)"

subsection \<open>Writing\<close>

definition page_all_usable :: "memory_layout \<Rightarrow> u32 \<Rightarrow> bool" where
  "page_all_usable layout page_base \<longleftrightarrow>
     list_all (\<lambda>i. \<not> is_skip_area layout (page_base + of_nat i)) [0..<BLOCK_SIZE]"

text \<open>
  The slots of a page from address \<open>a\<close> on, filled with data: the new slots, the data left over and
  whether a slot was written.
\<close>

fun fill_slots :: "memory_layout \<Rightarrow> u32 \<Rightarrow> u32 \<Rightarrow> u8 list \<Rightarrow> u8 list \<Rightarrow> bool \<Rightarrow>
    (type2_error, u8 list \<times> u8 list \<times> bool) res" where
  "fill_slots layout limit a [] ds touched = Ok ([], ds, touched)"
| "fill_slots layout limit a (slot # slots) [] touched = Ok (slot # slots, [], touched)"
| "fill_slots layout limit a (slot # slots) (d # ds) touched =
     (if a \<ge> limit then Err OutOfRange
      else if is_skip_area layout a then
        res_bind (fill_slots layout limit (a + 1) slots (d # ds) touched) (\<lambda>(page, rest, t).
        Ok (slot # page, rest, t))
      else
        res_bind (fill_slots layout limit (a + 1) slots ds True) (\<lambda>(page, rest, t).
        Ok (d # page, rest, t)))"

definition page_of :: "u8 list \<Rightarrow> ('e, bytes4) res" where
  "page_of xs = res_bind (index xs 0) (\<lambda>a. res_bind (index xs 1) (\<lambda>b.
     res_bind (index xs 2) (\<lambda>c. res_bind (index xs 3) (\<lambda>d. Ok (a, b, c, d)))))"

text \<open>The slow path: read the page, place data on its usable bytes, write it when it changed.\<close>

definition modify_page :: "('t, 'e) t2t_transceiver \<Rightarrow> build \<Rightarrow> memory_layout \<Rightarrow> u32 \<Rightarrow> u8 \<Rightarrow> u8 \<Rightarrow>
    u32 \<Rightarrow> u8 list \<Rightarrow> ('t, 'e, u8 list) rop" where
  "modify_page T B layout limit block offset page_base ds =
     op_bind (read_block T B block) (\<lambda>cur.
     op_bind (op_lift (page_of cur)) (\<lambda>page.
     let old = bytes4_list page in
     op_bind (op_lift (map_err Protocol
       (fill_slots layout limit (page_base + ucast offset) (drop (unat offset) old) ds False)))
     (\<lambda>(slots, rest, touched).
     if touched then
       op_bind (op_lift (page_of (take (unat offset) old @ slots))) (\<lambda>new.
       op_bind (write_block T B block new) (\<lambda>_. op_return rest))
     else op_return rest)))"

function write_usable_loop :: "('t, 'e) t2t_transceiver \<Rightarrow> build \<Rightarrow> memory_layout \<Rightarrow> u32 \<Rightarrow>
    u32 \<Rightarrow> u8 list \<Rightarrow> ('t, 'e, unit) rop" where
  "write_usable_loop T B layout limit addr ds r =
     (if ds = [] then (Ok (), r)
      else if addr \<ge> limit then (Err (Protocol OutOfRange), r)
      else case address_to_sector_block addr of
          None \<Rightarrow> (Err (Protocol OutOfRange), r)
        | Some (sec, block, offset) \<Rightarrow>
            (case ensure_sector T B sec r of
               (Err e, r1) \<Rightarrow> (Err e, r1)
             | (Panic, r1) \<Rightarrow> (Panic, r1)
             | (Ok _, r1) \<Rightarrow>
                 (let page_base = addr - ucast offset in
                  if offset = 0 \<and> length ds \<ge> BLOCK_SIZE \<and> page_all_usable layout page_base then
                    (if page_base + of_nat BLOCK_SIZE > limit
                     then (Err (Protocol OutOfRange), r1)
                     else case op_bind (op_lift (page_of ds)) (write_block T B block) r1 of
                         (Err e, r2) \<Rightarrow> (Err e, r2)
                       | (Panic, r2) \<Rightarrow> (Panic, r2)
                       | (Ok _, r2) \<Rightarrow>
                           write_usable_loop T B layout limit (page_base + of_nat BLOCK_SIZE)
                             (drop BLOCK_SIZE ds) r2)
                  else case modify_page T B layout limit block offset page_base ds r1 of
                      (Err e, r2) \<Rightarrow> (Err e, r2)
                    | (Panic, r2) \<Rightarrow> (Panic, r2)
                    | (Ok rest, r2) \<Rightarrow>
                        write_usable_loop T B layout limit (page_base + of_nat BLOCK_SIZE) rest r2)))"
  by pat_completeness auto

termination
proof (relation "measure (\<lambda>(T, B, layout, limit, addr, ds, r). unat ADDRESS_SPACE_END - unat addr)",
    goal_cases)
  case 1
  show ?case by simp
next
  case (2 T B layout limit addr ds r x2 sec y block offset)
  then show ?case
    using page_base_step(3) [of addr sec block offset] address_to_sector_block_Some [of addr]
    by (auto simp: word_less_nat_alt geometry)
next
  case (3 T B layout limit addr ds r x2 sec y block offset)
  then show ?case
    using page_base_step(3) [of addr sec block offset] address_to_sector_block_Some [of addr]
    by (auto simp: word_less_nat_alt geometry)
qed

declare write_usable_loop.simps [simp del]

definition write_usable_bytes :: "('t, 'e) t2t_transceiver \<Rightarrow> build \<Rightarrow> memory_layout \<Rightarrow> u32 \<Rightarrow>
    u8 list \<Rightarrow> u32 \<Rightarrow> ('t, 'e, unit) rop" where
  "write_usable_bytes T B layout start_addr data limit_addr =
     write_usable_loop T B layout limit_addr start_addr data"

section \<open>The loops as operations\<close>

lemma addr_induct:
  assumes "\<And>a. (\<And>a'. a < ADDRESS_SPACE_END \<Longrightarrow> unat a < unat a' \<Longrightarrow> P a') \<Longrightarrow> P a"
  shows "P (a :: u32)"
proof (induction "unat ADDRESS_SPACE_END - unat a" arbitrary: a rule: less_induct)
  case less
  show ?case
    by (rule assms) (rule less, simp add: word_less_nat_alt)
qed

lemma unat_add_4: "a < ADDRESS_SPACE_END \<Longrightarrow> unat (a + of_nat BLOCK_SIZE) = unat a + 4"
  by (simp add: geometry word_less_nat_alt unat_word_ariths)

definition scan_step :: "(type2_error, scan_acc flow) res \<Rightarrow> (scan_acc \<Rightarrow> ('t, 'e, u8 list) rop) \<Rightarrow>
    ('t, 'e, u8 list) rop" where
  "scan_step x next =
     op_bind (op_lift (map_err Protocol x)) (\<lambda>f.
     case f of Break acc \<Rightarrow> op_return (fst acc) | Continue acc \<Rightarrow> next acc)"

lemma read_area_loop_op:
  "read_area_loop T B layout a acc =
     (if fst (snd acc) < data_area_size layout then
        (case address_to_sector_block a of
           None \<Rightarrow> op_fail (Protocol OutOfRange)
         | Some (sec, block, _) \<Rightarrow>
             op_bind (op_bind (ensure_sector T B sec) (\<lambda>_. fetch_block T B block)) (\<lambda>block_data.
             scan_step (read_block_bytes B layout a block_data acc)
               (\<lambda>acc'. read_area_loop T B layout (a + of_nat BLOCK_SIZE) acc')))
      else op_return (fst acc))"
  by (rule ext)
    (auto simp: read_area_loop.simps [of T B layout a] scan_step_def op_defs
      split: option.splits prod.splits res.splits flow.splits)

lemma write_usable_loop_op:
  "write_usable_loop T B layout limit addr ds =
     (if ds = [] then op_return ()
      else if addr \<ge> limit then op_fail (Protocol OutOfRange)
      else case address_to_sector_block addr of
          None \<Rightarrow> op_fail (Protocol OutOfRange)
        | Some (sec, block, offset) \<Rightarrow>
            op_bind (ensure_sector T B sec) (\<lambda>_.
            let page_base = addr - ucast offset in
            if offset = 0 \<and> length ds \<ge> BLOCK_SIZE \<and> page_all_usable layout page_base then
              (if page_base + of_nat BLOCK_SIZE > limit then op_fail (Protocol OutOfRange)
               else op_bind (op_bind (op_lift (page_of ds)) (write_block T B block)) (\<lambda>_.
                 write_usable_loop T B layout limit (page_base + of_nat BLOCK_SIZE) (drop BLOCK_SIZE ds)))
            else op_bind (modify_page T B layout limit block offset page_base ds)
              (write_usable_loop T B layout limit (page_base + of_nat BLOCK_SIZE))))"
  by (rule ext)
    (auto simp: write_usable_loop.simps [of T B layout limit addr] op_defs Let_def
      split: option.splits prod.splits res.splits)

section \<open>No panic\<close>

lemma reader_wf_length: "reader_wf r \<Longrightarrow> length (cache_data r) = 16"
  by (simp add: reader_wf_def)

lemma ensure_sector_wf: "wf_op (ensure_sector T B s) (\<lambda>_. True)"
  using sector_select_wf [of T B s] by (simp add: wf_op_def triple_def ensure_sector_def)

lemma cached_slice:
  assumes "length xs = 16" and "n < 4"
  shows "slice xs (n * 4) (n * 4 + 4) = (Ok (take 4 (drop (4 * n) xs)) :: ('e, 'a list) res)"
  using assms by (simp add: mult.commute)

text \<open>What \<open>fetch_block\<close> returns, from the cache or from a READ.\<close>

lemma fetch_block_eq:
  assumes "length (cache_data r) = 16"
  shows "fetch_block T B b r =
    (case cache_block r of
       Some cb \<Rightarrow> if unat (b - cb) < 4 then (Ok (take 4 (drop (4 * unat (b - cb)) (cache_data r))), r)
          else op_bind (read_block T B b) (\<lambda>d. op_lift (slice d 0 4)) r
     | None \<Rightarrow> op_bind (read_block T B b) (\<lambda>d. op_lift (slice d 0 4)) r)"
  by (simp add: fetch_block_def Let_def word_less_nat_alt BLOCK_SIZE_def cached_slice [OF assms]
      split: option.splits)

lemma fetch_block_wf: "wf_op (fetch_block T B b) (\<lambda>d. length d = 4)"
proof -
  let ?m = "op_bind (read_block T B b) (\<lambda>data. op_lift (slice data 0 4))"
  have read: "wf_op ?m (\<lambda>d. length d = 4)"
    by (intro wf_op_bind [OF read_block_wf] wf_op_lift) auto
  show ?thesis
    by (intro wf_opI) (auto simp: fetch_block_eq [OF reader_wf_length] reader_wf_length split: option.splits if_splits
        dest: wf_opD [OF read])
qed

lemma read_block_bytes_no_Panic: "read_block_bytes B layout a bs acc \<noteq> Panic"
proof (induction B layout a bs acc rule: read_block_bytes.induct)
  case (2 B layout addr byte bs result bytes_read tlv_scan)
  have "fst (try_push (bytes_lib B) DATA_VEC_CAP byte result) \<noteq> Panic"
    by (rule try_push_no_Panic)
  with 2 show ?case
    by (auto split: prod.splits res.splits)
qed simp

lemma read_area_loop_wf: "wf_op (read_area_loop T B layout a acc) (\<lambda>_. True)"
proof (induction a arbitrary: acc rule: addr_induct)
  case (1 a)
  show ?case
  proof (cases "address_to_sector_block a")
    case None
    then show ?thesis
      unfolding read_area_loop_op [of T B layout a]
      by (auto intro: wf_op_fail wf_op_return)
  next
    case (Some x)
    obtain sec block offs where x: "x = (sec, block, offs)" by (cases x)
    have less: "a < ADDRESS_SPACE_END"
      using address_to_sector_block_Some [OF Some] .
    have "wf_op (read_area_loop T B layout (a + of_nat BLOCK_SIZE) acc') (\<lambda>_. True)" for acc'
      by (rule 1 [OF less]) (simp add: unat_add_4 [OF less])
    then have "wf_op (scan_step (read_block_bytes B layout a d acc)
        (\<lambda>acc'. read_area_loop T B layout (a + of_nat BLOCK_SIZE) acc')) (\<lambda>_. True)" for d
      unfolding scan_step_def
      by (intro wf_op_bind [OF wf_op_lift [where V = "\<lambda>_. True"]])
        (auto simp: read_block_bytes_no_Panic intro: wf_op_return split: flow.splits)
    then show ?thesis
      unfolding read_area_loop_op [of T B layout a] Some x option.case prod.case
      by (intro wf_op_if wf_op_return TrueI
          wf_op_bind [OF wf_op_bind [OF ensure_sector_wf fetch_block_wf]])
  qed
qed

lemma read_data_area_wf: "wf_op (read_data_area T B layout) (\<lambda>_. True)"
  unfolding read_data_area_def by (rule read_area_loop_wf)

lemma fill_slots_no_Panic: "fill_slots layout limit a slots ds t \<noteq> Panic"
  by (induction layout limit a slots ds t rule: fill_slots.induct)
    (auto simp: res_bind_Panic_iff)

lemma fill_slots_length:
  "fill_slots layout limit a slots ds t = Ok (page, rest, t') \<Longrightarrow> length page = length slots"
  by (induction layout limit a slots ds t arbitrary: page rest t' rule: fill_slots.induct)
    (auto simp: res_bind_Ok_iff split: if_splits)

lemma page_of_eq: "length xs \<ge> 4 \<Longrightarrow> page_of xs = Ok (xs ! 0, xs ! 1, xs ! 2, xs ! 3)"
  by (cases xs) (auto simp: page_of_def index_def)

lemma modify_page_wf: "wf_op (modify_page T B layout limit block offs base ds) (\<lambda>_. True)"
  unfolding modify_page_def
proof (intro wf_op_bind [OF read_block_wf])
  fix cur :: "u8 list"
  assume "length cur = 16"
  then have page: "page_of cur = (Ok (cur ! 0, cur ! 1, cur ! 2, cur ! 3) :: ('b reader_error, bytes4) res)"
    by (simp add: page_of_eq)
  let ?old = "bytes4_list (cur ! 0, cur ! 1, cur ! 2, cur ! 3)"
  have full: False
    if "fill_slots layout limit (base + ucast offs) (drop (unat offs) ?old) ds False =
        Ok (slots, rest, t)"
      and "page_of (take (unat offs) ?old @ slots) = (Panic :: ('b reader_error, bytes4) res)"
    for slots rest t
  proof -
    have "length (take (unat offs) ?old @ slots) = 4"
      using fill_slots_length [OF that(1)] by simp
    with that(2) show ?thesis by (simp add: page_of_eq)
  qed
  show "wf_op (op_bind (op_lift (page_of cur)) (\<lambda>page. let old = bytes4_list page in
     op_bind (op_lift (map_err Protocol
       (fill_slots layout limit (base + ucast offs) (drop (unat offs) old) ds False)))
     (\<lambda>(slots, rest, touched).
     if touched then
       op_bind (op_lift (page_of (take (unat offs) old @ slots))) (\<lambda>new.
       op_bind (write_block T B block new) (\<lambda>_. op_return rest))
     else op_return rest))) (\<lambda>_. True)"
    unfolding page op_bind_lift_Ok Let_def
    by (rule wf_op_bind, rule wf_op_lift [where V = "\<lambda>x. fill_slots layout limit (base + ucast offs)
          (drop (unat offs) ?old) ds False = Ok x"])
      (auto simp: fill_slots_no_Panic simp del: bytes4_list.simps intro!: wf_op_return
        wf_op_bind [OF wf_op_lift [where V = "\<lambda>_. True"]] wf_op_bind [OF write_block_wf]
        dest: full [simplified])
qed

lemma write_usable_loop_wf: "wf_op (write_usable_loop T B layout limit a ds) (\<lambda>_. True)"
proof (induction a arbitrary: ds rule: addr_induct)
  case (1 a)
  show ?case
  proof (cases "address_to_sector_block a")
    case None
    then show ?thesis
      unfolding write_usable_loop_op [of T B layout limit a]
      by (auto intro: wf_op_fail wf_op_return)
  next
    case (Some x)
    obtain sec block offs where x: "x = (sec, block, offs)" by (cases x)
    let ?base = "a - ucast offs"
    have "unat a < unat (?base + of_nat BLOCK_SIZE)"
      using page_base_step(3) [OF Some [unfolded x]] mod_less_divisor [of 4 "unat a"]
        div_mult_mod_eq [of "unat a" 4] by linarith
    then have "wf_op (write_usable_loop T B layout limit (?base + of_nat BLOCK_SIZE) ds') (\<lambda>_. True)" for ds'
      by (rule 1 [OF address_to_sector_block_Some [OF Some]])
    moreover have "wf_op (op_bind (op_lift (page_of ds)) (write_block T B block)) (\<lambda>_. True)"
      if "BLOCK_SIZE \<le> length ds"
      using that by (intro wf_op_bind [OF wf_op_lift [where V = "\<lambda>_. True"]] write_block_wf)
        (auto simp: page_of_eq BLOCK_SIZE_def)
    ultimately show ?thesis
      unfolding write_usable_loop_op [of T B layout limit a] Some x option.case prod.case Let_def
      by (auto intro!: wf_op_if wf_op_return wf_op_fail wf_op_bind [OF ensure_sector_wf]
          wf_op_bind [OF modify_page_wf] intro: wf_op_bind)
  qed
qed

lemma write_usable_bytes_wf: "wf_op (write_usable_bytes T B layout a ds limit) (\<lambda>_. True)"
  unfolding write_usable_bytes_def by (rule write_usable_loop_wf)

end
