(* ===== verification/Ndef.thy ===== *)
theory Ndef
  imports Data_Area
begin

text \<open>
  The NDEF procedures of \<open>src/src/type2/reader.rs\<close>: \<open>read_data_area_with_layout\<close>, \<open>read_ndef\<close> and
  \<open>write_ndef\<close>.
\<close>

section \<open>Definitions\<close>

fun is_control :: "tlv \<Rightarrow> bool" where
  "is_control (LockControl _) = True"
| "is_control (MemoryControl _) = True"
| "is_control _ = False"

definition parse_area ::
  "build \<Rightarrow> u8 list \<Rightarrow> ('e reader_error, tlv list) res" where
  "parse_area B data_area = map_err Protocol (parse_tlvs (bytes_lib B) (tlv_lib B) data_area)"

definition read_data_area_with_layout ::
  "('t, 'e) t2t_transceiver \<Rightarrow> build \<Rightarrow> capability_container \<Rightarrow> ('t, 'e, u8 list) rop" where
  "read_data_area_with_layout T B cc =
     op_bind (op_lift (from_cc_and_tlvs B cc [])) (\<lambda>basic_layout.
     op_bind (read_data_area T B basic_layout) (\<lambda>data_area.
     op_bind (op_lift (parse_area B data_area)) (\<lambda>tlvs.
     if is_dynamic cc \<and> list_ex is_control tlvs then
       op_bind (op_lift (from_cc_and_tlvs B cc tlvs)) (\<lambda>full_layout.
       read_data_area T B full_layout)
     else op_return data_area)))"

fun first_ndef :: "tlv list \<Rightarrow> u8 list option" where
  "first_ndef [] = None"
| "first_ndef (t # ts) = (case ndef_data t of Some data \<Rightarrow> Some data | None \<Rightarrow> first_ndef ts)"

definition read_ndef :: "('t, 'e) t2t_transceiver \<Rightarrow> build \<Rightarrow> ('t, 'e, u8 list) rop" where
  "read_ndef T B =
     op_bind (read_cc T B) (\<lambda>cc.
     if \<not> is_valid cc then op_fail (Protocol (InvalidMagic 0))
     else
       op_bind (read_data_area_with_layout T B cc) (\<lambda>data_area.
       op_bind (op_lift (parse_area B data_area)) (\<lambda>tlvs.
       case first_ndef tlvs of Some data \<Rightarrow> op_return data | None \<Rightarrow> op_return [])))"

subsection \<open>Writing\<close>

text \<open>The offset of the first NDEF Message TLV, from the blocks the parser returned.\<close>

fun ndef_tlv_offset :: "nat \<Rightarrow> tlv list \<Rightarrow> nat option" where
  "ndef_tlv_offset offset [] = None"
| "ndef_tlv_offset offset (NdefMessage _ # ts) = Some offset"
| "ndef_tlv_offset offset (Null # ts) = ndef_tlv_offset (offset + 1) ts"
| "ndef_tlv_offset offset (Terminator # ts) = None"
| "ndef_tlv_offset offset (LockControl _ # ts) = ndef_tlv_offset (offset + 5) ts"
| "ndef_tlv_offset offset (MemoryControl _ # ts) = ndef_tlv_offset (offset + 5) ts"
| "ndef_tlv_offset offset (tlv.Proprietary data # ts) =
     ndef_tlv_offset (offset + (1 + (if length data < 0xFF then 1 else 3) + length data)) ts"

definition usize_checked_add :: "build \<Rightarrow> nat \<Rightarrow> nat \<Rightarrow> nat option" where
  "usize_checked_add B a b = (if a + b \<le> usize_max B then Some (a + b) else None)"

definition required_end :: "build \<Rightarrow> nat \<Rightarrow> nat \<Rightarrow> nat \<Rightarrow> nat option" where
  "required_end B ndef_offset l_field_size ndef_len =
     Option.bind (usize_checked_add B ndef_offset 1) (\<lambda>x.
     Option.bind (usize_checked_add B x l_field_size) (\<lambda>x.
     Option.bind (usize_checked_add B x ndef_len) (\<lambda>x.
     usize_checked_add B x 1)))"

text \<open>The bytes of the first write: tag, length zero, value and Terminator.\<close>

definition ndef_payload :: "build \<Rightarrow> u16 \<Rightarrow> u8 list \<Rightarrow> (type2_error, u8 list) res" where
  "ndef_payload B ndef_len data =
     fill_new
       (op_bind (put_byte (bytes_lib B) TLV_NDEF_MESSAGE) (\<lambda>_.
        op_bind
          (if ndef_len < 0xFF then put_byte (bytes_lib B) 0x00
           else op_bind (put_byte (bytes_lib B) 0xFF) (\<lambda>_.
                op_bind (put_byte (bytes_lib B) 0x00) (\<lambda>_.
                put_byte (bytes_lib B) 0x00))) (\<lambda>_.
        op_bind (put_bytes (bytes_lib B) data) (\<lambda>_.
        put_byte (bytes_lib B) TLV_TERMINATOR))))"

text \<open>
  The part of \<open>write_ndef\<close> before the first WRITE: the layout, the physical address of the NDEF
  TLV, the exclusive limit and the bytes to write, or the error that rejects the message.
\<close>

record write_plan =
  wp_layout :: memory_layout
  wp_ndef_offset :: nat
  wp_ndef_addr :: u32
  wp_limit :: u32
  wp_payload :: "u8 list"

definition plan_write ::
  "build \<Rightarrow> capability_container \<Rightarrow> tlv list \<Rightarrow> u8 list \<Rightarrow> (type2_error, write_plan) res" where
  "plan_write B cc tlvs data =
     (let ndef_len_usize = length data in
      if ndef_len_usize > 0xFFFE then Err OutOfRange
      else
        let ndef_len = (of_nat ndef_len_usize :: u16);
            l_field_size = (if ndef_len < 0xFF then 1 else 3)
        in
        res_bind (ok_or (ndef_tlv_offset 0 tlvs) type2_error.InvalidTlv) (\<lambda>ndef_offset.
        res_bind (ok_or (required_end B ndef_offset l_field_size ndef_len_usize) OutOfRange)
        (\<lambda>req_end.
        let area_size = cc_data_area_size cc in
        if req_end > unat area_size then Err OutOfRange
        else
          res_bind (from_cc_and_tlvs B cc tlvs) (\<lambda>layout.
          res_bind (ok_or (usable_offset_to_address layout (of_nat ndef_offset)) OutOfRange)
          (\<lambda>ndef_byte_addr.
          res_bind (sub_chk area_size 1) (\<lambda>last.
          res_bind (ok_or (Option.bind (usable_offset_to_address layout last)
                             (\<lambda>a. checked_add a 1)) OutOfRange)
          (\<lambda>write_limit_addr.
          res_bind (ndef_payload B ndef_len data) (\<lambda>payload.
          Ok \<lparr>wp_layout = layout, wp_ndef_offset = ndef_offset, wp_ndef_addr = ndef_byte_addr,
              wp_limit = write_limit_addr, wp_payload = payload\<rparr>))))))))"

text \<open>The length field written last.\<close>

definition l_bytes :: "u16 \<Rightarrow> u8 list" where
  "l_bytes ndef_len =
     (if ndef_len < 0xFF then [ucast ndef_len]
      else [0xFF, ucast (drop_bit 8 ndef_len), ucast ndef_len])"

text \<open>The WRITEs of \<open>write_ndef\<close>: first the payload, then the length field.\<close>

definition execute_plan ::
  "('t, 'e) t2t_transceiver \<Rightarrow> build \<Rightarrow> write_plan \<Rightarrow> u16 \<Rightarrow> ('t, 'e, unit) rop" where
  "execute_plan T B p ndef_len =
     op_bind (write_usable_bytes T B (wp_layout p) (wp_ndef_addr p) (wp_payload p) (wp_limit p)) (\<lambda>_.
     op_bind (op_lift (add_chk (of_nat (wp_ndef_offset p)) (1 :: u16))) (\<lambda>l_offset.
     op_bind (op_lift (ok_or (usable_offset_to_address (wp_layout p) l_offset)
                         (Protocol OutOfRange))) (\<lambda>l_addr.
     write_usable_bytes T B (wp_layout p) l_addr (l_bytes ndef_len) (wp_limit p))))"

definition write_ndef :: "('t, 'e) t2t_transceiver \<Rightarrow> build \<Rightarrow> u8 list \<Rightarrow> ('t, 'e, unit) rop" where
  "write_ndef T B data =
     op_bind (read_cc T B) (\<lambda>cc.
     if \<not> is_valid cc then op_fail (Protocol (InvalidMagic 0))
     else if write_access cc \<noteq> Granted then op_fail (Protocol ReadOnly)
     else
       op_bind (read_data_area_with_layout T B cc) (\<lambda>data_area.
       op_bind (op_lift (parse_area B data_area)) (\<lambda>tlvs.
       op_bind (op_lift (map_err Protocol (plan_write B cc tlvs data))) (\<lambda>p.
       execute_plan T B p (of_nat (length data))))))"

section \<open>The plan of a write\<close>

definition l_field_size :: "nat \<Rightarrow> nat" where
  "l_field_size n = (if n < 255 then 1 else 3)"

definition zero_length_field :: "nat \<Rightarrow> u8 list" where
  "zero_length_field n = (if n < 255 then [0] else [0xFF, 0, 0])"

lemma length_zero_field [simp]: "length (zero_length_field n) = l_field_size n"
  by (simp add: zero_length_field_def l_field_size_def)

lemma u16_of_nat_less_255: "n \<le> 0xFFFE \<Longrightarrow> (of_nat n :: u16) < 0xFF \<longleftrightarrow> n < 255"
  by (simp add: word_less_nat_alt unat_of_nat)

lemma required_end_eq:
  "required_end B off l n =
     (if off + 1 + l + n + 1 \<le> usize_max B then Some (off + 1 + l + n + 1) else None)"
  by (auto simp: required_end_def usize_checked_add_def)

lemma put_byte_eq:
  "vec_lib_ok bl \<Longrightarrow> put_byte bl x v =
     (if vec_fits bl DATA_VEC_CAP (Suc (length v)) then (Ok (), v @ [x]) else (Err type2_error.BufferFull, v))"
  by (simp add: try_push_eq op_map_err_def)

lemma put_bytes_eq:
  "vec_lib_ok bl \<Longrightarrow> put_bytes bl xs v =
     (if vec_fits bl DATA_VEC_CAP (length v + length xs) then (Ok (), v @ xs)
      else (Err type2_error.BufferFull, v))"
  by (simp add: try_extend_eq op_map_err_def)

lemma ndef_payload_eq:
  assumes "vec_lib_ok (bytes_lib B)" and "length data \<le> 0xFFFE"
  shows "ndef_payload B (of_nat (length data)) data =
    (if vec_fits (bytes_lib B) DATA_VEC_CAP (2 + l_field_size (length data) + length data)
     then Ok (0x03 # zero_length_field (length data) @ data @ [0xFE]) else Err type2_error.BufferFull)"
proof -
  define f where "f k = vec_fits (bytes_lib B) DATA_VEC_CAP k" for k
  have push: "put_byte (bytes_lib B) x v =
      (if f (Suc (length v)) then (Ok (), v @ [x]) else (Err type2_error.BufferFull, v))" for x v
    using put_byte_eq [OF assms(1)] by (simp add: f_def)
  have extend: "put_bytes (bytes_lib B) xs v =
      (if f (length v + length xs) then (Ok (), v @ xs) else (Err type2_error.BufferFull, v))" for xs v
    using put_bytes_eq [OF assms(1)] by (simp add: f_def)
  have mono: "f k \<Longrightarrow> j \<le> k \<Longrightarrow> f j" for j k
    using vec_fits_mono [OF assms(1)] by (simp add: f_def)
  have num: "5 + length data = Suc (Suc (Suc (Suc (Suc (length data)))))" by simp
  show ?thesis
    unfolding f_def [symmetric] ndef_payload_def fill_new_def op_bind_def push extend
    by (cases "f (2 + l_field_size (length data) + length data)")
      (auto simp: u16_of_nat_less_255 [OF assms(2)] zero_length_field_def l_field_size_def tlv_tags num
        split: if_splits elim: mono)
qed

text \<open>What the plan for a message of \<open>n\<close> bytes at offset \<open>off\<close> needs, and the plan itself.\<close>

definition message_end :: "nat \<Rightarrow> nat \<Rightarrow> nat" where
  "message_end off n = off + 1 + l_field_size n + n + 1"

lemma usable_addr_bound: "i < length (usable_from layout b) \<Longrightarrow> usable_from layout b ! i < 261120"
  using nth_mem [of i "usable_from layout b"] by (auto simp: usable_from_mem space_end_eq)

lemma plan_write_eq:
  fixes cc :: capability_container
  assumes "build_ok B" and "\<forall>t \<in> set ts. control_ok t" and "is_alloc (tlv_lib B) \<or> length ts \<le> 8"
  defines "us \<equiv> usable_addrs (layout_of cc ts)" and "n \<equiv> unat (cc_data_area_size cc)"
  shows "plan_write B cc ts data =
    (if length data > 0xFFFE then Err OutOfRange
     else case ndef_tlv_offset 0 ts of
         None \<Rightarrow> Err type2_error.InvalidTlv
       | Some off \<Rightarrow>
           if message_end off (length data) > n then Err OutOfRange
           else if length us < n then Err OutOfRange
           else if \<not> vec_fits (bytes_lib B) DATA_VEC_CAP (2 + l_field_size (length data) + length data)
           then Err type2_error.BufferFull
           else Ok \<lparr>wp_layout = layout_of cc ts, wp_ndef_offset = off, wp_ndef_addr = of_nat (us ! off),
                   wp_limit = of_nat (us ! (n - 1)) + 1,
                   wp_payload = 0x03 # zero_length_field (length data) @ data @ [0xFE]\<rparr>)"
proof (cases "0xFFFE < length data")
  case False
  then have len: "length data \<le> 0xFFFE" by simp
  have lfs: "(if (of_nat (length data) :: u16) < 0xFF then 1 else 3) = l_field_size (length data)"
    by (simp add: u16_of_nat_less_255 [OF len] l_field_size_def)
  show ?thesis
  proof (cases "ndef_tlv_offset 0 ts")
    case (Some off)
    show ?thesis
    proof (cases "message_end off (length data) \<le> n")
      case fits: True
      have n: "0 < n" "n < 65536" "off < n" "off < 65536"
        using fits u16_unat_lt [of "cc_data_area_size cc"]
        by (simp_all add: message_end_def n_def del: u16_unat_lt)
      have "required_end B off (l_field_size (length data)) (length data) =
          Some (message_end off (length data))"
        using fits n assms(1) by (simp add: required_end_eq message_end_def build_ok_def)
      moreover have "unat (of_nat off :: u16) = off"
        using n(4) by (simp add: unat_of_nat)
      moreover have "1 \<le> cc_data_area_size cc" "cc_data_area_size cc \<noteq> 0"
        using n(1) by (auto simp only: n_def word_le_nat_alt unsigned_1 unsigned_0 less_irrefl Suc_le_eq One_nat_def)
      then have "sub_chk (cc_data_area_size cc) 1 = (Ok (cc_data_area_size cc - 1) :: (type2_error, u16) res)"
        "unat (cc_data_area_size cc - 1) = n - 1"
        by (simp_all add: sub_chk_def checked_sub_def n_def unat_minus_one)
      moreover have "checked_add (of_nat (us ! (n - 1))) 1 = Some (of_nat (us ! (n - 1)) + 1 :: u32)"
        if "n \<le> length us"
      proof -
        have "us ! (n - 1) < 261120"
          using usable_addr_bound [of "n - 1" "layout_of cc ts" 16] that n(1)
          by (simp add: us_def)
        then show ?thesis by (simp add: checked_defs unat_of_nat)
      qed
      ultimately show ?thesis
        using len Some fits n lfs
        by (auto simp: plan_write_def Let_def from_cc_and_tlvs_eq [OF assms(1-3)]
            usable_offset_to_address_eq n_def [symmetric] us_def [symmetric]
            ndef_payload_eq [OF build_okD(1) [OF assms(1)] len])
    next
      case False
      with len Some lfs show ?thesis
        by (auto simp: plan_write_def Let_def required_end_eq message_end_def n_def [symmetric]
            split: if_splits)
    qed
  qed (use len in \<open>simp add: plan_write_def Let_def\<close>)
qed (simp add: plan_write_def Let_def)

section \<open>No panic\<close>

abbreviation parsed :: "build \<Rightarrow> tlv list \<Rightarrow> bool" where
  "parsed B ts \<equiv> \<exists>data. parse_tlvs (bytes_lib B) (tlv_lib B) data = Ok ts"

lemma parsed_D:
  assumes "build_ok B" and "parsed B ts"
  shows "\<forall>t \<in> set ts. control_ok t" and "is_alloc (tlv_lib B) \<or> length ts \<le> 8"
    and "from_cc_and_tlvs B cc ts = (Ok (layout_of cc ts) :: ('e, memory_layout) res)"
  using assms parsed_control_ok parsed_tlvs_few from_cc_and_parsed by fastforce+

lemma from_cc_and_no_tlvs:
  "build_ok B \<Longrightarrow> from_cc_and_tlvs B cc [] = (Ok (layout_of cc []) :: ('e, memory_layout) res)"
  by (rule from_cc_and_tlvs_eq) simp_all

lemma parse_area_wf: "wf_op (op_lift (parse_area B data)) (parsed B)"
  by (rule wf_op_lift)
    (auto simp: parse_area_def parse_tlvs_def fill_new_Panic_iff parse_into_no_Panic)

lemma read_data_area_with_layout_wf:
  assumes "build_ok B"
  shows "wf_op (read_data_area_with_layout T B cc) (\<lambda>_. True)"
  unfolding read_data_area_with_layout_def from_cc_and_no_tlvs [OF assms] op_bind_lift_Ok
  by (intro wf_op_bind [OF read_data_area_wf] wf_op_bind [OF parse_area_wf] wf_op_if)
    (auto simp: parsed_D(3) [OF assms] intro: read_data_area_wf wf_op_return)

lemma read_ndef_wf: "build_ok B \<Longrightarrow> wf_op (read_ndef T B) (\<lambda>_. True)"
  unfolding read_ndef_def
  by (intro wf_op_bind [OF read_cc_wf] wf_op_bind [OF read_data_area_with_layout_wf]
      wf_op_bind [OF parse_area_wf] wf_op_if wf_op_fail)
    (auto intro: wf_op_return split: option.splits)

lemma execute_plan_wf:
  assumes "wp_ndef_offset p < 65535"
  shows "wf_op (execute_plan T B p n) (\<lambda>_. True)"
proof -
  have "add_chk (of_nat (wp_ndef_offset p)) (1 :: u16) \<noteq> (Panic :: ('b reader_error, u16) res)"
    using assms by (simp add: add_chk_def checked_defs unat_of_nat)
  then show ?thesis
    unfolding execute_plan_def
    by (intro wf_op_bind [OF write_usable_bytes_wf] wf_op_bind [OF wf_op_lift [where V = "\<lambda>_. True"]]
        write_usable_bytes_wf) auto
qed

lemma plan_write_offset:
  assumes "build_ok B" and "parsed B ts" and "plan_write B cc ts data = Ok p"
  shows "wp_ndef_offset p < 65535"
  using assms(3) u16_unat_lt [of "cc_data_area_size cc"]
  by (auto simp: plan_write_eq [OF assms(1) parsed_D(1,2) [OF assms(1,2)]] message_end_def
      split: if_splits option.splits simp del: u16_unat_lt)

lemma plan_write_no_Panic:
  assumes "build_ok B" and "parsed B ts"
  shows "plan_write B cc ts data \<noteq> Panic"
  by (auto simp: plan_write_eq [OF assms(1) parsed_D(1,2) [OF assms]] split: option.splits)

lemma write_ndef_wf:
  assumes "build_ok B"
  shows "wf_op (write_ndef T B data) (\<lambda>_. True)"
  unfolding write_ndef_def
  by (intro wf_op_bind [OF read_cc_wf] wf_op_bind [OF read_data_area_with_layout_wf]
      wf_op_bind [OF parse_area_wf] wf_op_if wf_op_fail
      wf_op_bind [OF wf_op_lift [where V = "\<lambda>p. wp_ndef_offset p < 65535"]] execute_plan_wf)
    (use assms in \<open>auto intro: plan_write_offset dest: plan_write_no_Panic\<close>)

section \<open>Properties\<close>

text \<open>
  C12. The reader never panics, whatever the transceiver does: on a reader that came from \<open>new\<close>
  and any tag, reading and writing an NDEF message end with a value or an error, and leave a
  well-formed reader (a 16-byte cache, never the reserved sector). So no subtraction or addition on
  these paths overflows, no index is out of range and the \<open>unwrap\<close> of the last transceiver error
  never fails; the loops terminate.
\<close>

theorem reader_never_panics:
  assumes "build_ok B" and "reader_wf r"
  shows "fst (read_ndef T B r) \<noteq> Panic \<and> reader_wf (snd (read_ndef T B r)) \<and>
    fst (write_ndef T B data r) \<noteq> Panic \<and> reader_wf (snd (write_ndef T B data r))"
  using wf_opD [OF read_ndef_wf [OF assms(1)], of T r] wf_opD [OF write_ndef_wf [OF assms(1)], of T data r]
    assms(2)
  by (cases "read_ndef T B r"; cases "write_ndef T B data r";
      cases "fst (read_ndef T B r)"; cases "fst (write_ndef T B data r)") auto

theorem reader_never_panics_witness:
  "fst (write_ndef sector_reset heapless_build [1, 2, 3]
     (reader_new (sector_reset_new\<lparr>fail_in := 3\<rparr>))) \<noteq> Panic"
  by (rule reader_never_panics [THEN conjunct2, THEN conjunct2, THEN conjunct1])
    (rule builds_ok reader_wf_new)+

end
