(* ===== verification/Conforming.thy ===== *)
theory Conforming
  imports Ndef
begin

text \<open>
  The interface between the reader and a tag. The trait \<open>T2TTransceiver\<close> of
  \<open>src/src/type2/mod.rs\<close> says how commands travel; the locale \<open>t2t_tag\<close> states what the reader
  relies on about the tag behind it: READ returns the memory of the active sector, an acknowledged
  WRITE stores its block, an acknowledged SECTOR SELECT changes the sector. A READ or WRITE that is not
  answered (a transceiver error) may or may not have been carried out, and the tag may have gone back to
  another sector. A READ or WRITE that is answered leaves the active sector as it is, also when the
  answer is a NACK or too short to be data; a WRITE answered that way may or may not have been carried
  out. This is the assumption behind the source, which gives up the sector on transceiver errors
  only and keeps it as known after a NACK. After a SECTOR SELECT that is not acknowledged, nothing is
  assumed about the active sector. The lemmas of the locale show what the reader's procedures do to
  the memory of every such tag, failures included.
\<close>

section \<open>Memory\<close>

definition block_addr :: "u8 \<Rightarrow> u8 \<Rightarrow> nat" where
  "block_addr s b = 1024 * unat s + 4 * unat b"

fun upd_block :: "(nat \<Rightarrow> u8) \<Rightarrow> nat \<Rightarrow> bytes4 \<Rightarrow> nat \<Rightarrow> u8" where
  "upd_block m a (d0, d1, d2, d3) = m(a := d0, a + 1 := d1, a + 2 := d2, a + 3 := d3)"

lemma upd_block_idem [simp]: "upd_block (upd_block m a d) a d = upd_block m a d"
  by (cases d) (auto simp: fun_eq_iff)

text \<open>The bytes \<open>ds\<close> put on the addresses \<open>as\<close>, in order, as far as both go.\<close>

fun place :: "(nat \<Rightarrow> u8) \<Rightarrow> nat list \<Rightarrow> u8 list \<Rightarrow> nat \<Rightarrow> u8" where
  "place m (a # as) (d # ds) = place (m(a := d)) as ds"
| "place m _ _ = m"

lemma place_Nil [simp]: "place m as [] = m" "place m [] ds = m"
  by (cases as; simp)+

lemma place_induct [case_names Nil no_data step]:
  assumes "\<And>m ds. P m [] ds" and "\<And>m as. P m as []"
    and "\<And>m a as d ds. P (m(a := d)) as ds \<Longrightarrow> P m (a # as) (d # ds)"
  shows "P m as ds"
proof (induction as arbitrary: m ds)
  case (Cons a as m ds)
  then show ?case by (cases ds) (simp_all add: assms)
qed (rule assms)

lemma place_outside: "x \<notin> set as \<Longrightarrow> place m as ds x = m x"
  by (induction m as ds rule: place_induct) auto

lemma place_append:
  "place m (as @ bs) ds = place (place m as (take (length as) ds)) bs (drop (length as) ds)"
  by (induction m as ds rule: place_induct) (simp_all del: fun_upd_apply)

lemma place_take: "place m as (take (length as) ds) = place m as ds"
  by (induction m as ds rule: place_induct) (simp_all del: fun_upd_apply)

lemma place_short: "length ds \<le> length as \<Longrightarrow> place m (as @ bs) ds = place m as ds"
  by (simp add: place_append)

lemma place_nth:
  "distinct as \<Longrightarrow> i < length as \<Longrightarrow> i < length ds \<Longrightarrow> place m as ds (as ! i) = ds ! i"
proof (induction m as ds arbitrary: i rule: place_induct)
  case (step m a as d ds)
  then show ?case
    by (cases i) (simp_all add: place_outside fun_upd_same del: fun_upd_apply)
qed auto

section \<open>The interface\<close>

text \<open>
  A reader in step with its tag: the known sector is the active one, and the cache holds what the
  memory of that sector holds; with an unknown sector there is no cache.
\<close>

definition tag_cache_ok :: "('t \<Rightarrow> nat \<Rightarrow> u8) \<Rightarrow> ('t \<Rightarrow> u8) \<Rightarrow> 't reader \<Rightarrow> bool" where
  "tag_cache_ok mem active r \<longleftrightarrow>
     (\<forall>cb i. cache_block r = Some cb \<longrightarrow> i < 16 \<longrightarrow> 4 * unat cb + i < 1024 \<longrightarrow>
        cache_data r ! i = mem (transceiver r) (block_addr (active (transceiver r)) cb + i))"

definition tag_in_step :: "('t \<Rightarrow> nat \<Rightarrow> u8) \<Rightarrow> ('t \<Rightarrow> u8) \<Rightarrow> nat \<Rightarrow> 't reader \<Rightarrow> bool" where
  "tag_in_step mem active sectors r \<longleftrightarrow> reader_wf r \<and> tag_cache_ok mem active r \<and>
     (\<forall>s. sector r = Known s \<longrightarrow> active (transceiver r) = s \<and> unat s < sectors) \<and>
     (sector r = Unknown \<longrightarrow> cache_block r = None)"

text \<open>A fresh reader on an activated tag, which has sector 0 selected, is in step.\<close>

lemma reader_new_in_step:
  "active t = 0 \<Longrightarrow> 0 < sectors \<Longrightarrow> tag_in_step mem active sectors (reader_new t)"
  using reader_wf_new [of t]
  by (simp add: tag_in_step_def tag_cache_ok_def reader_new_def)

locale t2t_tag =
  fixes T :: "('t, 'e) t2t_transceiver"
    and mem :: "'t \<Rightarrow> nat \<Rightarrow> u8"
    and active :: "'t \<Rightarrow> u8"
    and sectors :: nat
    and faults :: "'e reader_error set"
  assumes sectors_bound: "0 < sectors \<and> sectors \<le> 255"
    and read_law: "transceive T [0x30, b] t = (x, t') \<Longrightarrow> unat (active t) < sectors \<Longrightarrow>
      mem t' = mem t \<and>
      (case x of
         Inl e \<Rightarrow> Transceiver e \<in> faults
       | Inr raw \<Rightarrow> active t' = active t \<and>
           (if length raw < 16 then Protocol InvalidLength \<in> faults
            else \<forall>i < 16. 4 * unat b + i < 1024 \<longrightarrow> raw ! i = mem t (block_addr (active t) b + i)))"
    and write_law: "transceive T (0xA2 # b # bytes4_list d) t = (x, t') \<Longrightarrow>
      unat (active t) < sectors \<Longrightarrow>
      mem t' \<in> {mem t, upd_block (mem t) (block_addr (active t) b) d} \<and>
      (case x of
         Inl e \<Rightarrow> Transceiver e \<in> faults
       | Inr raw \<Rightarrow> active t' = active t \<and>
           (case parse_ack raw of
              Ok Ack \<Rightarrow> mem t' = upd_block (mem t) (block_addr (active t) b) d
            | Ok (Nack c) \<Rightarrow> Protocol (NackError c) \<in> faults
            | Err e \<Rightarrow> Protocol e \<in> faults
            | _ \<Rightarrow> True))"
    and select1_law: "transceive T [0xC2, 0xFF] t = (x, t') \<Longrightarrow>
      mem t' = mem t \<and>
      (case x of
         Inl e \<Rightarrow> Transceiver e \<in> faults
       | Inr raw \<Rightarrow>
           (case parse_ack raw of
              Ok (Nack c) \<Rightarrow> Protocol (NackError c) \<in> faults
            | Err e \<Rightarrow> Protocol e \<in> faults
            | _ \<Rightarrow> True))"
    and select2_law: "transceive T [0xC2, 0xFF] t = (Inr raw, t1) \<Longrightarrow> parse_ack raw = Ok Ack \<Longrightarrow>
      transceive_no_response T [s, 0, 0, 0] t1 = (y, t2) \<Longrightarrow> unat s < sectors \<Longrightarrow>
      mem t2 = mem t1 \<and>
      (case y of
         Inl e \<Rightarrow> Transceiver e \<in> faults
       | Inr (Some c) \<Rightarrow> Protocol (NackError c) \<in> faults
       | Inr None \<Rightarrow> active t2 = s)"
begin

abbreviation memory_of :: "'t reader \<Rightarrow> nat \<Rightarrow> u8" where
  "memory_of r \<equiv> mem (transceiver r)"

lemma sector_le_MAX: "unat s < sectors \<Longrightarrow> s \<le> MAX_SECTOR"
  using sectors_bound by (simp add: MAX_SECTOR_def word_le_nat_alt)


abbreviation cache_ok :: "'t reader \<Rightarrow> bool" where
  "cache_ok \<equiv> tag_cache_ok mem active"

abbreviation in_step :: "'t reader \<Rightarrow> bool" where
  "in_step \<equiv> tag_in_step mem active sectors"

lemmas cache_ok_def = tag_cache_ok_def [of mem active]
lemmas in_step_def = tag_in_step_def [of mem active sectors]

text \<open>In step in sector \<open>s\<close> with memory \<open>m\<close>.\<close>

definition at :: "u8 \<Rightarrow> (nat \<Rightarrow> u8) \<Rightarrow> 't reader \<Rightarrow> bool" where
  "at s m r \<longleftrightarrow> in_step r \<and> sector r = Known s \<and> memory_of r = m"

definition failed :: "(nat \<Rightarrow> u8) set \<Rightarrow> 'e reader_error \<Rightarrow> 't reader \<Rightarrow> bool" where
  "failed M e r \<longleftrightarrow> e \<in> faults \<and> in_step r \<and> memory_of r \<in> M"

lemma no_cache_ok: "cache_block r = None \<Longrightarrow> cache_ok r"
  by (simp add: cache_ok_def)

lemma at_D:
  assumes "at s m r"
  shows "reader_wf r" "sector r = Known s" "active (transceiver r) = s" "unat s < sectors"
    "memory_of r = m" "cache_ok r" "in_step r"
  using assms by (simp_all add: at_def in_step_def)

lemma force_sector_select_at:
  assumes "vec_lib_ok (bytes_lib B)" and "unat s < sectors"
  shows "triple (\<lambda>r. reader_wf r \<and> memory_of r \<in> M) (force_sector_select T B s)
    (\<lambda>_ r. in_step r \<and> sector r = Known s \<and> cache_block r = None \<and> memory_of r \<in> M)
    (failed M)"
proof (unfold triple_def, intro allI impI)
  fix r
  assume r: "reader_wf r \<and> memory_of r \<in> M"
  define r1 where "r1 = (invalidate_cache r)\<lparr>sector := Unknown\<rparr>"
  have r1: "reader_wf r1" "sector r1 = Unknown" "cache_block r1 = None" "transceiver r1 = transceiver r"
    using r by (simp_all add: r1_def reader_wf_def invalidate_cache_def)
  have lost: "failed M e (r1\<lparr>transceiver := t\<rparr>)" if "e \<in> faults" "mem t \<in> M" for e t
    using that r1 by (simp add: failed_def in_step_def no_cache_ok)
  obtain x t1 where t1: "transceive T [0xC2, 0xFF] (transceiver r) = (x, t1)" by fastforce
  note run = force_sector_select_eq [OF assms(1) sector_le_MAX [OF assms(2)], of T r,
      folded r1_def, unfolded call_transceive_def r1(4) t1 prod.case]
  have m1: "mem t1 \<in> M"
    using select1_law [OF t1] r by simp
  show "case force_sector_select T B s r of
      (Ok x, r') \<Rightarrow> in_step r' \<and> sector r' = Known s \<and> cache_block r' = None \<and> memory_of r' \<in> M
    | (Err e, r') \<Rightarrow> failed M e r' | (Panic, r') \<Rightarrow> False"
  proof (cases x)
    case (Inl e)
    with select1_law [OF t1] lost [OF _ m1] show ?thesis by (simp add: run)
  next
    case (Inr raw)
    show ?thesis
    proof (cases rule: parse_ack_Ok_cases [of raw])
      case 1
      obtain y t2 where t2: "transceive_no_response T [s, 0, 0, 0] t1 = (y, t2)" by fastforce
      note law = select2_law [OF t1 [unfolded Inr] 1 t2 assms(2)]
      have "in_step (r1\<lparr>transceiver := t2, sector := Known s\<rparr>)" if "active t2 = s"
        using that r1 assms(2) sector_le_MAX [OF assms(2)]
        by (simp add: in_step_def cache_ok_def reader_wf_def le_MAX_SECTOR)
      with law m1 r1 lost Inr 1 t2 show ?thesis
        by (auto simp: run call_no_response_def split: sum.splits option.splits)
    next
      case (2 c)
      with select1_law [OF t1] lost [OF _ m1] Inr show ?thesis by (simp add: run)
    next
      case (3 e)
      with select1_law [OF t1] lost [OF _ m1] Inr show ?thesis by (simp add: run)
    qed
  qed
qed

text \<open>
  A command that keeps the memory in \<open>M\<close> and answers with \<open>A\<close>, sent with retries: the memory
  stays in \<open>M\<close> through all attempts, and the answer comes from the sector that was meant.
\<close>

lemma retry_send_at:
  assumes "vec_lib_ok (bytes_lib B)" and s: "unat s < sectors"
    and law: "\<And>t x t'. transceive T cmd t = (x, t') \<Longrightarrow> active t = s \<Longrightarrow> mem t \<in> M \<Longrightarrow>
      mem t' \<in> M \<and> (case x of Inl e \<Rightarrow> Transceiver e \<in> faults
        | Inr raw \<Rightarrow> active t' = s \<and> A raw (mem t'))"
  shows "triple
    (\<lambda>r. reader_wf r \<and> sector r = Known s \<and> active (transceiver r) = s \<and> memory_of r \<in> M \<and>
       (cache_block r = None \<or> cache_block r = cb \<and> cache_data r = cd))
    (retry_send T B (Known s) cmd k n)
    (\<lambda>raw r. reader_wf r \<and> sector r = Known s \<and> active (transceiver r) = s \<and> memory_of r \<in> M \<and>
       (cache_block r = None \<or> cache_block r = cb \<and> cache_data r = cd) \<and> A raw (memory_of r))
    (failed M)"
    (is "triple ?P _ ?Q _")
proof (induction n arbitrary: k)
  case (0 k)
  show ?case
  proof (unfold triple_def, intro allI impI)
    fix r
    assume r: "?P r"
    obtain x t where t: "transceive T cmd (transceiver r) = (x, t)" by fastforce
    with law [OF t] r show "case retry_send T B (Known s) cmd k 0 r of
        (Ok x, r') \<Rightarrow> ?Q x r' | (Err e, r') \<Rightarrow> failed M e r' | (Panic, r') \<Rightarrow> False"
      by (auto simp: retry_send_def call_transceive_def retry_loop_again invalidate_cache_def
          failed_def in_step_def cache_ok_def reader_wf_def split: sum.splits)
  qed
next
  case (Suc n k)
  have again: "triple (\<lambda>r. reader_wf r \<and> memory_of r \<in> M)
      (retry_loop T B (Known s) cmd (Suc k) (Suc n) (Some e)) ?Q (failed M)" for e
    unfolding retry_loop_again(2) [abs_def]
    by (rule triple_bind [OF force_sector_select_at [OF assms(1) s]])
      (rule triple_pre [OF Suc.IH], auto simp: in_step_def)
  show ?case
  proof (unfold triple_def, intro allI impI)
    fix r
    assume r: "?P r"
    obtain x t where t: "transceive T cmd (transceiver r) = (x, t)" by fastforce
    note law' = law [OF t]
    show "case retry_send T B (Known s) cmd k (Suc n) r of
        (Ok x, r') \<Rightarrow> ?Q x r' | (Err e, r') \<Rightarrow> failed M e r' | (Panic, r') \<Rightarrow> False"
    proof (cases x)
      case (Inl e)
      let ?r = "invalidate_cache (r\<lparr>transceiver := t, sector := Unknown\<rparr>)"
      have "reader_wf ?r \<and> memory_of ?r \<in> M"
        using r law' by (simp add: invalidate_cache_def reader_wf_def)
      with again [of e] Inl t show ?thesis
        by (simp add: triple_def retry_send_def call_transceive_def)
    next
      case (Inr raw)
      with r law' t show ?thesis
        by (auto simp: retry_send_def call_transceive_def)
    qed
  qed
qed

text \<open>A block as READ shows it.\<close>

definition shows_block :: "(nat \<Rightarrow> u8) \<Rightarrow> u8 \<Rightarrow> u8 \<Rightarrow> u8 list \<Rightarrow> bool" where
  "shows_block m s b d \<longleftrightarrow> length d = 16 \<and>
     (\<forall>i < 16. 4 * unat b + i < 1024 \<longrightarrow> d ! i = m (block_addr s b + i))"

lemma shows_block_length: "shows_block m s b d \<Longrightarrow> length d = 16"
  by (simp add: shows_block_def)

lemma shows_block_4:
  "shows_block m s b d \<Longrightarrow> take 4 d = map m [block_addr s b ..< block_addr s b + 4]"
  using u8_unat_lt [of b]
  by (intro nth_equalityI) (auto simp: shows_block_def simp del: u8_unat_lt)

lemma read_block_at:
  assumes "vec_lib_ok (bytes_lib B)"
  shows "triple (at s m) (read_block T B b)
    (\<lambda>d r. at s m r \<and> shows_block m s b d \<and> cache_block r = Some b) (failed {m})"
proof (unfold triple_def, intro allI impI)
  fix r
  assume "at s m r"
  note at = at_D [OF this]
  define A where "A raw m' \<longleftrightarrow> (if length raw < 16 then Protocol InvalidLength \<in> faults
      else \<forall>i < 16. 4 * unat b + i < 1024 \<longrightarrow> raw ! i = m' (block_addr s b + i))" for raw :: "u8 list" and m'
  have "triple
    (\<lambda>q. reader_wf q \<and> sector q = Known s \<and> active (transceiver q) = s \<and> memory_of q \<in> {m} \<and>
       (cache_block q = None \<or> cache_block q = cache_block r \<and> cache_data q = cache_data r))
    (retry_send T B (Known s) [0x30, b] 0 (unat (max_retries r)))
    (\<lambda>raw q. reader_wf q \<and> sector q = Known s \<and> active (transceiver q) = s \<and> memory_of q \<in> {m} \<and>
       (cache_block q = None \<or> cache_block q = cache_block r \<and> cache_data q = cache_data r) \<and>
       A raw (memory_of q)) (failed {m})"
  proof (rule retry_send_at [OF assms at(4)])
    fix t x t'
    assume "transceive T [0x30, b] t = (x, t')" "active t = s" "mem t \<in> {m}"
    then show "mem t' \<in> {m} \<and> (case x of Inl e \<Rightarrow> Transceiver e \<in> faults
        | Inr raw \<Rightarrow> active t' = s \<and> A raw (mem t'))"
      using read_law [of b t x t'] at(4) by (auto simp: A_def split: sum.splits)
  qed
  moreover have "reader_wf r \<and> sector r = Known s \<and> active (transceiver r) = s \<and> memory_of r \<in> {m} \<and>
      (cache_block r = None \<or> cache_block r = cache_block r \<and> cache_data r = cache_data r)"
    using at by simp
  ultimately have send: "case transceive_with_retry T B [0x30, b] r of
      (Ok raw, q) \<Rightarrow> reader_wf q \<and> sector q = Known s \<and> active (transceiver q) = s \<and> memory_of q = m \<and>
       (cache_block q = None \<or> cache_block q = cache_block r \<and> cache_data q = cache_data r) \<and>
       A raw (memory_of q)
    | (Err e, q) \<Rightarrow> failed {m} e q | (Panic, q) \<Rightarrow> False"
    by (simp add: triple_def transceive_with_retry_eq at(2))
  show "case read_block T B b r of
      (Ok d, r') \<Rightarrow> at s m r' \<and> shows_block m s b d \<and> cache_block r' = Some b
    | (Err e, r') \<Rightarrow> failed {m} e r' | (Panic, r') \<Rightarrow> False"
  proof (cases "cache_block r = Some b")
    case True
    with at \<open>at s m r\<close> show ?thesis
      by (simp add: read_block_def shows_block_def cache_ok_def reader_wf_def)
  next
    case False
    note eq = read_block_def [of T B b r, unfolded command_to_bytes_wire [OF assms] wire.simps]
    show ?thesis
    proof (cases "transceive_with_retry T B [0x30, b] r")
      case (Pair x q)
      show ?thesis
      proof (cases x)
        case (Ok raw)
        have q: "reader_wf q" "sector q = Known s" "active (transceiver q) = s" "memory_of q = m"
          "cache_ok q" "A raw m"
          using send at(3,5,6) unfolding Pair Ok by (auto simp: cache_ok_def)
        show ?thesis
        proof (cases "length raw < 16")
          case True
          with q at(4) show ?thesis
            by (simp add: eq False op_bind_def Pair Ok failed_def in_step_def A_def)
        next
          case False
          with q at(4) \<open>cache_block r \<noteq> Some b\<close> show ?thesis
            by (simp add: eq op_bind_def Pair Ok at_def in_step_def A_def shows_block_def
                cache_ok_def reader_wf_def)
        qed
      next
        case (Err e)
        with send Pair False show ?thesis by (simp add: eq op_bind_def)
      next
        case Panic
        with send Pair show ?thesis by simp
      qed
    qed
  qed
qed

lemma write_block_at:
  assumes "vec_lib_ok (bytes_lib B)"
  defines "upd m s b d \<equiv> upd_block m (block_addr s b) d"
  shows "triple (at s m) (write_block T B b d) (\<lambda>_. at s (upd m s b d)) (failed {m, upd m s b d})"
proof (unfold triple_def, intro allI impI)
  fix r
  assume "at s m r"
  note at = at_D [OF this]
  let ?M = "{m, upd m s b d}"
  define A where "A raw m' \<longleftrightarrow> (case parse_ack raw of
              Ok Ack \<Rightarrow> m' = upd m s b d
            | Ok (Nack c) \<Rightarrow> Protocol (NackError c) \<in> faults
            | Err e \<Rightarrow> Protocol e \<in> faults
            | _ \<Rightarrow> True)" for raw m'
  let ?cmd = "0xA2 # b # bytes4_list d"
  have hoare: "triple
    (\<lambda>q. reader_wf q \<and> sector q = Known s \<and> active (transceiver q) = s \<and> memory_of q \<in> ?M \<and>
       (cache_block q = None \<or> cache_block q = cache_block r \<and> cache_data q = cache_data r))
    (retry_send T B (Known s) ?cmd 0 (unat (max_retries r)))
    (\<lambda>raw q. reader_wf q \<and> sector q = Known s \<and> active (transceiver q) = s \<and> memory_of q \<in> ?M \<and>
       (cache_block q = None \<or> cache_block q = cache_block r \<and> cache_data q = cache_data r) \<and>
       A raw (memory_of q)) (failed ?M)"
  proof (rule retry_send_at [OF assms(1) at(4)])
    fix t x t'
    assume t: "transceive T ?cmd t = (x, t')" "active t = s" "mem t \<in> ?M"
    then have "upd (mem t) s b d = upd m s b d"
      by (auto simp: upd_def)
    with t show "mem t' \<in> ?M \<and> (case x of Inl e \<Rightarrow> Transceiver e \<in> faults
        | Inr raw \<Rightarrow> active t' = s \<and> A raw (mem t'))"
      using write_law [OF t(1), folded upd_def] at(4)
      by (auto simp: A_def split: sum.splits res.splits answer.splits)
  qed
  have send: "case transceive_with_retry T B ?cmd r of
      (Ok raw, q) \<Rightarrow> reader_wf q \<and> sector q = Known s \<and> active (transceiver q) = s \<and>
        memory_of q \<in> ?M \<and> A raw (memory_of q)
    | (Err e, q) \<Rightarrow> failed ?M e q | (Panic, q) \<Rightarrow> False"
    unfolding transceive_with_retry_eq at(2) by (rule triple_at [OF hoare]) (use at in auto)
  note eq = write_block_def [of T B b d, unfolded command_to_bytes_wire [OF assms(1)] wire.simps]
  show "case write_block T B b d r of
      (Ok _, r') \<Rightarrow> at s (upd m s b d) r' | (Err e, r') \<Rightarrow> failed ?M e r' | (Panic, r') \<Rightarrow> False"
  proof (cases "transceive_with_retry T B ?cmd r")
    case (Pair x q)
    show ?thesis
    proof (cases x)
      case (Ok raw)
      have q: "reader_wf q" "sector q = Known s" "active (transceiver q) = s" "memory_of q \<in> ?M"
        "A raw (memory_of q)"
        using send unfolding Pair Ok by auto
      have "at s (memory_of q) (invalidate_cache q)"
        using q at(4) by (simp add: at_def in_step_def invalidate_cache_def cache_ok_def reader_wf_def)
      moreover have "failed ?M e (invalidate_cache q)" if "e \<in> faults" for e
        using q that calculation by (simp add: failed_def at_def invalidate_cache_def)
      ultimately show ?thesis
        using q(5) by (cases rule: parse_ack_Ok_cases [of raw])
          (auto simp: eq op_bind_def Pair Ok A_def Let_def)
    qed (use send Pair in \<open>auto simp: eq op_bind_def\<close>)
  qed
qed

lemma ensure_sector_at:
  assumes "vec_lib_ok (bytes_lib B)" and "unat s < sectors"
  shows "triple (\<lambda>r. in_step r \<and> memory_of r = m \<and> (sector r = Known s \<longrightarrow> P r))
    (ensure_sector T B s) (\<lambda>_ r. at s m r \<and> (cache_block r = None \<or> P r)) (failed {m})"
proof (unfold triple_def, intro allI impI)
  fix r
  assume r: "in_step r \<and> memory_of r = m \<and> (sector r = Known s \<longrightarrow> P r)"
  show "case ensure_sector T B s r of
      (Ok x, r') \<Rightarrow> at s m r' \<and> (cache_block r' = None \<or> P r')
    | (Err e, r') \<Rightarrow> failed {m} e r' | (Panic, r') \<Rightarrow> False"
  proof (cases "sector r = Known s")
    case True
    with r show ?thesis by (simp add: ensure_sector_def at_def)
  next
    case False
    then have "ensure_sector T B s r = force_sector_select T B s r"
      using leD [OF sector_le_MAX [OF assms(2)]] by (simp add: ensure_sector_def sector_select_def)
    moreover have "reader_wf r \<and> memory_of r \<in> {m}"
      using r by (simp add: in_step_def)
    ultimately show ?thesis
      using triple_at [OF force_sector_select_at [OF assms, of "{m}"]]
      by (simp add: at_def)
  qed
qed

text \<open>
  A block number is at or after the cached one, or so far from it that it is not served from the
  cache: the wrapped difference never points past the end of a sector.
\<close>

definition no_wrap :: "u8 \<Rightarrow> 't reader \<Rightarrow> bool" where
  "no_wrap b r \<longleftrightarrow> (\<forall>cb. cache_block r = Some cb \<longrightarrow> unat cb \<le> unat b \<or> 4 \<le> unat (b - cb))"

lemma fetch_block_at:
  assumes "vec_lib_ok (bytes_lib B)"
  shows "triple (\<lambda>r. at s m r \<and> no_wrap b r) (fetch_block T B b)
    (\<lambda>d r. at s m r \<and> d = map m [block_addr s b ..< block_addr s b + 4] \<and>
       (\<exists>cb. cache_block r = Some cb \<and> unat cb \<le> unat b))
    (failed {m})"
proof (unfold triple_def, intro allI impI)
  fix r
  assume r: "at s m r \<and> no_wrap b r"
  note at = at_D [OF r [THEN conjunct1]]
  let ?read = "op_bind (read_block T B b) (\<lambda>d. op_lift (slice d 0 4))"
  have "triple (at s m) ?read (\<lambda>d r. at s m r \<and> d = map m [block_addr s b ..< block_addr s b + 4] \<and>
       (\<exists>cb. cache_block r = Some cb \<and> unat cb \<le> unat b)) (failed {m})"
    by (rule triple_bind [OF read_block_at [OF assms]], rule triple_lift)
      (auto simp: shows_block_4 shows_block_length)
  then have read: "case ?read r of
      (Ok d, r') \<Rightarrow> at s m r' \<and> d = map m [block_addr s b ..< block_addr s b + 4] \<and>
        (\<exists>cb. cache_block r' = Some cb \<and> unat cb \<le> unat b)
    | (Err e, r') \<Rightarrow> failed {m} e r' | (Panic, r') \<Rightarrow> False"
    using r by (simp add: triple_def)
  have cached: "take 4 (drop (4 * unat (b - cb)) (cache_data r)) =
      map m [block_addr s b ..< block_addr s b + 4] \<and> unat cb \<le> unat b"
    if cb: "cache_block r = Some cb" "unat (b - cb) < 4" for cb
  proof -
    have le: "unat cb \<le> unat b"
      using r cb by (auto simp: no_wrap_def)
    then have d: "unat (b - cb) = unat b - unat cb"
      by (simp add: unat_sub word_le_nat_alt)
    have "cache_data r ! (4 * (unat b - unat cb) + i) = m (block_addr s b + i)" if "i < 4" for i
    proof -
      have "4 * (unat b - unat cb) + i < 16" "4 * unat cb + (4 * (unat b - unat cb) + i) < 1024"
        using that cb(2) le u8_unat_lt [of b] by (simp_all add: d del: u8_unat_lt)
      moreover have "block_addr s cb + (4 * (unat b - unat cb) + i) = block_addr s b + i"
        using le by (simp add: block_addr_def)
      ultimately show ?thesis
        using at(3,5,6) cb(1) unfolding cache_ok_def by metis
    qed
    moreover have "4 * (unat b - unat cb) + 4 \<le> length (cache_data r)"
      using at(1) cb(2) by (simp add: reader_wf_def d)
    ultimately have "take 4 (drop (4 * unat (b - cb)) (cache_data r)) =
        map m [block_addr s b ..< block_addr s b + 4]"
      by (intro nth_equalityI) (auto simp: d)
    with le show ?thesis by blast
  qed
  show "case fetch_block T B b r of
      (Ok d, r') \<Rightarrow> at s m r' \<and> d = map m [block_addr s b ..< block_addr s b + 4] \<and>
        (\<exists>cb. cache_block r' = Some cb \<and> unat cb \<le> unat b)
    | (Err e, r') \<Rightarrow> failed {m} e r' | (Panic, r') \<Rightarrow> False"
    using read cached r at(1)
    by (auto simp: fetch_block_eq reader_wf_length split: option.splits)
qed

end

end
