(* ===== verification/Area_Read.thy ===== *)
theory Area_Read
  imports Conforming
begin

text \<open>
  What \<open>read_data_area\<close> returns on a conforming tag: the usable bytes of the data area in order,
  up to the byte where the scanner reports the Terminator.
\<close>

section \<open>The bytes of an area\<close>

text \<open>The loop of \<open>read_data_area\<close> over the usable bytes alone.\<close>

fun area_scan :: "build \<Rightarrow> tlv_scan_state \<Rightarrow> u8 list \<Rightarrow> u8 list \<Rightarrow> (type2_error, u8 list) res" where
  "area_scan B sc res [] = Ok res"
| "area_scan B sc res (x # xs) =
     (if vec_fits (bytes_lib B) DATA_VEC_CAP (Suc (length res)) then
        (case feed x sc of (stop, sc') \<Rightarrow>
           if stop then Ok (res @ [x]) else area_scan B sc' (res @ [x]) xs)
      else Err type2_error.BufferFull)"

text \<open>The bytes up to the Terminator, or all.\<close>

definition up_to_stop :: "tlv_scan_state \<Rightarrow> u8 list \<Rightarrow> u8 list" where
  "up_to_stop sc bs = (case scan sc bs of Some k \<Rightarrow> take (Suc k) bs | None \<Rightarrow> bs)"

lemma up_to_stop_Cons:
  "up_to_stop sc (x # xs) =
     (case feed x sc of (stop, sc') \<Rightarrow> if stop then [x] else x # up_to_stop sc' xs)"
  by (auto simp: up_to_stop_def split: prod.splits option.splits)

lemma up_to_stop_Nil [simp]: "up_to_stop sc [] = []"
  by (simp add: up_to_stop_def split: option.splits)

lemma area_scan_eq:
  assumes "vec_lib_ok (bytes_lib B)" and "vec_fits (bytes_lib B) DATA_VEC_CAP (length res)"
  shows "area_scan B sc res bs =
    (if vec_fits (bytes_lib B) DATA_VEC_CAP (length res + length (up_to_stop sc bs))
     then Ok (res @ up_to_stop sc bs) else Err type2_error.BufferFull)"
  using assms(2)
proof (induction bs arbitrary: sc res)
  case (Cons x xs)
  show ?case
  proof (cases "vec_fits (bytes_lib B) DATA_VEC_CAP (Suc (length res))")
    case True
    then show ?thesis
      using Cons.IH [of "res @ [x]"] by (auto simp: up_to_stop_Cons split: prod.splits)
  next
    case False
    then have "\<not> vec_fits (bytes_lib B) DATA_VEC_CAP (length res + Suc n)" for n
      using vec_fits_mono [OF assms(1)] by (metis add_Suc_right le_add1 Suc_le_mono)
    with False show ?thesis
      by (auto simp: up_to_stop_Cons split: prod.splits)
  qed
qed simp

text \<open>One block of the area.\<close>

abbreviation usable_bytes :: "memory_layout \<Rightarrow> (nat \<Rightarrow> u8) \<Rightarrow> nat \<Rightarrow> nat \<Rightarrow> u8 list" where
  "usable_bytes layout m a n \<equiv> map m (filter (usable layout) [a ..< a + n])"

lemma read_block_bytes_scan:
  fixes m :: "nat \<Rightarrow> u8"
  assumes "vec_lib_ok (bytes_lib B)" and "unat a + n < 4294967296"
    and "br \<le> data_area_size layout"
  defines "ub \<equiv> usable_bytes layout m (unat a) n" and "N \<equiv> unat (data_area_size layout)"
  shows "case read_block_bytes B layout a (map m [unat a ..< unat a + n]) (res, br, sc) of
      Err e \<Rightarrow> e = type2_error.BufferFull \<and>
        (\<forall>rest. area_scan B sc res (take (N - unat br) (ub @ rest)) = Err type2_error.BufferFull)
    | Ok (Break (res', _, _)) \<Rightarrow>
        (\<forall>rest. area_scan B sc res (take (N - unat br) (ub @ rest)) = Ok res')
    | Ok (Continue (res', br', sc')) \<Rightarrow>
        br' \<le> data_area_size layout \<and> unat br' = unat br + length ub \<and>
        (\<forall>rest. area_scan B sc res (take (N - unat br) (ub @ rest)) =
           area_scan B sc' res' (take (N - unat br') rest))
    | Panic \<Rightarrow> False"
  using assms(2,3) unfolding ub_def
proof (induction n arbitrary: a res br sc)
  case (Suc n)
  have a1: "unat (a + 1) = Suc (unat a)"
    using Suc.prems(1) by (simp add: unat_word_ariths)
  have range: "[unat a ..< unat a + Suc n] = unat a # [unat (a + 1) ..< unat (a + 1) + n]"
    by (subst upt_conv_Cons) (simp_all add: a1 del: upt_Suc)
  have bytes: "map m [unat a ..< unat a + Suc n] = m (unat a) # map m [unat (a + 1) ..< unat (a + 1) + n]"
    by (simp only: range list.map)
  have us: "usable layout (unat a) \<longleftrightarrow> \<not> is_skip_area layout a"
    by (simp add: usable_def)
  have ub: "usable_bytes layout m (unat a) (Suc n) =
      (if is_skip_area layout a then [] else [m (unat a)]) @ usable_bytes layout m (unat (a + 1)) n"
    by (simp only: range filter.simps us) simp
  have "unat (a + 1) + n < 4294967296"
    using Suc.prems(1) by (simp add: a1)
  note IH = Suc.IH [OF this]
  define bs u where "bs = map m [unat (a + 1) ..< unat (a + 1) + n]"
    and "u = usable_bytes layout m (unat (a + 1)) n"
  note IH = IH [folded bs_def u_def] and bytes = bytes [folded bs_def] and ub = ub [folded u_def]
  have ub_skip: "is_skip_area layout a \<Longrightarrow> usable_bytes layout m (unat a) (Suc n) = u"
    and ub_use: "\<not> is_skip_area layout a \<Longrightarrow> usable_bytes layout m (unat a) (Suc n) = m (unat a) # u"
    unfolding ub by simp_all
  show ?case
  proof (cases "is_skip_area layout a")
    case True
    then show ?thesis
      using IH [of br sc res] Suc.prems(2) unfolding bytes ub_skip [OF True] by simp
  next
    case False
    show ?thesis
    proof (cases "br < data_area_size layout")
      case br: False
      then have "N - unat br = 0"
        by (simp add: N_def word_less_nat_alt)
      with br False show ?thesis
        unfolding bytes ub_use [OF False] by (simp add: not_less)
    next
      case br: True
      have br1: "unat (br + 1) = Suc (unat br)" "br + 1 \<le> data_area_size layout"
        using br u16_unat_lt [of "data_area_size layout"]
        by (simp_all add: word_less_nat_alt word_le_nat_alt unat_word_ariths del: u16_unat_lt)
      have N: "N - unat br = Suc (N - unat (br + 1))"
        using br by (simp add: N_def br1 word_less_nat_alt)
      obtain stop sc' where f: "feed (m (unat a)) sc = (stop, sc')" by fastforce
      show ?thesis
      proof (cases "vec_fits (bytes_lib B) DATA_VEC_CAP (Suc (length res)) \<and> \<not> stop")
        case True
        then show ?thesis
          using IH [of "br + 1" sc' "res @ [m (unat a)]"] br br1 False f
          unfolding bytes ub_use [OF False] N
          by (simp add: try_push_eq [OF assms(1)] not_le
              split: res.splits flow.splits prod.splits)
      next
        case stop: False
        then show ?thesis
          using br False f unfolding bytes ub_use [OF False] N
          by (auto simp: try_push_eq [OF assms(1)] not_le)
      qed
    qed
  qed
qed (simp add: assms)

section \<open>Reading the area of a tag\<close>

lemma aligned_block:
  assumes "address_to_sector_block a = Some (s, b, offs)" and "4 dvd unat a"
  shows "offs = 0" and "block_addr s b = unat a" and "unat s = unat a div 1024"
    and "unat a + 4 \<le> 261120"
proof -
  note D = address_to_sector_blockD [OF assms(1)]
  show "offs = 0"
    using assms(2) D(4) by (simp add: word_unat_eq_iff mod_eq_0_iff_dvd)
  then show "block_addr s b = unat a"
    using D(5) by (simp add: block_addr_def)
  show "unat s = unat a div 1024" by (rule D)
  obtain k where "unat a = 4 * k" using assms(2) by (auto simp: dvd_def)
  then show "unat a + 4 \<le> 261120" using D(1) by simp
qed

lemma usable_from_block:
  assumes "a + 4 \<le> 261120"
  shows "usable_from layout a = filter (usable layout) [a ..< a + 4] @ usable_from layout (a + 4)"
proof -
  have "[a ..< space_end] = [a ..< a + 4] @ [a + 4 ..< space_end]"
    using assms by (metis upt_add_eq_append le_add1 le_add_diff_inverse space_end_eq)
  then show ?thesis
    by (simp add: usable_from_def)
qed

lemma usable_from_ge: "i < length (usable_from layout a) \<Longrightarrow> a \<le> usable_from layout a ! i"
  using nth_mem [of i "usable_from layout a"] by (simp add: usable_from_mem)

context t2t_tag
begin

definition ready_at :: "u32 \<Rightarrow> 't reader \<Rightarrow> bool" where
  "ready_at a r \<longleftrightarrow> (\<forall>s b offs. address_to_sector_block a = Some (s, b, offs) \<longrightarrow>
     sector r = Known s \<longrightarrow> no_wrap b r)"

lemma no_wrap_after_start:
  assumes "unat b = 4"
  shows "no_wrap b r"
proof -
  have "unat cb \<le> unat b \<or> 4 \<le> unat (b - cb)" for cb
    using assms u8_unat_lt [of cb] by (auto simp: unat_sub_if' simp del: u8_unat_lt)
  then show ?thesis by (simp add: no_wrap_def)
qed

lemma ready_at_start: "ready_at data_start_addr r"
  unfolding ready_at_def data_start_addr_def geometry
  by (auto simp: address_to_sector_block_eq intro!: no_wrap_after_start)

lemma ready_at_next:
  assumes "at s m r" and "cache_block r = Some cb" and "unat cb \<le> unat b"
    and "address_to_sector_block a = Some (s, b, offs)" and "4 dvd unat a"
  shows "ready_at (a + of_nat BLOCK_SIZE) r"
  unfolding ready_at_def
proof (intro allI impI)
  fix s' b' offs'
  assume nxt: "address_to_sector_block (a + of_nat BLOCK_SIZE) = Some (s', b', offs')"
    and "sector r = Known s'"
  then have "s' = s" using assms(1) by (simp add: at_def)
  have less: "a < ADDRESS_SPACE_END"
    by (rule address_to_sector_block_Some [OF assms(4)])
  have "block_addr s' b' = unat a + 4"
    using aligned_block(2) [OF nxt] assms(5) by (simp add: unat_add_4 [OF less])
  then have "unat b' = Suc (unat b)"
    using aligned_block(2) [OF assms(4,5)] \<open>s' = s\<close> by (simp add: block_addr_def)
  then show "no_wrap b' r"
    using assms(2,3) by (simp add: no_wrap_def)
qed

lemma read_area_loop_at:
  assumes "vec_lib_ok (bytes_lib B)" and "4 dvd unat a" and "br \<le> data_area_size layout"
    and "N = unat (data_area_size layout)"
    and "N - unat br \<le> length (usable_from layout (unat a))"
    and "unat br < N \<Longrightarrow> usable_from layout (unat a) ! (N - unat br - 1) < 1024 * sectors"
  shows "triple (\<lambda>r. in_step r \<and> memory_of r = m \<and> ready_at a r)
    (read_area_loop T B layout a (res, br, sc))
    (\<lambda>x r. in_step r \<and> memory_of r = m \<and>
       area_scan B sc res (take (N - unat br) (map m (usable_from layout (unat a)))) = Ok x)
    (\<lambda>e r. in_step r \<and> memory_of r = m \<and> (e \<in> faults \<or> (\<exists>e'. e = Protocol e' \<and>
       area_scan B sc res (take (N - unat br) (map m (usable_from layout (unat a)))) = Err e')))"
  using assms(2-6)
proof (induction a arbitrary: res br sc rule: addr_induct)
  case (1 a)
  let ?us = "usable_from layout (unat a)"
  show ?case
  proof (cases "unat br < N")
    case False
    then have "\<not> br < data_area_size layout" "N - unat br = 0"
      using "1.prems"(3) by (simp_all add: word_less_nat_alt)
    then show ?thesis
      unfolding read_area_loop_op [of T B layout a] by (auto intro: triple_return)
  next
    case True
    then have br: "br < data_area_size layout"
      using "1.prems"(3) by (simp add: word_less_nat_alt)
    have last: "N - unat br - 1 < length ?us"
      using "1.prems"(4) True by simp
    have "unat a < 261120"
      using usable_from_ge [OF last] usable_addr_bound [OF last] by simp
    then obtain s b offs where addr: "address_to_sector_block a = Some (s, b, offs)"
      using address_to_sector_block_less by blast
    note blk = aligned_block [OF addr "1.prems"(1)]
    have "unat a < 1024 * sectors"
      using usable_from_ge [OF last] "1.prems"(5) [OF True] by simp
    then have s: "unat s < sectors"
      unfolding blk(3) by (simp add: less_mult_imp_div_less mult.commute)
    have less: "a < ADDRESS_SPACE_END"
      by (rule address_to_sector_block_Some [OF addr])
    let ?ub = "usable_bytes layout m (unat a) 4"
    let ?a' = "a + of_nat BLOCK_SIZE"
    note a' = unat_add_4 [OF less]
    have us: "map m ?us = ?ub @ map m (usable_from layout (unat ?a'))"
      using usable_from_block [OF blk(4)] by (simp add: a')
    let ?goal = "\<lambda>res br sc as. area_scan B sc res (take (N - unat br) (map m as))"
    let ?Q = "\<lambda>x r. in_step r \<and> memory_of r = m \<and> ?goal res br sc ?us = Ok x"
    let ?E = "\<lambda>e r. in_step r \<and> memory_of r = m \<and>
      (e \<in> faults \<or> (\<exists>e'. e = Protocol e' \<and> ?goal res br sc ?us = Err e'))"
    let ?block = "\<lambda>d r. at s m r \<and> d = map m [unat a ..< unat a + 4] \<and>
      (\<exists>cb. cache_block r = Some cb \<and> unat cb \<le> unat b)"
    have fetch: "triple (\<lambda>r. in_step r \<and> memory_of r = m \<and> ready_at a r)
        (op_bind (ensure_sector T B s) (\<lambda>_. fetch_block T B b)) ?block ?E"
    proof (rule triple_bind)
      show "triple (\<lambda>r. in_step r \<and> memory_of r = m \<and> ready_at a r) (ensure_sector T B s)
          (\<lambda>_ r. at s m r \<and> no_wrap b r) ?E"
        by (rule triple_weaken [OF ensure_sector_at [OF assms(1) s, of m "no_wrap b"]])
          (auto simp: ready_at_def addr failed_def no_wrap_def)
      show "triple (\<lambda>r. at s m r \<and> no_wrap b r) (fetch_block T B b) ?block ?E"
        by (rule triple_weaken [OF fetch_block_at [OF assms(1)]]) (auto simp: failed_def blk(2))
    qed
    have step: "triple (?block d)
        (scan_step (read_block_bytes B layout a d (res, br, sc)) (read_area_loop T B layout ?a')) ?Q ?E"
      if d: "d = map m [unat a ..< unat a + 4]" for d
    proof -
      have "unat a + 4 < 4294967296"
        using blk(4) by simp
      note scan = read_block_bytes_scan [OF assms(1) this "1.prems"(2), where m = m and res = res and sc = sc,
          folded d "1.prems"(3)]
      show ?thesis
      proof (cases "read_block_bytes B layout a d (res, br, sc)")
        case (Err e)
        with scan have "?goal res br sc ?us = Err e"
          unfolding us by simp
        with Err show ?thesis
          by (auto simp: scan_step_def triple_def op_defs at_def)
      next
        case Panic
        with read_block_bytes_no_Panic show ?thesis by simp
      next
        case (Ok f)
        show ?thesis
        proof (cases f)
          case (Break acc)
          obtain res' br' sc' where acc: "acc = (res', br', sc')" by (cases acc)
          have "?goal res br sc ?us = Ok res'"
            using scan unfolding us Ok Break acc by simp
          with Ok Break acc show ?thesis
            by (auto simp: scan_step_def triple_def op_defs at_def)
        next
          case (Continue acc)
          obtain res' br' sc' where acc: "acc = (res', br', sc')" by (cases acc)
          have br': "br' \<le> data_area_size layout" "unat br' = unat br + length ?ub"
            and same: "?goal res br sc ?us = ?goal res' br' sc' (usable_from layout (unat ?a'))"
            using scan unfolding us Ok Continue acc by simp_all
          have len: "length ?us = length ?ub + length (usable_from layout (unat ?a'))"
            using us by (metis length_append length_map)
          have nth: "usable_from layout (unat ?a') ! (N - unat br' - 1) < 1024 * sectors"
            if "unat br' < N"
          proof -
            have "?us ! (N - unat br - 1) = usable_from layout (unat ?a') ! (N - unat br - 1 - length ?ub)"
              using that br'(2) usable_from_block [OF blk(4), of layout]
              by (auto simp: a' nth_append)
            with "1.prems"(5) [OF True] br'(2) show ?thesis by (simp add: diff_diff_add)
          qed
          have "triple (\<lambda>r. in_step r \<and> memory_of r = m \<and> ready_at ?a' r)
              (read_area_loop T B layout ?a' (res', br', sc')) ?Q ?E"
            unfolding same
            by (rule "1.IH" [OF less])
              (use "1.prems"(1,3,4) br' len nth in \<open>auto simp: a'\<close>)
          then have "triple (?block d) (read_area_loop T B layout ?a' (res', br', sc')) ?Q ?E"
            by (rule triple_pre) (use addr "1.prems"(1) in \<open>auto simp: at_def intro: ready_at_next\<close>)
          then show ?thesis
            by (simp add: scan_step_def Ok Continue acc)
        qed
      qed
    qed
    have "triple (\<lambda>r. in_step r \<and> memory_of r = m \<and> ready_at a r)
        (op_bind (op_bind (ensure_sector T B s) (\<lambda>_. fetch_block T B b)) (\<lambda>d.
           scan_step (read_block_bytes B layout a d (res, br, sc)) (read_area_loop T B layout ?a'))) ?Q ?E"
    proof (rule triple_bind [OF fetch])
      fix d
      show "triple (?block d) (scan_step (read_block_bytes B layout a d (res, br, sc))
          (read_area_loop T B layout ?a')) ?Q ?E"
        by (rule triple_pure [where b = "d = map m [unat a ..< unat a + 4]"]) (blast, erule step)
    qed
    then show ?thesis
      unfolding read_area_loop_op [of T B layout a] addr option.case prod.case using br by simp
  qed
qed

end

end
