(* ===== verification/Ndef_Read.thy ===== *)
theory Ndef_Read
  imports Area_Read
begin

text \<open>
  What \<open>read_ndef\<close> returns, as a function of the memory of the tag alone, and the proof that the
  procedure computes it on every conforming tag.
\<close>

section \<open>The message in a memory\<close>

definition area_bytes :: "memory_layout \<Rightarrow> (nat \<Rightarrow> u8) \<Rightarrow> u8 list" where
  "area_bytes layout m = take (unat (data_area_size layout)) (map m (usable_addrs layout))"

definition scanned_area :: "build \<Rightarrow> memory_layout \<Rightarrow> (nat \<Rightarrow> u8) \<Rightarrow> (type2_error, u8 list) res" where
  "scanned_area B layout m =
     (let bs = up_to_stop scanner_new (area_bytes layout m) in
      if vec_fits (bytes_lib B) DATA_VEC_CAP (length bs) then Ok bs else Err type2_error.BufferFull)"

definition tlvs_in :: "build \<Rightarrow> memory_layout \<Rightarrow> (nat \<Rightarrow> u8) \<Rightarrow> (type2_error, tlv list) res" where
  "tlvs_in B layout m =
     res_bind (scanned_area B layout m) (parse_tlvs (bytes_lib B) (tlv_lib B))"

definition cc_in :: "(nat \<Rightarrow> u8) \<Rightarrow> (type2_error, capability_container) res" where
  "cc_in m = cc_try_from (m 12, m 13, m 14, m 15)"

text \<open>The blocks of the data area, after the second pass that skips lock and reserved areas.\<close>

definition blocks_in :: "build \<Rightarrow> capability_container \<Rightarrow> (nat \<Rightarrow> u8) \<Rightarrow> (type2_error, tlv list) res" where
  "blocks_in B cc m =
     res_bind (tlvs_in B (layout_of cc []) m) (\<lambda>ts.
     if is_dynamic cc \<and> list_ex is_control ts then tlvs_in B (layout_of cc ts) m else Ok ts)"

definition message_in :: "build \<Rightarrow> (nat \<Rightarrow> u8) \<Rightarrow> (type2_error, u8 list) res" where
  "message_in B m =
     res_bind (cc_in m) (\<lambda>cc.
     if \<not> is_valid cc then Err (InvalidMagic 0)
     else res_bind (blocks_in B cc m) (\<lambda>ts.
       Ok (case first_ndef ts of Some data \<Rightarrow> data | None \<Rightarrow> [])))"

text \<open>The data area of a layout lies in the first \<open>sectors\<close> sectors of the tag.\<close>

definition in_reach :: "nat \<Rightarrow> memory_layout \<Rightarrow> bool" where
  "in_reach sectors layout \<longleftrightarrow>
     (let n = unat (data_area_size layout); us = usable_addrs layout
      in n \<le> length us \<and> (n = 0 \<or> us ! (n - 1) < 1024 * sectors))"

text \<open>Both passes over the data area stay inside the tag.\<close>

definition passes_in_reach :: "nat \<Rightarrow> build \<Rightarrow> capability_container \<Rightarrow> (nat \<Rightarrow> u8) \<Rightarrow> bool" where
  "passes_in_reach sectors B cc m \<longleftrightarrow> in_reach sectors (layout_of cc []) \<and>
     (\<forall>ts. tlvs_in B (layout_of cc []) m = Ok ts \<longrightarrow> in_reach sectors (layout_of cc ts))"

definition seen_area :: "build \<Rightarrow> capability_container \<Rightarrow> (nat \<Rightarrow> u8) \<Rightarrow> (type2_error, u8 list) res" where
  "seen_area B cc m =
     res_bind (scanned_area B (layout_of cc []) m) (\<lambda>bs.
     res_bind (parse_tlvs (bytes_lib B) (tlv_lib B) bs) (\<lambda>ts.
     if is_dynamic cc \<and> list_ex is_control ts then scanned_area B (layout_of cc ts) m else Ok bs))"

section \<open>Reading\<close>

context t2t_tag
begin

text \<open>An operation that leaves the memory alone and computes \<open>spec\<close>, unless the tag fails.\<close>

definition computes :: "(nat \<Rightarrow> u8) \<Rightarrow> ('t, 'e, 'a) rop \<Rightarrow> (type2_error, 'a) res \<Rightarrow> bool" where
  "computes m f spec \<longleftrightarrow> triple (\<lambda>r. in_step r \<and> memory_of r = m) f
     (\<lambda>x r. in_step r \<and> memory_of r = m \<and> spec = Ok x)
     (\<lambda>e r. in_step r \<and> memory_of r = m \<and> (e \<in> faults \<or> (\<exists>e'. e = Protocol e' \<and> spec = Err e')))"

lemma computes_bind:
  assumes "computes m f spec" and "\<And>x. spec = Ok x \<Longrightarrow> computes m (g x) (spec' x)"
  shows "computes m (op_bind f g) (res_bind spec spec')"
  unfolding computes_def
proof (rule triple_bind)
  show "triple (\<lambda>r. in_step r \<and> memory_of r = m) f (\<lambda>x r. in_step r \<and> memory_of r = m \<and> spec = Ok x)
      (\<lambda>e r. in_step r \<and> memory_of r = m \<and>
        (e \<in> faults \<or> (\<exists>e'. e = Protocol e' \<and> res_bind spec spec' = Err e')))"
    by (rule triple_weaken [OF assms(1) [unfolded computes_def]]) auto
next
  fix x
  show "triple (\<lambda>r. in_step r \<and> memory_of r = m \<and> spec = Ok x) (g x)
      (\<lambda>y r. in_step r \<and> memory_of r = m \<and> res_bind spec spec' = Ok y)
      (\<lambda>e r. in_step r \<and> memory_of r = m \<and>
        (e \<in> faults \<or> (\<exists>e'. e = Protocol e' \<and> res_bind spec spec' = Err e')))"
    by (rule triple_pure [where b = "spec = Ok x"])
      (blast, rule triple_weaken [OF assms(2) [unfolded computes_def]], auto)
qed

text \<open>On a tag that never fails the result is that of the specification.\<close>

lemma computes_reliable:
  assumes "computes m f spec" and "faults = {}" and "in_step r" and "memory_of r = m"
  shows "fst (f r) = map_err Protocol spec"
proof -
  have "in_step r \<and> memory_of r = m"
    using assms(3,4) by simp
  with assms(1) [unfolded computes_def] show ?thesis
    by (cases rule: triple_cases) (auto simp: assms(2))
qed

lemma computes_lift: "r \<noteq> Panic \<Longrightarrow> computes m (op_lift (map_err Protocol r)) r"
  by (cases r) (auto simp: computes_def triple_def op_lift_def)

lemma computes_return: "computes m (op_return x) (Ok x)"
  by (simp add: computes_def triple_def op_return_def)

lemma computes_fail: "computes m (op_fail (Protocol e)) (Err e)"
  by (simp add: computes_def triple_def op_fail_def)

lemma computes_cong: "computes m f spec \<Longrightarrow> spec = spec' \<Longrightarrow> computes m f spec'"
  by simp

lemma read_data_area_computes:
  assumes "vec_lib_ok (bytes_lib B)" and "in_reach sectors layout"
  shows "computes m (read_data_area T B layout) (scanned_area B layout m)"
proof -
  let ?N = "unat (data_area_size layout)"
  have start: "unat data_start_addr = 16"
    by (simp add: data_start_addr_def geometry)
  have fits0: "vec_fits (bytes_lib B) DATA_VEC_CAP (length [])"
    by (cases "bytes_lib B") simp_all
  have "area_scan B scanner_new [] (take (?N - unat 0) (map m (usable_from layout (unat data_start_addr)))) =
      scanned_area B layout m"
    using area_scan_eq [OF assms(1) fits0] by (simp add: start scanned_area_def area_bytes_def Let_def)
  with read_area_loop_at [OF assms(1), of data_start_addr 0 layout ?N m "[]" scanner_new]
  show ?thesis
    using assms(2) ready_at_start
    by (auto simp: computes_def read_data_area_def start in_reach_def Let_def)
qed

lemma sector_select_ensure: "s \<le> MAX_SECTOR \<Longrightarrow> sector_select T B s = ensure_sector T B s"
  by (rule ext) (auto simp: sector_select_def ensure_sector_def dest: leD)

lemma read_cc_computes:
  assumes "vec_lib_ok (bytes_lib B)"
  shows "computes m (read_cc T B) (cc_in m)"
proof -
  have s0: "unat (0 :: u8) < sectors"
    using sectors_bound by simp
  let ?E = "\<lambda>e r. in_step r \<and> memory_of r = m \<and> (e \<in> faults \<or> (\<exists>e'. e = Protocol e' \<and> cc_in m = Err e'))"
  have sel: "triple (\<lambda>r. in_step r \<and> memory_of r = m) (sector_select T B 0) (\<lambda>_. at 0 m) ?E"
    unfolding sector_select_ensure [OF sector_le_MAX [OF s0]]
    by (rule triple_weaken [OF ensure_sector_at [OF assms s0, of m "\<lambda>_. True"]]) (auto simp: failed_def)
  have read: "triple (at 0 m) (read_block T B CC_BLOCK)
      (\<lambda>d r. at 0 m r \<and> length d = 16 \<and> take 4 d = [m 12, m 13, m 14, m 15]) ?E"
    by (rule triple_weaken [OF read_block_at [OF assms]])
      (auto simp: failed_def shows_block_length shows_block_4 block_addr_def CC_BLOCK_def)
  have conv: "triple (\<lambda>r. at 0 m r \<and> length d = 16 \<and> take 4 d = [m 12, m 13, m 14, m 15])
      (op_lift (res_bind (index d 0) (\<lambda>b0. res_bind (index d 1) (\<lambda>b1.
              res_bind (index d 2) (\<lambda>b2. res_bind (index d 3) (\<lambda>b3.
              map_err Protocol (cc_try_from (b0, b1, b2, b3))))))))
      (\<lambda>x r. in_step r \<and> memory_of r = m \<and> cc_in m = Ok x) ?E" for d
  proof (rule triple_pure [where b = "length d = 16 \<and> take 4 d = [m 12, m 13, m 14, m 15]"])
    assume d: "length d = 16 \<and> take 4 d = [m 12, m 13, m 14, m 15]"
    then have "d ! i = [m 12, m 13, m 14, m 15] ! i" if "i < 4" for i
      using that by (metis nth_take)
    from this [of 0] this [of 1] this [of 2] this [of 3] d
    show ?thesis
      by (cases "cc_in m")
        (auto simp: triple_def op_lift_def cc_in_def at_def simp del: cc_try_from.simps)
  qed auto
  show ?thesis
    unfolding computes_def read_cc_def
    by (rule triple_bind [OF sel], rule triple_bind [OF read], rule conv)
qed

lemma parse_seen_area:
  "res_bind (seen_area B cc m) (parse_tlvs (bytes_lib B) (tlv_lib B)) = blocks_in B cc m"
proof (cases "scanned_area B (layout_of cc []) m")
  case (Ok bs)
  then show ?thesis
    by (cases "parse_tlvs (bytes_lib B) (tlv_lib B) bs")
      (simp_all add: seen_area_def blocks_in_def tlvs_in_def)
qed (simp_all add: seen_area_def blocks_in_def tlvs_in_def)

lemma parse_area_computes: "computes m (op_lift (parse_area B bs)) (parse_tlvs (bytes_lib B) (tlv_lib B) bs)"
  unfolding parse_area_def
  by (rule computes_lift) (simp add: parse_tlvs_def fill_new_Panic_iff parse_into_no_Panic)

lemma read_data_area_with_layout_computes:
  assumes "build_ok B" and "passes_in_reach sectors B cc m"
  shows "computes m (read_data_area_with_layout T B cc) (seen_area B cc m)"
  unfolding read_data_area_with_layout_def from_cc_and_no_tlvs [OF assms(1)] op_bind_lift_Ok seen_area_def
proof (rule computes_bind)
  note lib = build_okD(1) [OF assms(1)]
  show "computes m (read_data_area T B (layout_of cc [])) (scanned_area B (layout_of cc []) m)"
    using assms(2) by (intro read_data_area_computes lib) (simp add: passes_in_reach_def)
  fix bs
  assume bs: "scanned_area B (layout_of cc []) m = Ok bs"
  show "computes m (op_bind (op_lift (parse_area B bs)) (\<lambda>tlvs.
      if is_dynamic cc \<and> list_ex is_control tlvs
      then op_bind (op_lift (from_cc_and_tlvs B cc tlvs)) (read_data_area T B)
      else op_return bs))
    (res_bind (parse_tlvs (bytes_lib B) (tlv_lib B) bs) (\<lambda>ts.
      if is_dynamic cc \<and> list_ex is_control ts then scanned_area B (layout_of cc ts) m else Ok bs))"
  proof (rule computes_bind [OF parse_area_computes])
    fix ts
    assume ts: "parse_tlvs (bytes_lib B) (tlv_lib B) bs = Ok ts"
    then have "in_reach sectors (layout_of cc ts)"
      using assms(2) bs by (simp add: passes_in_reach_def tlvs_in_def)
    then show "computes m (if is_dynamic cc \<and> list_ex is_control ts
        then op_bind (op_lift (from_cc_and_tlvs B cc ts)) (read_data_area T B) else op_return bs)
      (if is_dynamic cc \<and> list_ex is_control ts then scanned_area B (layout_of cc ts) m else Ok bs)"
      by (simp add: from_cc_and_parsed [OF assms(1) ts] computes_return
          read_data_area_computes [OF lib])
  qed
qed

lemma blocks_computes:
  assumes "build_ok B" and "passes_in_reach sectors B cc m"
  shows "computes m (op_bind (read_data_area_with_layout T B cc) (\<lambda>bs. op_lift (parse_area B bs)))
    (blocks_in B cc m)"
  unfolding parse_seen_area [symmetric]
  by (rule computes_bind [OF read_data_area_with_layout_computes [OF assms] parse_area_computes])

lemma read_ndef_computes:
  assumes "build_ok B" and "\<And>cc. cc_in m = Ok cc \<Longrightarrow> passes_in_reach sectors B cc m"
  shows "computes m (read_ndef T B) (message_in B m)"
  unfolding read_ndef_def message_in_def
proof (rule computes_bind [OF read_cc_computes [OF build_okD(1) [OF assms(1)]]])
  fix cc
  assume "cc_in m = Ok cc"
  note reach = assms(2) [OF this]
  have "computes m (op_bind (op_bind (read_data_area_with_layout T B cc) (\<lambda>bs. op_lift (parse_area B bs)))
      (\<lambda>ts. case first_ndef ts of Some data \<Rightarrow> op_return data | None \<Rightarrow> op_return []))
    (res_bind (blocks_in B cc m) (\<lambda>ts. Ok (case first_ndef ts of Some data \<Rightarrow> data | None \<Rightarrow> [])))"
    by (rule computes_bind [OF blocks_computes [OF assms(1) reach]])
      (auto intro: computes_return split: option.splits)
  then show "computes m (if \<not> is_valid cc then op_fail (Protocol (InvalidMagic 0))
      else op_bind (read_data_area_with_layout T B cc) (\<lambda>bs. op_bind (op_lift (parse_area B bs))
        (\<lambda>ts. case first_ndef ts of Some data \<Rightarrow> op_return data | None \<Rightarrow> op_return [])))
    (if \<not> is_valid cc then Err (InvalidMagic 0)
     else res_bind (blocks_in B cc m) (\<lambda>ts. Ok (case first_ndef ts of Some data \<Rightarrow> data | None \<Rightarrow> [])))"
    by (simp add: op_bind_assoc computes_fail)
qed

end

end
