(* ===== verification/Area_Write.thy ===== *)
theory Area_Write
  imports Area_Read
begin

text \<open>
  What \<open>write_usable_bytes\<close> does to the memory of a conforming tag: it places its data on the
  usable addresses from the start address on and changes nothing else; when it fails, a prefix of
  the data has been placed.
\<close>

section \<open>The slots of a page\<close>

abbreviation usable_in :: "memory_layout \<Rightarrow> nat \<Rightarrow> nat \<Rightarrow> nat list" where
  "usable_in layout a b \<equiv> filter (usable layout) [a ..< b]"

lemma map_place_outside: "x \<notin> set ys \<Longrightarrow> map (m(x := d)) ys = map m ys"
  by (induction ys) auto

lemma upt_Cons_u32:
  assumes "unat (a :: u32) + Suc n < 4294967296"
  shows "unat (a + 1) = Suc (unat a)"
    and "[unat a ..< unat a + Suc n] = unat a # [unat (a + 1) ..< unat (a + 1) + n]"
proof -
  show a1: "unat (a + 1) = Suc (unat a)"
    using assms by (simp add: unat_word_ariths)
  show "[unat a ..< unat a + Suc n] = unat a # [unat (a + 1) ..< unat (a + 1) + n]"
    by (subst upt_conv_Cons) (simp_all add: a1 del: upt_Suc)
qed

lemma fill_slots_place:
  fixes layout :: memory_layout
  assumes "unat a + n < 4294967296" and "unat a \<le> unat limit"
  defines "us \<equiv> \<lambda>a n. usable_in layout (unat (a :: u32)) (min (unat limit) (unat a + n))"
  shows "fill_slots layout limit a (map m [unat a ..< unat a + n]) ds t =
    (if length (us a n) < length ds \<and> unat limit < unat a + n then Err OutOfRange
     else Ok (map (place m (us a n) ds) [unat a ..< unat a + n], drop (length (us a n)) ds,
              t \<or> us a n \<noteq> [] \<and> ds \<noteq> []))"
  using assms(1,2)
proof (induction n arbitrary: a m ds t)
  case (Suc n)
  note up = upt_Cons_u32 [OF Suc.prems(1)]
  show ?case
  proof (cases ds)
    case Nil
    then show ?thesis unfolding up(2) by simp
  next
    case (Cons d ds')
    show ?thesis
    proof (cases "limit \<le> a")
      case True
      then have "unat a = unat limit"
        using Suc.prems(2) by (simp add: word_le_nat_alt)
      with True show ?thesis
        unfolding up(2) by (simp add: Cons us_def)
    next
      case False
      then have lt: "unat a < unat limit"
        by (simp add: word_le_nat_alt)
      have us: "us a (Suc n) = (if is_skip_area layout a then [] else [unat a]) @ us (a + 1) n"
        using lt by (simp add: us_def up(1) upt_conv_Cons usable_def)
      have notin: "unat a \<notin> set (us (a + 1) n)" "unat a \<notin> set [unat (a + 1) ..< unat (a + 1) + n]"
        by (auto simp: us_def up(1))
      have prems: "unat (a + 1) + n < 4294967296" "unat (a + 1) \<le> unat limit"
        using Suc.prems(1) lt by (simp_all add: up(1))
      note IH = Suc.IH [OF prems]
      show ?thesis
      proof (cases "is_skip_area layout a")
        case skip: True
        show ?thesis
          using False skip IH [of m ds t] unfolding up(2) us
          by (simp add: Cons up(1) place_outside [OF notin(1)])
      next
        case use: False
        show ?thesis
          using False use IH [of "m(unat a := d)" ds' True] unfolding up(2) us
          by (simp add: Cons up(1) place_outside [OF notin(1)] map_place_outside [OF notin(2)]
              fun_upd_same del: fun_upd_apply)
      qed
    qed
  qed
qed (simp add: us_def)

section \<open>Writing a page\<close>

lemma page_of_map:
  "page_of (map f [a ..< a + 4]) = (Ok (f a, f (a + 1), f (a + 2), f (a + 3)) :: ('e, bytes4) res)"
  by (simp add: page_of_eq del: upt_Suc)

text \<open>Writing the new bytes of a page is placing the data on its usable addresses.\<close>

lemma upd_block_place:
  assumes "set us \<subseteq> {a ..< a + 4}"
  shows "upd_block m a (place m us ds a, place m us ds (a + 1), place m us ds (a + 2), place m us ds (a + 3)) =
    place m us ds"
proof (rule ext)
  fix x
  show "upd_block m a (place m us ds a, place m us ds (a + 1), place m us ds (a + 2), place m us ds (a + 3)) x =
      place m us ds x"
  proof (cases "x \<in> {a ..< a + 4}")
    case True
    then have "x = a \<or> x = a + 1 \<or> x = a + 2 \<or> x = a + 3" by auto
    then show ?thesis by auto
  next
    case False
    with assms have "x \<notin> set us" by blast
    moreover have "x \<noteq> a" "x \<noteq> a + 1" "x \<noteq> a + 2" "x \<noteq> a + 3"
      using False by auto
    ultimately show ?thesis by (simp add: place_outside)
  qed
qed

text \<open>A fully usable page that the data cover takes the first four bytes.\<close>

lemma upd_block_full:
  assumes "length ds \<ge> 4"
  shows "upd_block m a (ds ! 0, ds ! 1, ds ! 2, ds ! 3) = place m [a ..< a + 4] ds"
proof -
  obtain d0 d1 d2 d3 rest where "ds = d0 # d1 # d2 # d3 # rest"
    using assms by (auto simp: numeral_eq_Suc Suc_le_length_iff)
  moreover have "[a ..< a + 4] = [a, a + 1, a + 2, a + 3]"
    by (simp add: upt_conv_Cons)
  ultimately show ?thesis by simp
qed

lemma usable_in_split:
  "a \<le> b \<Longrightarrow> b \<le> c \<Longrightarrow> usable_in layout a c = usable_in layout a b @ usable_in layout b c"
  by (metis filter_append upt_add_eq_append le_add_diff_inverse)

lemma place_prefix_step:
  "place (place m us ds) W (take k (drop (length us) ds)) = place m (us @ W) (take (length us + k) ds)"
  by (simp add: place_append place_take drop_take)

lemma place_step: "place (place m us ds) W (drop (length us) ds) = place m (us @ W) ds"
  by (simp add: place_append place_take)

lemma place_prefix: "place m us ds = place m (us @ W) (take (length us) ds)"
  by (simp add: place_append place_take)

lemma usable_in_page:
  assumes "page_all_usable layout a" and "unat a + 4 < 4294967296"
  shows "usable_in layout (unat a) (unat a + 4) = [unat a ..< unat a + 4]"
proof -
  have "usable layout (unat a + i)" if "i < 4" for i
  proof -
    have "\<not> is_skip_area layout (a + of_nat i)"
      using assms(1) that by (simp add: page_all_usable_def BLOCK_SIZE_def list_all_iff)
    then show ?thesis by (simp add: usable_def)
  qed
  then have "\<forall>x \<in> set [unat a ..< unat a + 4]. usable layout x"
    by (metis add_diff_cancel_left' atLeastLessThan_iff atLeastLessThan_upt le_Suc_ex nat_add_left_cancel_less)
  then show ?thesis by (simp add: filter_id_conv)
qed

context t2t_tag
begin

lemma modify_page_at:
  fixes layout :: memory_layout
  assumes "vec_lib_ok (bytes_lib B)" and base: "block_addr s b = unat base"
    and offs: "unat offs < 4" and "unat base + 4 < 4294967296"
    and limit: "unat base + unat offs < unat limit"
  defines "us \<equiv> usable_in layout (unat base + unat offs) (min (unat limit) (unat base + 4))"
  shows "triple (at s m) (modify_page T B layout limit b offs base ds)
    (\<lambda>rest r. at s (place m us ds) r \<and> rest = drop (length us) ds \<and>
       (length us < length ds \<longrightarrow> unat base + 4 \<le> unat limit))
    (\<lambda>e r. (e \<in> faults \<or> e = Protocol OutOfRange \<and> length us < length ds \<and> unat limit < unat base + 4) \<and>
       in_step r \<and> memory_of r \<in> {m, place m us ds})"
    (is "triple _ _ ?Q ?E")
  unfolding modify_page_def
proof (rule triple_bind)
  let ?R = "\<lambda>cur r. at s m r \<and> shows_block m s b cur"
  show "triple (at s m) (read_block T B b) ?R ?E"
    by (rule triple_weaken [OF read_block_at [OF assms(1)]]) (auto simp: failed_def)
  fix cur
  let ?a = "base + ucast offs" and ?n = "4 - unat offs"
  let ?old = "map m [unat base ..< unat base + 4]" and ?new = "place m us ds"
  have a: "unat ?a = unat base + unat offs"
    using offs assms(4) by (simp add: unat_word_ariths)
  have range: "[unat base ..< unat base + 4] =
      [unat base ..< unat ?a] @ [unat ?a ..< unat ?a + ?n]"
    using offs upt_add_eq_append [of "unat base" "unat ?a" ?n] by (simp add: a)
  have drop: "drop (unat offs) ?old = map m [unat ?a ..< unat ?a + ?n]"
    and take: "take (unat offs) ?old = map m [unat base ..< unat ?a]"
    unfolding range by (simp_all add: a)
  have outside: "map m [unat base ..< unat ?a] = map ?new [unat base ..< unat ?a]"
    by (auto simp: place_outside us_def a)
  have fill: "fill_slots layout limit ?a (drop (unat offs) ?old) ds False =
      (if length us < length ds \<and> unat limit < unat base + 4 then Err OutOfRange
       else Ok (map ?new [unat ?a ..< unat ?a + ?n], drop (length us) ds, us \<noteq> [] \<and> ds \<noteq> []))"
  proof -
    have an: "unat base + unat offs + ?n = unat base + 4"
      using offs by simp
    have "unat ?a + ?n < 4294967296" "unat ?a \<le> unat limit"
      using assms(4) limit by (simp_all only: a an)
    from fill_slots_place [OF this, of layout m ds False] show ?thesis
      unfolding drop a an us_def [symmetric] by (simp only: simp_thms)
  qed
  have whole: "take (unat offs) ?old @ map ?new [unat ?a ..< unat ?a + ?n] =
      map ?new [unat base ..< unat base + 4]"
    unfolding take outside by (simp only: range map_append)
  let ?page = "(?new (unat base), ?new (unat base + 1), ?new (unat base + 2), ?new (unat base + 3))"
  have upd: "upd_block m (block_addr s b) ?page = ?new"
    unfolding base by (rule upd_block_place) (auto simp: us_def)
  have rest: "triple (at s m)
      (op_bind (op_lift (map_err Protocol (fill_slots layout limit ?a (drop (unat offs) ?old) ds False)))
       (\<lambda>(slots, rest, touched).
         if touched then op_bind (op_lift (page_of (take (unat offs) ?old @ slots))) (\<lambda>new.
           op_bind (write_block T B b new) (\<lambda>_. op_return rest))
         else op_return rest)) ?Q ?E"
  proof (cases "length us < length ds \<and> unat limit < unat base + 4")
    case True
    then show ?thesis
      unfolding fill by (simp add: triple_def op_defs at_def)
  next
    case False
    have "triple (at s m) (op_bind (write_block T B b ?page) (\<lambda>_. op_return (drop (length us) ds))) ?Q ?E"
      by (rule triple_bind [where R = "\<lambda>_. at s ?new"],
          rule triple_weaken [OF write_block_at [OF assms(1), of s m b ?page, unfolded upd]])
        (use False in \<open>auto simp: failed_def intro: triple_return\<close>)
    moreover have "?new = m" if "\<not> (us \<noteq> [] \<and> ds \<noteq> [])"
      using that by auto
    ultimately show ?thesis
      unfolding fill using False
      by (auto simp: whole page_of_map intro: triple_return simp del: upt_Suc)
  qed
  show "triple (?R cur) (op_bind (op_lift (page_of cur)) (\<lambda>page. let old = bytes4_list page in
     op_bind (op_lift (map_err Protocol
       (fill_slots layout limit ?a (drop (unat offs) old) ds False)))
     (\<lambda>(slots, rest, touched).
     if touched then
       op_bind (op_lift (page_of (take (unat offs) old @ slots))) (\<lambda>new.
       op_bind (write_block T B b new) (\<lambda>_. op_return rest))
     else op_return rest))) ?Q ?E"
  proof (rule triple_pure [where b = "shows_block m s b cur"])
    assume cur: "shows_block m s b cur"
    then have len: "length cur = 16" by (rule shows_block_length)
    have "bytes4_list (cur ! 0, cur ! 1, cur ! 2, cur ! 3) = take 4 cur"
      using len by (intro nth_equalityI) (auto simp: nth_Cons' less_Suc_eq numeral_eq_Suc)
    then have old: "bytes4_list (cur ! 0, cur ! 1, cur ! 2, cur ! 3) = ?old"
      using shows_block_4 [OF cur] by (simp add: base)
    have page: "page_of cur = (Ok (cur ! 0, cur ! 1, cur ! 2, cur ! 3) :: ('e reader_error, bytes4) res)"
      using len by (simp add: page_of_eq)
    show ?thesis
      unfolding page op_bind_lift_Ok Let_def old by (rule triple_pre [OF rest]) blast
  qed blast
qed

text \<open>The data placed so far when a write ends with an error.\<close>

definition partly_placed :: "(nat \<Rightarrow> u8) \<Rightarrow> nat list \<Rightarrow> u8 list \<Rightarrow> 'e reader_error \<Rightarrow> 't reader \<Rightarrow> bool" where
  "partly_placed m W ds e r \<longleftrightarrow> in_step r \<and> (\<exists>k. memory_of r = place m W (take k ds)) \<and>
     (e \<in> faults \<or> e = Protocol OutOfRange \<and> length W < length ds)"

lemma partly_placed_step:
  assumes "partly_placed (place m us ds) W (drop (length us) ds) e r"
  shows "partly_placed m (us @ W) ds e r"
proof -
  from assms obtain k where "memory_of r = place (place m us ds) W (take k (drop (length us) ds))"
    by (auto simp: partly_placed_def)
  then have "memory_of r = place m (us @ W) (take (length us + k) ds)"
    by (simp only: place_prefix_step)
  then show ?thesis
    using assms by (auto simp: partly_placed_def)
qed

lemma partly_placed_start:
  assumes "in_step r" and "memory_of r \<in> {m, place m us ds}"
    and "e \<in> faults \<or> e = Protocol OutOfRange \<and> length (us @ W) < length ds"
  shows "partly_placed m (us @ W) ds e r"
proof -
  have "\<exists>k. memory_of r = place m (us @ W) (take k ds)"
    using assms(2) place_prefix [of m us ds W] by (metis insertE place_Nil(1) singletonD take0)
  with assms show ?thesis by (auto simp: partly_placed_def)
qed

lemma write_usable_loop_at:
  assumes "vec_lib_ok (bytes_lib B)" and limit: "unat limit \<le> 1024 * sectors"
  shows "triple (\<lambda>r. in_step r \<and> memory_of r = m) (write_usable_loop T B layout limit a ds)
    (\<lambda>_ r. in_step r \<and> memory_of r = place m (usable_in layout (unat a) (unat limit)) ds \<and>
       length ds \<le> length (usable_in layout (unat a) (unat limit)))
    (partly_placed m (usable_in layout (unat a) (unat limit)) ds)"
proof (induction a arbitrary: m ds rule: addr_induct)
  case (1 a)
  let ?W = "usable_in layout (unat a) (unat limit)"
  let ?Q = "\<lambda>ds m (_ :: unit) r. in_step r \<and> memory_of r = place m ?W ds \<and> length ds \<le> length ?W"
  show ?case
  proof (cases "ds = [] \<or> limit \<le> a")
    case True
    then show ?thesis
      unfolding write_usable_loop_op [of T B layout limit a]
      by (auto simp: triple_def op_defs partly_placed_def word_le_nat_alt intro: exI [of _ 0])
  next
    case False
    then have lt: "unat a < unat limit" "\<not> limit \<le> a" "ds \<noteq> []"
      by (simp_all add: word_le_nat_alt)
    have "unat a < 261120"
      using lt limit sectors_bound by simp
    then obtain s b offs where addr: "address_to_sector_block a = Some (s, b, offs)"
      using address_to_sector_block_less by blast
    note D = address_to_sector_blockD [OF addr]
    let ?base = "a - ucast offs"
    note base = page_base_step [OF addr]
    have base_offs: "unat ?base + unat offs = unat a"
      using base(1,2) by simp
    have blk: "block_addr s b = unat ?base"
      using base_offs D(5) by (simp add: block_addr_def)
    have s: "unat s < sectors"
      using lt limit unfolding D(2) by (simp add: less_mult_imp_div_less mult.commute)
    have offs: "unat offs < 4" and base_less: "unat ?base + 4 < 4294967296"
      using D(4) D(1) base_offs by simp_all
    let ?a' = "?base + of_nat BLOCK_SIZE" and ?lim = "min (unat limit) (unat ?base + 4)"
    have a': "unat ?a' = unat ?base + 4"
      using base(1,3) by simp
    let ?us = "usable_in layout (unat a) ?lim" and ?W' = "usable_in layout (unat ?a') (unat limit)"
    have W: "?W = ?us @ ?W'"
      using lt base_offs offs usable_in_split [of "unat a" "unat ?a'" "unat limit" layout]
      by (auto simp: a' min_def not_le)
    have less: "a < ADDRESS_SPACE_END" "unat a < unat ?a'"
      using address_to_sector_block_Some [OF addr] offs base_offs by (simp_all add: a')
    have rest: "triple (\<lambda>r. at s (place m ?us ds) r)
        (write_usable_loop T B layout limit ?a' (drop (length ?us) ds)) (?Q ds m) (partly_placed m ?W ds)"
    proof -
      have IH: "triple (\<lambda>r. in_step r \<and> memory_of r = place m ?us ds)
          (write_usable_loop T B layout limit ?a' (drop (length ?us) ds))
          (\<lambda>_ r. in_step r \<and> memory_of r = place (place m ?us ds) ?W' (drop (length ?us) ds) \<and>
             length (drop (length ?us) ds) \<le> length ?W')
          (partly_placed (place m ?us ds) ?W' (drop (length ?us) ds))"
        by (rule "1.IH" [OF less])
      show ?thesis
        unfolding W
        by (rule triple_weaken [OF IH])
          (auto simp: at_def place_step intro: partly_placed_step)
    qed
    have fast: "triple (at s m) (op_bind (op_bind (op_lift (page_of ds)) (write_block T B b)) (\<lambda>_.
          write_usable_loop T B layout limit ?a' (drop BLOCK_SIZE ds))) (?Q ds m) (partly_placed m ?W ds)"
      if "offs = 0" "BLOCK_SIZE \<le> length ds" "page_all_usable layout ?base" "\<not> limit < ?a'"
    proof -
      have len: "4 \<le> length ds"
        using that by (simp add: BLOCK_SIZE_def)
      have fits: "unat ?base + 4 \<le> unat limit"
        using that(4) by (simp only: word_less_nat_alt a' not_less)
      have us: "?us = [unat ?base ..< unat ?base + 4]"
        using usable_in_page [OF that(3) base_less] fits base_offs that(1) by simp
      have upd: "upd_block m (block_addr s b) (ds ! 0, ds ! 1, ds ! 2, ds ! 3) = place m ?us ds"
        unfolding blk us by (rule upd_block_full [OF len])
      have "triple (at s m) (write_block T B b (ds ! 0, ds ! 1, ds ! 2, ds ! 3))
          (\<lambda>_. at s (place m ?us ds)) (partly_placed m ?W ds)"
        unfolding W
        by (rule triple_weaken [OF write_block_at [OF assms(1), of s m b "(ds ! 0, ds ! 1, ds ! 2, ds ! 3)",
                unfolded upd]])
          (auto simp: failed_def intro: partly_placed_start)
      moreover have "length ?us = BLOCK_SIZE"
        unfolding us by (simp add: BLOCK_SIZE_def)
      ultimately show ?thesis
        using rest len by (auto simp: page_of_eq intro: triple_bind)
    qed
    have slow: "triple (at s m) (op_bind (modify_page T B layout limit b offs ?base ds)
          (write_usable_loop T B layout limit ?a')) (?Q ds m) (partly_placed m ?W ds)"
    proof (rule triple_bind)
      have "unat ?base + unat offs < unat limit"
        using lt base_offs by simp
      from modify_page_at [OF assms(1) blk offs base_less this, where layout = layout and m = m and ds = ds,
          unfolded base_offs]
      show "triple (at s m) (modify_page T B layout limit b offs ?base ds)
          (\<lambda>rest r. at s (place m ?us ds) r \<and> rest = drop (length ?us) ds) (partly_placed m ?W ds)"
        unfolding W
      proof (rule triple_weaken)
        fix e r
        assume E: "(e \<in> faults \<or> e = Protocol OutOfRange \<and> length ?us < length ds \<and>
            unat limit < unat ?base + 4) \<and> in_step r \<and> memory_of r \<in> {m, place m ?us ds}"
        have "?W' = []" if "unat limit < unat ?base + 4"
          using that unfolding a' by simp
        with E have "e \<in> faults \<or> e = Protocol OutOfRange \<and> length (?us @ ?W') < length ds"
          by (elim conjE disjE) simp_all
        with E show "partly_placed m (?us @ ?W') ds e r"
          by (intro partly_placed_start) simp_all
      qed blast+
      show "triple (\<lambda>r. at s (place m ?us ds) r \<and> rest = drop (length ?us) ds)
          (write_usable_loop T B layout limit ?a' rest) (?Q ds m) (partly_placed m ?W ds)" for rest
        using rest by (auto simp: triple_def)
    qed
    have over: "partly_placed m ?W ds (Protocol OutOfRange) r"
      if "at s m r" "offs = 0" "BLOCK_SIZE \<le> length ds" "limit < ?a'" for r
    proof -
      have "length ?W \<le> unat limit - unat a"
        by (metis length_filter_le length_upt)
      moreover have "unat limit < unat ?base + 4"
        using that(4) by (simp only: word_less_nat_alt a')
      ultimately have "length ?W < length ds"
        using that(2,3) base_offs by (simp add: BLOCK_SIZE_def)
      with that(1) show ?thesis
        by (auto simp: partly_placed_def at_def intro: exI [of _ 0])
    qed
    have page: "triple (at s m) (if offs = 0 \<and> length ds \<ge> BLOCK_SIZE \<and> page_all_usable layout ?base then
        (if limit < ?a' then op_fail (Protocol OutOfRange)
         else op_bind (op_bind (op_lift (page_of ds)) (write_block T B b)) (\<lambda>_.
           write_usable_loop T B layout limit ?a' (drop BLOCK_SIZE ds)))
        else op_bind (modify_page T B layout limit b offs ?base ds)
          (write_usable_loop T B layout limit ?a')) (?Q ds m) (partly_placed m ?W ds)"
    proof (intro triple_if)
      assume "offs = 0 \<and> length ds \<ge> BLOCK_SIZE \<and> page_all_usable layout ?base" and "limit < ?a'"
      then show "triple (at s m) (op_fail (Protocol OutOfRange)) (?Q ds m) (partly_placed m ?W ds)"
        by (intro triple_fail over) blast+
    qed (rule fast slow; blast)+
    have "triple (\<lambda>r. in_step r \<and> memory_of r = m) (ensure_sector T B s) (\<lambda>_. at s m) (partly_placed m ?W ds)"
      by (rule triple_weaken [OF ensure_sector_at [OF assms(1) s, of m "\<lambda>_. True"]])
        (auto simp: failed_def partly_placed_def intro: exI [of _ 0])
    from triple_bind [OF this page] show ?thesis
      unfolding write_usable_loop_op [of T B layout limit a] addr option.case prod.case Let_def
      using lt(2,3) by simp
  qed
qed

end

end
