(* ===== verification/Ndef_Write.thy ===== *)
theory Ndef_Write
  imports Ndef_Read Area_Write
begin

text \<open>
  What \<open>write_ndef\<close> does, as a function of the memory of the tag: the checks before the first
  WRITE, the memory it leaves, and the memories an interrupted write can leave.
\<close>

section \<open>Addresses of the message\<close>

lemma filter_upt_slice:
  fixes P :: "nat \<Rightarrow> bool"
  assumes as: "as = filter P [lo ..< hi]" and "i \<le> j" and "j < length as"
  shows "filter P [as ! i ..< Suc (as ! j)] = take (Suc j - i) (drop i as)"
proof (rule sorted_distinct_set_unique)
  have sorted: "sorted_wrt (<) as"
    by (simp add: as sorted_wrt_filter)
  have mono: "as ! k \<le> as ! l \<longleftrightarrow> k \<le> l" if "k < length as" "l < length as" for k l
    using sorted_wrt_nth_less [OF sorted, of k l] sorted_wrt_nth_less [OF sorted, of l k] that
    by (cases k l rule: linorder_cases) auto
  show "set (filter P [as ! i ..< Suc (as ! j)]) = set (take (Suc j - i) (drop i as))"
  proof (intro set_eqI iffI)
    fix x
    assume x: "x \<in> set (filter P [as ! i ..< Suc (as ! j)])"
    moreover have "as ! i \<in> set as" "as ! j \<in> set as"
      using assms by (auto simp del: set_filter simp: as)
    ultimately have "x \<in> set as"
      by (auto simp: as)
    then obtain k where k: "k < length as" "x = as ! k"
      by (auto simp: in_set_conv_nth)
    have "as ! i \<le> as ! k" "as ! k \<le> as ! j"
      using x k(2) by (simp_all del: upt_Suc)
    then have "i \<le> k" "k \<le> j"
      using k(1) assms(2,3) by (simp_all add: mono)
    then show "x \<in> set (take (Suc j - i) (drop i as))"
      using k assms(3) by (auto simp: in_set_conv_nth intro!: exI [of _ "k - i"])
  next
    fix x
    assume "x \<in> set (take (Suc j - i) (drop i as))"
    then obtain k where k: "k < Suc j - i" "i + k < length as" "x = as ! (i + k)"
      by (auto simp: in_set_conv_nth)
    moreover have "P (as ! (i + k))"
      using nth_mem [OF k(2)] by (simp add: as)
    ultimately show "x \<in> set (filter P [as ! i ..< Suc (as ! j)])"
      using mono [of i "i + k"] mono [of "i + k" j] assms(2,3) by auto
  qed
  show "sorted (take (Suc j - i) (drop i as))" "distinct (take (Suc j - i) (drop i as))"
    by (simp_all add: as sorted_wrt_take sorted_wrt_drop sorted_wrt_filter)
qed (simp_all add: sorted_wrt_filter del: upt_Suc)

lemma usable_in_slice:
  assumes "i \<le> j" and "j < length (usable_addrs layout)"
  shows "usable_in layout (usable_addrs layout ! i) (Suc (usable_addrs layout ! j)) =
    take (Suc j - i) (drop i (usable_addrs layout))"
  using filter_upt_slice [OF usable_from_def assms] .

lemma distinct_usable: "distinct (usable_from layout a)"
  by (simp add: usable_from_def)

text \<open>The addresses of a message from logical offset \<open>off\<close> of the data area on.\<close>

definition message_addrs :: "memory_layout \<Rightarrow> nat \<Rightarrow> nat list" where
  "message_addrs layout off = drop off (take (unat (data_area_size layout)) (usable_addrs layout))"

text \<open>What \<open>write_ndef\<close> writes first and what the tag holds in the end.\<close>

definition first_bytes :: "u8 list \<Rightarrow> u8 list" where
  "first_bytes data = 0x03 # zero_length_field (length data) @ data @ [0xFE]"

definition ndef_bytes :: "u8 list \<Rightarrow> u8 list" where
  "ndef_bytes data = 0x03 # length_field (of_nat (length data)) @ data @ [0xFE]"

lemma l_bytes_field: "l_bytes n = length_field n"
  by (simp add: l_bytes_def length_field_def u16_to_be_bytes_def)

lemma length_l_bytes:
  "n \<le> 0xFFFE \<Longrightarrow> length (length_field (of_nat n)) = l_field_size n"
  by (simp add: u16_of_nat_less_255 l_field_size_def)

text \<open>Writing the length field over the placeholder.\<close>

lemma place_upd: "a \<notin> set as \<Longrightarrow> (place m as ds)(a := y) = place (m(a := y)) as ds"
proof (induction m as ds rule: place_induct)
  case (step m b as d ds)
  then show ?case
    by (simp add: fun_upd_twist [of a b] del: fun_upd_apply)
qed simp_all

lemma place_again:
  "length xs = length ys \<Longrightarrow> distinct as \<Longrightarrow>
   place (place m as (xs @ zs)) as ys = place m as (ys @ zs)"
proof (induction as arbitrary: m xs ys)
  case (Cons a as)
  show ?case
  proof (cases xs)
    case Nil
    with Cons.prems show ?thesis by simp
  next
    case (Cons x xs')
    then obtain y ys' where ys: "ys = y # ys'"
      using Cons.prems(1) by (cases ys) auto
    have "(place (m(a := x)) as (xs' @ zs))(a := y) = place (m(a := y)) as (xs' @ zs)"
      using Cons.prems(2) by (simp add: place_upd del: fun_upd_apply)
    with Cons.IH [of xs' ys' "m(a := y)"] Cons.prems show ?thesis
      by (simp add: Cons ys del: fun_upd_apply)
  qed
qed simp

section \<open>The checks\<close>

text \<open>The decision of \<open>write_ndef\<close>, from the memory alone: its plan or the error that rejects.\<close>

definition write_check :: "build \<Rightarrow> (nat \<Rightarrow> u8) \<Rightarrow> u8 list \<Rightarrow> (type2_error, write_plan) res" where
  "write_check B m data =
     res_bind (cc_in m) (\<lambda>cc.
     if \<not> is_valid cc then Err (InvalidMagic 0)
     else if write_access cc \<noteq> Granted then Err ReadOnly
     else res_bind (blocks_in B cc m) (\<lambda>ts. plan_write B cc ts data))"

text \<open>Reading and writing stay in the first \<open>sectors\<close> sectors.\<close>

definition write_in_reach :: "nat \<Rightarrow> build \<Rightarrow> (nat \<Rightarrow> u8) \<Rightarrow> bool" where
  "write_in_reach sectors B m \<longleftrightarrow> (\<forall>cc. cc_in m = Ok cc \<longrightarrow> passes_in_reach sectors B cc m \<and>
     (\<forall>ts. blocks_in B cc m = Ok ts \<longrightarrow> in_reach sectors (layout_of cc ts)))"

lemma blocks_in_parsed: "blocks_in B cc m = Ok ts \<Longrightarrow> parsed B ts"
  by (auto simp: blocks_in_def tlvs_in_def res_bind_Ok_iff split: if_splits)

text \<open>The facts a plan stands for.\<close>

lemma write_check_Ok:
  assumes "build_ok B" and "write_check B m data = Ok p"
  obtains cc ts where "cc_in m = Ok cc" "is_valid cc" "write_access cc = Granted"
    "blocks_in B cc m = Ok ts" "wp_layout p = layout_of cc ts"
    "ndef_tlv_offset 0 ts = Some (wp_ndef_offset p)" "length data \<le> 0xFFFE"
    "message_end (wp_ndef_offset p) (length data) \<le> unat (data_area_size (wp_layout p))"
    "unat (data_area_size (wp_layout p)) \<le> length (usable_addrs (wp_layout p))"
    "wp_ndef_addr p = of_nat (usable_addrs (wp_layout p) ! wp_ndef_offset p)"
    "wp_limit p = of_nat (usable_addrs (wp_layout p) ! (unat (data_area_size (wp_layout p)) - 1)) + 1"
    "wp_payload p = first_bytes data"
proof -
  from assms(2) obtain cc ts where 1: "cc_in m = Ok cc" "is_valid cc" "write_access cc = Granted"
    "blocks_in B cc m = Ok ts" "plan_write B cc ts data = Ok p"
    by (auto simp: write_check_def res_bind_Ok_iff split: if_splits)
  have size: "data_area_size (layout_of cc ts) = cc_data_area_size cc"
    by (simp add: layout_of_def)
  note D = parsed_D(1,2) [OF assms(1) blocks_in_parsed [OF 1(4)]]
  from 1(5) show thesis
    unfolding plan_write_eq [OF assms(1) D]
    by (intro that [OF 1(1-4)]) (auto simp: size first_bytes_def split: if_splits option.splits)
qed

text \<open>The addresses the plan writes to.\<close>

lemma plan_addrs:
  assumes "build_ok B" and "write_check B m data = Ok p"
  defines "us \<equiv> usable_addrs (wp_layout p)" and "n \<equiv> unat (data_area_size (wp_layout p))"
    and "off \<equiv> wp_ndef_offset p"
  shows "usable_in (wp_layout p) (unat (wp_ndef_addr p)) (unat (wp_limit p)) = message_addrs (wp_layout p) off"
    and "usable_in (wp_layout p) (us ! Suc off) (unat (wp_limit p)) = message_addrs (wp_layout p) (Suc off)"
    and "usable_offset_to_address (wp_layout p) (of_nat off + 1) = Some (of_nat (us ! Suc off))"
    and "us ! Suc off < 261120"
    and "length (first_bytes data) \<le> length (message_addrs (wp_layout p) off)"
    and "add_chk (of_nat off) (1 :: u16) = (Ok (of_nat off + 1) :: ('x, u16) res)"
    and "message_addrs (wp_layout p) off = us ! off # message_addrs (wp_layout p) (Suc off)"
    and "unat (wp_limit p) = Suc (us ! (n - 1))"
    and "length data \<le> 0xFFFE"
proof -
  obtain cc ts where facts: "length data \<le> 0xFFFE" "message_end off (length data) \<le> n" "n \<le> length us"
    "wp_ndef_addr p = of_nat (us ! off)" "wp_limit p = of_nat (us ! (n - 1)) + 1"
    using write_check_Ok [OF assms(1,2)] unfolding us_def n_def off_def by metis
  have off: "Suc off < n" "n < 65536"
    using facts(2) by (simp_all add: message_end_def n_def)
  have bound: "us ! i < 261120" if "i < n" for i
    using usable_addr_bound [of i "wp_layout p" 16] that facts(3) by (simp add: us_def)
  have unat_us: "unat (of_nat (us ! i) :: u32) = us ! i" if "i < n" for i
    using bound [OF that] by (simp add: unat_of_nat)
  have "us ! (n - 1) < 261120"
    using off by (intro bound) simp
  then show limit: "unat (wp_limit p) = Suc (us ! (n - 1))"
    using unat_us [of "n - 1"] off(1) by (simp add: facts(5) unat_word_ariths)
  have slice: "usable_in (wp_layout p) (us ! i) (unat (wp_limit p)) = message_addrs (wp_layout p) i"
    if "i < n" for i
    using usable_in_slice [of i "n - 1" "wp_layout p"] that facts(3)
    by (simp add: limit us_def [symmetric] message_addrs_def drop_take n_def [symmetric] del: upt_Suc)
  show "usable_in (wp_layout p) (unat (wp_ndef_addr p)) (unat (wp_limit p)) = message_addrs (wp_layout p) off"
    using slice [of off] off unat_us [of off] by (simp add: facts(4))
  show "usable_in (wp_layout p) (us ! Suc off) (unat (wp_limit p)) = message_addrs (wp_layout p) (Suc off)"
    by (rule slice [OF off(1)])
  show "us ! Suc off < 261120"
    by (rule bound [OF off(1)])
  show "length data \<le> 0xFFFE" by (rule facts)
  show "length (first_bytes data) \<le> length (message_addrs (wp_layout p) off)"
    using facts(2,3) by (simp add: first_bytes_def message_addrs_def message_end_def
        n_def [symmetric] us_def [symmetric])
  show "message_addrs (wp_layout p) off = us ! off # message_addrs (wp_layout p) (Suc off)"
    using off facts(3) unfolding message_addrs_def us_def [symmetric] n_def [symmetric]
    by (subst Cons_nth_drop_Suc [symmetric]) auto
  have "unat (of_nat off :: u16) = off"
    using off by (simp add: unat_of_nat)
  moreover from this have "unat (of_nat off + 1 :: u16) = Suc off"
    using off by (simp add: unat_word_ariths)
  ultimately show "usable_offset_to_address (wp_layout p) (of_nat off + 1) = Some (of_nat (us ! Suc off))"
    and "add_chk (of_nat off) (1 :: u16) = (Ok (of_nat off + 1) :: ('x, u16) res)"
    using off facts(3)
    by (simp_all add: usable_offset_to_address_eq us_def add_chk_def checked_defs)
qed

section \<open>The writes\<close>

text \<open>The memory after a complete write, and the memories that a write can be interrupted in.\<close>

definition stored :: "(nat \<Rightarrow> u8) \<Rightarrow> write_plan \<Rightarrow> u8 list \<Rightarrow> nat \<Rightarrow> u8" where
  "stored m p data = place m (message_addrs (wp_layout p) (wp_ndef_offset p)) (ndef_bytes data)"

definition interrupted :: "(nat \<Rightarrow> u8) \<Rightarrow> write_plan \<Rightarrow> u8 list \<Rightarrow> (nat \<Rightarrow> u8) \<Rightarrow> bool" where
  "interrupted m p data m' \<longleftrightarrow>
     (let as = message_addrs (wp_layout p) (wp_ndef_offset p) in
      (\<exists>k. m' = place m as (take k (first_bytes data))) \<or>
      (\<exists>k. m' = place (place m as (first_bytes data)) (tl as)
                 (take k (length_field (of_nat (length data))))))"

lemma stored_eq:
  assumes "build_ok B" and "write_check B m data = Ok p"
  defines "off \<equiv> wp_ndef_offset p"
  shows "place (place m (message_addrs (wp_layout p) off) (first_bytes data))
      (message_addrs (wp_layout p) (Suc off)) (length_field (of_nat (length data))) = stored m p data"
proof -
  note A = plan_addrs [OF assms(1,2), folded off_def]
  have "distinct (message_addrs (wp_layout p) (Suc off))"
    by (simp add: message_addrs_def distinct_usable)
  then show ?thesis
    using place_again [of "zero_length_field (length data)" "length_field (of_nat (length data))"
        "message_addrs (wp_layout p) (Suc off)" _ "data @ [0xFE]"] A(9)
    unfolding stored_def off_def [symmetric] A(7) first_bytes_def ndef_bytes_def
    by (simp add: length_l_bytes del: length_length_field)
qed

text \<open>A complete or an interrupted write changes nothing but the addresses of the message.\<close>

lemma changed_in_message:
  assumes "m' = stored m p data \<or> interrupted m p data m'" and "m' a \<noteq> m a"
  shows "a \<in> set (message_addrs (wp_layout p) (wp_ndef_offset p))"
proof (rule ccontr)
  let ?as = "message_addrs (wp_layout p) (wp_ndef_offset p)"
  assume out: "a \<notin> set ?as"
  then have "a \<notin> set (tl ?as)"
    by (cases ?as) simp_all
  with out have "place m ?as ds a = m a" "place (place m ?as ds) (tl ?as) ds' a = m a" for ds ds'
    by (simp_all add: place_outside)
  with assms show False
    by (auto simp: stored_def interrupted_def Let_def)
qed

lemma message_addrs_data:
  assumes "\<forall>t \<in> set ts. control_ok t" and "a \<in> set (message_addrs (layout_of cc ts) off)"
  shows "16 \<le> a" and "a \<notin> skipped_bytes cc ts"
    and "a \<in> set (take (unat (cc_data_area_size cc)) (usable_addrs (layout_of cc ts)))"
proof -
  show *: "a \<in> set (take (unat (cc_data_area_size cc)) (usable_addrs (layout_of cc ts)))"
    using assms(2) by (auto simp: message_addrs_def layout_of_def dest: in_set_dropD)
  then have "16 \<le> a" "a < 261120" "usable (layout_of cc ts) a"
    by (auto simp: usable_from_mem space_end_eq dest: in_set_takeD)
  moreover from this have "unat (of_nat a :: u32) = a"
    by (simp add: unat_of_nat)
  ultimately show "16 \<le> a" and "a \<notin> skipped_bytes cc ts"
    using is_skip_area_layout_of [OF assms(1), of cc "of_nat a"] by (simp_all add: usable_def)
qed

text \<open>When a message is accepted.\<close>

lemma write_check_Ok_iff:
  assumes "build_ok B" and "cc_in m = Ok cc" and "blocks_in B cc m = Ok ts"
    and "unat (cc_data_area_size cc) \<le> length (usable_addrs (layout_of cc ts))"
  shows "(\<exists>p. write_check B m data = Ok p) \<longleftrightarrow> is_valid cc \<and> write_access cc = Granted \<and>
    length data \<le> 0xFFFE \<and>
    (\<exists>off. ndef_tlv_offset 0 ts = Some off \<and> message_end off (length data) \<le> unat (cc_data_area_size cc)) \<and>
    vec_fits (bytes_lib B) DATA_VEC_CAP (2 + l_field_size (length data) + length data)"
  using assms(4)
  by (auto simp: write_check_def assms(2,3)
      plan_write_eq [OF assms(1) parsed_D(1,2) [OF assms(1) blocks_in_parsed [OF assms(3)]]]
      split: option.splits)

context t2t_tag
begin

lemma execute_plan_at:
  assumes "build_ok B" and "write_check B m data = Ok p" and "in_reach sectors (wp_layout p)"
  shows "triple (\<lambda>r. in_step r \<and> memory_of r = m) (execute_plan T B p (of_nat (length data)))
    (\<lambda>_ r. in_step r \<and> memory_of r = stored m p data)
    (\<lambda>e r. in_step r \<and> e \<in> faults \<and> interrupted m p data (memory_of r))"
proof -
  let ?off = "wp_ndef_offset p" and ?L = "wp_layout p"
  let ?as = "message_addrs ?L ?off" and ?as' = "message_addrs ?L (Suc ?off)"
  let ?E = "\<lambda>e r. in_step r \<and> e \<in> faults \<and> interrupted m p data (memory_of r)"
  note A = plan_addrs [OF assms(1,2)]
  note lib = build_okD(1) [OF assms(1)]
  have tl: "tl ?as = ?as'" unfolding A(7) by simp
  have "wp_payload p = first_bytes data"
    using write_check_Ok [OF assms(1,2)] by metis
  note payload = this
  have nonzero: "unat (data_area_size ?L) \<noteq> 0"
    using A(5) by (auto simp: message_addrs_def first_bytes_def)
  then have limit: "unat (wp_limit p) \<le> 1024 * sectors"
    using assms(3) A(8) by (simp add: in_reach_def Let_def)
  let ?m1 = "place m ?as (first_bytes data)"
  have first: "triple (\<lambda>r. in_step r \<and> memory_of r = m)
      (write_usable_bytes T B ?L (wp_ndef_addr p) (wp_payload p) (wp_limit p))
      (\<lambda>_ r. in_step r \<and> memory_of r = ?m1) ?E"
    unfolding write_usable_bytes_def payload
    by (rule triple_weaken [OF write_usable_loop_at [OF lib limit]])
      (use A(5) in \<open>auto simp: A(1) partly_placed_def interrupted_def Let_def\<close>)
  let ?l = "length_field (of_nat (length data))"
  have l_addr: "unat (of_nat (usable_addrs ?L ! Suc ?off) :: u32) = usable_addrs ?L ! Suc ?off"
    using A(4) by (simp add: unat_of_nat)
  have fits: "length ?l \<le> length ?as'"
    using A(5,9) unfolding A(7) by (simp add: first_bytes_def length_l_bytes del: length_length_field)
  have last: "triple (\<lambda>r. in_step r \<and> memory_of r = ?m1)
      (write_usable_bytes T B ?L (of_nat (usable_addrs ?L ! Suc ?off)) ?l (wp_limit p))
      (\<lambda>_ r. in_step r \<and> memory_of r = stored m p data) ?E"
    unfolding write_usable_bytes_def
    by (rule triple_weaken [OF write_usable_loop_at [OF lib limit]])
      (use fits in \<open>auto simp: l_addr A(2) stored_eq [OF assms(1,2)] partly_placed_def interrupted_def
          Let_def tl\<close>)
  show ?thesis
    unfolding execute_plan_def
    by (rule triple_bind [OF first]) (simp add: A(3,6) l_bytes_field last)
qed

text \<open>The part of \<open>write_ndef\<close> up to its first WRITE.\<close>

definition check_op :: "build \<Rightarrow> u8 list \<Rightarrow> ('t, 'e, write_plan) rop" where
  "check_op B data = op_bind (read_cc T B) (\<lambda>cc.
     if \<not> is_valid cc then op_fail (Protocol (InvalidMagic 0))
     else if write_access cc \<noteq> Granted then op_fail (Protocol ReadOnly)
     else op_bind (op_bind (read_data_area_with_layout T B cc) (\<lambda>bs. op_lift (parse_area B bs))) (\<lambda>ts.
       op_lift (map_err Protocol (plan_write B cc ts data))))"

lemma write_ndef_check_op:
  "write_ndef T B data = op_bind (check_op B data) (\<lambda>p. execute_plan T B p (of_nat (length data)))"
proof -
  have distrib: "op_bind (if b then op_fail e else f) g = (if b then op_fail e else op_bind f g)"
    for b e and f :: "('t, 'e, write_plan) rop" and g :: "write_plan \<Rightarrow> ('t, 'e, unit) rop"
    by (simp add: op_bind_def op_fail_def fun_eq_iff)
  show ?thesis
    unfolding write_ndef_def check_op_def op_bind_assoc distrib ..
qed

lemma check_op_computes:
  assumes "build_ok B" and "write_in_reach sectors B m"
  shows "computes m (check_op B data) (write_check B m data)"
  unfolding check_op_def write_check_def
proof (rule computes_bind [OF read_cc_computes [OF build_okD(1) [OF assms(1)]]])
  fix cc
  assume "cc_in m = Ok cc"
  then have reach: "passes_in_reach sectors B cc m"
    using assms(2) by (simp add: write_in_reach_def)
  have "computes m (op_bind (op_bind (read_data_area_with_layout T B cc) (\<lambda>bs. op_lift (parse_area B bs)))
      (\<lambda>ts. op_lift (map_err Protocol (plan_write B cc ts data))))
    (res_bind (blocks_in B cc m) (\<lambda>ts. plan_write B cc ts data))"
    by (rule computes_bind [OF blocks_computes [OF assms(1) reach]])
      (use plan_write_no_Panic [OF assms(1)] blocks_in_parsed in \<open>blast intro: computes_lift\<close>)
  then show "computes m
      (if \<not> is_valid cc then op_fail (Protocol (InvalidMagic 0))
       else if write_access cc \<noteq> Granted then op_fail (Protocol ReadOnly)
       else op_bind (op_bind (read_data_area_with_layout T B cc) (\<lambda>bs. op_lift (parse_area B bs)))
         (\<lambda>ts. op_lift (map_err Protocol (plan_write B cc ts data))))
      (if \<not> is_valid cc then Err (InvalidMagic 0)
       else if write_access cc \<noteq> Granted then Err ReadOnly
       else res_bind (blocks_in B cc m) (\<lambda>ts. plan_write B cc ts data))"
    by (simp add: computes_fail)
qed

lemma write_ndef_at:
  assumes "build_ok B" and "write_in_reach sectors B m"
  shows "triple (\<lambda>r. in_step r \<and> memory_of r = m) (write_ndef T B data)
    (\<lambda>_ r. in_step r \<and> (\<exists>p. write_check B m data = Ok p \<and> memory_of r = stored m p data))
    (\<lambda>e r. in_step r \<and>
       (memory_of r = m \<and> (e \<in> faults \<or> (\<exists>e'. e = Protocol e' \<and> write_check B m data = Err e')) \<or>
        (\<exists>p. write_check B m data = Ok p \<and> e \<in> faults \<and> interrupted m p data (memory_of r))))"
    (is "triple _ _ ?Q ?E")
  unfolding write_ndef_check_op
proof (rule triple_bind)
  let ?R = "\<lambda>p r. in_step r \<and> memory_of r = m \<and> write_check B m data = Ok p"
  show "triple (\<lambda>r. in_step r \<and> memory_of r = m) (check_op B data) ?R ?E"
    by (rule triple_weaken [OF check_op_computes [OF assms, unfolded computes_def]]) auto
  fix p
  show "triple (?R p) (execute_plan T B p (of_nat (length data))) ?Q ?E"
  proof (rule triple_pure [where b = "write_check B m data = Ok p"])
    assume p: "write_check B m data = Ok p"
    then have "in_reach sectors (wp_layout p)"
      using assms(2) write_check_Ok [OF assms(1) p] unfolding write_in_reach_def by metis
    from execute_plan_at [OF assms(1) p this] show "triple (?R p) (execute_plan T B p (of_nat (length data))) ?Q ?E"
      by (rule triple_weaken) (use p in auto)
  qed blast
qed

text \<open>On a tag that never fails the outcome is decided by \<open>write_check\<close>.\<close>

lemma write_ndef_reliable_at:
  assumes "build_ok B" and "write_in_reach sectors B (memory_of r)" and "faults = {}" and "in_step r"
  shows "case write_check B (memory_of r) data of
      Ok p \<Rightarrow> fst (write_ndef T B data r) = Ok () \<and>
        memory_of (snd (write_ndef T B data r)) = stored (memory_of r) p data
    | Err e \<Rightarrow> fst (write_ndef T B data r) = Err (Protocol e) \<and>
        memory_of (snd (write_ndef T B data r)) = memory_of r
    | Panic \<Rightarrow> False"
proof (cases "write_ndef T B data r")
  case (Pair x r')
  note spec = write_ndef_at [OF assms(1,2), unfolded triple_def, rule_format, of r data, unfolded Pair assms(3)]
  show ?thesis
  proof (cases x)
    case (Ok u)
    then show ?thesis using spec assms(4) Pair by auto
  next
    case (Err e)
    then show ?thesis using spec assms(4) Pair by auto
  next
    case Panic
    then show ?thesis using spec assms(4) by auto
  qed
qed

lemma write_ndef_accepted_at:
  assumes "build_ok B" and "write_in_reach sectors B (memory_of r)" and "faults = {}" and "in_step r"
    and "write_check B (memory_of r) data = Ok p"
  obtains r1 where "write_ndef T B data r = (Ok (), r1)" "in_step r1" "memory_of r1 = stored (memory_of r) p data"
proof -
  have "fst (write_ndef T B data r) = Ok ()"
    using write_ndef_reliable_at [OF assms(1-4), of data] assms(5) by simp
  then obtain r1 where r1: "write_ndef T B data r = (Ok (), r1)"
    by (metis prod.collapse)
  have "in_step r1 \<and> (\<exists>p. write_check B (memory_of r) data = Ok p \<and> memory_of r1 = stored (memory_of r) p data)"
    by (rule triple_OkD [OF write_ndef_at [OF assms(1,2)] _ r1]) (use assms(4) in simp)
  with r1 assms(5) show thesis
    by (auto intro: that)
qed

end

end
