(* ===== verification/Tags.thy ===== *)
theory Tags
  imports Ndef_Write
begin

unbundle bit_operations_syntax

text \<open>
  Tags that meet the interface \<open>t2t_tag\<close>: the \<open>RecordingTransceiver\<close> of the tests of
  \<open>src/src/type2/reader.rs\<close>, which has one sector and never fails, their \<open>FailingTransceiver\<close>,
  whose first commands fail, and a tag with 255 sectors on an unreliable link, where a script decides
  which commands or answers are lost, and every loss resets the tag to sector 0.
\<close>

section \<open>The transceivers of the tests\<close>

lemma flat_read_length [simp]: "length (flat_read m b) = 16"
proof -
  have "unat b < 256" by simp
  then show ?thesis
    by (simp add: flat_read_def Let_def geometry MOCK_MEMORY_SIZE_def min_def del: u8_unat_lt)
qed

lemma flat_read_nth:
  "i < 16 \<Longrightarrow> 4 * unat b + i < 1024 \<Longrightarrow> flat_read m b ! i = m (4 * unat b + i)"
  by (auto simp: flat_read_def Let_def geometry MOCK_MEMORY_SIZE_def nth_append min_def mult.commute)

lemma flat_write_eq: "flat_write m b d = upd_block m (4 * unat b) d"
proof -
  have "unat b < 256" by simp
  then show ?thesis
    by (cases d) (simp add: geometry MOCK_MEMORY_SIZE_def Let_def mult.commute del: u8_unat_lt)
qed

lemma command_try_from_wire:
  "command_try_from [0x30, b] = Ok (Read b)"
  "command_try_from (0xA2 # b # bytes4_list d) = Ok (Write b d)"
  "command_try_from [0xC2, 0xFF] = Ok SectorSelectPart1"
proof -
  show "command_try_from (0xA2 # b # bytes4_list d) = Ok (Write b d)"
    by (cases d) (simp add: command_try_from_def command_codes)
qed (simp_all add: command_try_from_def command_codes)

lemma ACK_nibble [simp]: "ACK AND 15 = ACK"
  by (simp add: ACK_def)

text \<open>The answers of the transceivers with one sector.\<close>

lemma recording_commands:
  "transceive recording [0x30, b] t = (Inr (flat_read (memory t) b), t)"
  "transceive recording (0xA2 # b # bytes4_list d) t =
     (Inr [ACK], t\<lparr>memory := flat_write (memory t) b d, writes := writes t + 1\<rparr>)"
  "transceive recording [0xC2, 0xFF] t = (Inr [ACK], t)"
  "transceive_no_response recording cmd t = (Inr None, t)"
  unfolding recording_def recording_transceive_def recording_no_response_def
  by (simp_all add: command_try_from_wire del: flat_write.simps)

lemma mock_commands:
  "mock_transceive [0x30, b] t = (Inr (flat_read (mock_memory t) b), t)"
  "mock_transceive (0xA2 # b # bytes4_list d) t =
     (Inr [ACK], t\<lparr>mock_memory := flat_write (mock_memory t) b d\<rparr>)"
  "mock_transceive [0xC2, 0xFF] t = (Inr [ACK], t)"
  "mock_no_response cmd t = (Inr None, t)"
  unfolding mock_transceive_def mock_no_response_def
  by (simp_all add: command_try_from_wire del: flat_write.simps)

lemma failing_commands:
  "transceive failing cmd t =
     (if 0 < failures_remaining t
      then (Inl (), t\<lparr>attempts := attempts t + 1, failures_remaining := failures_remaining t - 1\<rparr>)
      else (case mock_transceive cmd (failing_mock t) of
              (x, inner) \<Rightarrow> (x, t\<lparr>attempts := attempts t + 1, failing_mock := inner\<rparr>)))"
  "transceive_no_response failing cmd t = (Inr None, t)"
  by (simp_all add: failing_def failing_transceive_def failing_no_response_def mock_commands Let_def)

interpretation rec_tag: t2t_tag recording memory "\<lambda>_. 0" 1 "{}"
proof (unfold_locales, goal_cases)
  case (2 b t x t')
  then show ?case
    by (auto simp: recording_commands block_addr_def flat_read_nth)
next
  case (3 b d t x t')
  then show ?case
    by (auto simp: recording_commands block_addr_def flat_write_eq simp del: upd_block.simps)
next
  case (4 t x t')
  then show ?case
    by (auto simp: recording_commands)
next
  case (5 t raw t1 s y t2)
  then show ?case
    by (auto simp: recording_commands unat_eq_zero)
qed simp

interpretation failing_tag: t2t_tag failing "\<lambda>t. mock_memory (failing_mock t)" "\<lambda>_. 0" 1 "{Transceiver ()}"
proof (unfold_locales, goal_cases)
  case (2 b t x t')
  then show ?case
    by (auto simp: failing_commands mock_commands block_addr_def flat_read_nth split: if_splits)
next
  case (3 b d t x t')
  then show ?case
    by (auto simp: failing_commands mock_commands block_addr_def flat_write_eq split: if_splits
        simp del: upd_block.simps)
next
  case (4 t x t')
  then show ?case
    by (auto simp: failing_commands mock_commands split: if_splits)
next
  case (5 t raw t1 s y t2)
  then show ?case
    by (auto simp: failing_commands mock_commands unat_eq_zero split: if_splits)
qed simp

interpretation mock_tag: t2t_tag mock mock_memory "\<lambda>_. 0" 1 "{}"
proof (unfold_locales, goal_cases)
  case (2 b t x t')
  then show ?case
    by (auto simp: mock_def mock_commands block_addr_def flat_read_nth)
next
  case (3 b d t x t')
  then show ?case
    by (auto simp: mock_def mock_commands block_addr_def flat_write_eq simp del: upd_block.simps)
next
  case (4 t x t')
  then show ?case
    by (auto simp: mock_def mock_commands)
next
  case (5 t raw t1 s y t2)
  then show ?case
    by (auto simp: mock_def mock_commands unat_eq_zero)
qed simp

section \<open>A tag with sectors on an unreliable link\<close>

text \<open>
  What becomes of a command: it is served, or it never arrives, or it is carried out and its answer
  is lost.
\<close>

datatype fate = Served | Missed | Unanswered

record lossy_tag =
  tag_memory :: "nat \<Rightarrow> u8"
  active_sector :: u8
  fates :: "fate list"

definition next_fate :: "lossy_tag \<Rightarrow> fate" where
  "next_fate t = (case fates t of [] \<Rightarrow> Served | f # _ \<Rightarrow> f)"

fun lossy_serve :: "command \<Rightarrow> lossy_tag \<Rightarrow> u8 list \<times> lossy_tag" where
  "lossy_serve (Read b) t =
     (map (\<lambda>i. if 4 * unat b + i < 1024 then tag_memory t (block_addr (active_sector t) b + i) else 0)
        [0 ..< 16], t)"
| "lossy_serve (Write b d) t =
     ([ACK], t\<lparr>tag_memory := upd_block (tag_memory t) (block_addr (active_sector t) b) d\<rparr>)"
| "lossy_serve _ t = ([ACK], t)"

definition lossy_transceive :: "u8 list \<Rightarrow> lossy_tag \<Rightarrow> (unit + u8 list) \<times> lossy_tag" where
  "lossy_transceive cmd t =
     (case command_try_from cmd of
        Ok c \<Rightarrow>
          (let (raw, t1) = lossy_serve c (t\<lparr>fates := tl (fates t)\<rparr>) in
           case next_fate t of
             Served \<Rightarrow> (Inr raw, t1)
           | Unanswered \<Rightarrow> (Inl (), t1\<lparr>active_sector := 0\<rparr>)
           | Missed \<Rightarrow> (Inl (), t\<lparr>fates := tl (fates t), active_sector := 0\<rparr>))
      | _ \<Rightarrow> (Inl (), t))"

definition lossy_no_response :: "u8 list \<Rightarrow> lossy_tag \<Rightarrow> (unit + u8 option) \<times> lossy_tag" where
  "lossy_no_response cmd t =
     (let t1 = t\<lparr>fates := tl (fates t)\<rparr> in
      case next_fate t of
        Served \<Rightarrow> (Inr None, t1\<lparr>active_sector := cmd ! 0\<rparr>)
      | _ \<Rightarrow> (Inl (), t1\<lparr>active_sector := 0\<rparr>))"

definition lossy :: "(lossy_tag, unit) t2t_transceiver" where
  "lossy = \<lparr>transceive = lossy_transceive, transceive_no_response = lossy_no_response\<rparr>"

lemma lossy_commands:
  "transceive lossy cmd = lossy_transceive cmd"
  "transceive_no_response lossy cmd = lossy_no_response cmd"
  by (simp_all add: lossy_def)

interpretation lossy_tag: t2t_tag lossy tag_memory active_sector 255 "{Transceiver ()}"
proof (unfold_locales, goal_cases)
  case (2 b t x t')
  then show ?case
    by (auto simp: lossy_commands lossy_transceive_def command_try_from_wire split: fate.splits)
next
  case (3 b d t x t')
  then show ?case
    by (auto simp: lossy_commands lossy_transceive_def command_try_from_wire split: fate.splits
        simp del: upd_block.simps)
next
  case (4 t x t')
  then show ?case
    by (auto simp: lossy_commands lossy_transceive_def command_try_from_wire split: fate.splits)
next
  case (5 t raw t1 s y t2)
  then show ?case
    by (auto simp: lossy_commands lossy_no_response_def Let_def split: fate.splits)
qed simp

end
