(* ===== verification/Roundtrip.thy ===== *)
theory Roundtrip
  imports Ndef_Write
begin

text \<open>
  What a reader finds in the memory \<open>write_ndef\<close> leaves: the message that was written, when no lock
  or reserved area lies inside the data area and the blocks in front of the message are encoded the
  way \<open>to_bytes\<close> encodes them.
\<close>

section \<open>The blocks in front of the message\<close>

text \<open>The blocks before the first NDEF Message TLV.\<close>

definition before_ndef :: "tlv list \<Rightarrow> tlv list" where
  "before_ndef ts = takeWhile (\<lambda>t. ndef_data t = None) ts"

lemma length_bytes3: "length (bytes3_list x) = 3"
  by (cases x) simp

lemma before_ndef_offset:
  assumes "ndef_tlv_offset k ts = Some off" and "\<forall>t \<in> set (before_ndef ts). tlv_wf t"
  shows "off = k + length (concat (map tlv_bytes (before_ndef ts))) \<and>
    Terminator \<notin> set (before_ndef ts)"
  using assms
proof (induction k ts rule: ndef_tlv_offset.induct)
  case (7 k data ts)
  then show ?case
    by (auto simp: before_ndef_def u16_of_nat_less_255)
qed (auto simp: before_ndef_def length_bytes3)

text \<open>On parsed blocks the writer's offset is the size of the encoded blocks in front of the message.\<close>

lemma ndef_offset_before:
  assumes "\<forall>t \<in> set ts. tlv_wf t" and "Terminator \<notin> set (butlast ts)"
  shows "ndef_tlv_offset k ts = (case first_ndef ts of None \<Rightarrow> None
    | Some _ \<Rightarrow> Some (k + length (concat (map tlv_bytes (before_ndef ts)))))"
  using assms
proof (induction k ts rule: ndef_tlv_offset.induct)
  case (4 k ts)
  then have "ts = []" by (cases ts) auto
  then show ?case by simp
next
  case (7 k data ts)
  then show ?case
    by (auto simp: before_ndef_def u16_of_nat_less_255 split: option.splits if_splits)
qed (auto simp: before_ndef_def length_bytes3 split: option.splits if_splits)

lemma blocks_in_wf:
  assumes "build_ok B" and "blocks_in B cc m = Ok ts"
  shows "\<forall>t \<in> set ts. tlv_wf t" and "Terminator \<notin> set (butlast ts)"
proof -
  obtain L where L: "tlvs_in B L m = Ok ts" "data_area_size L = cc_data_area_size cc"
    using assms(2) by (auto simp: blocks_in_def res_bind_Ok_iff layout_of_def split: if_splits)
  let ?bs = "up_to_stop scanner_new (area_bytes L m)"
  have "parse_tlvs (bytes_lib B) (tlv_lib B) ?bs = Ok ts"
    using L(1) by (auto simp: tlvs_in_def scanned_area_def Let_def split: if_splits)
  then have stream: "tlv_stream ?bs ts" and control: "\<forall>t \<in> set ts. control_ok t"
    using parse_tlvs_iff [OF build_okD(1,2) [OF assms(1)]] parsed_control_ok [OF assms(1)] by blast+
  have "length ?bs \<le> length (area_bytes L m)"
    by (simp add: up_to_stop_def split: option.splits)
  also have "\<dots> \<le> unat (data_area_size L)"
    by (simp add: area_bytes_def)
  also have "\<dots> \<le> 2040"
    using u8_unat_lt [of "size_field cc"] by (simp add: L(2) unat_data_area_size del: u8_unat_lt)
  finally have "length ?bs \<le> 2040" .
  moreover note tlv_stream_values [OF stream]
  moreover have "length (block_value t) \<le> sum_list (map (\<lambda>t. length (block_value t)) ts)" if "t \<in> set ts" for t
    by (rule member_le_sum_list) (use that in auto)
  ultimately have "length (block_value t) \<le> 0xFFFE" if "t \<in> set ts" for t
    using that by fastforce
  then show "\<forall>t \<in> set ts. tlv_wf t"
    using control by (metis block_value.simps(1,2) control_ok.simps(1,2) tlv.exhaust tlv_wf.simps)
  show "Terminator \<notin> set (butlast ts)"
    using tlv_stream_values [OF stream] by blast
qed

lemma before_ndef_first:
  "first_ndef (before_ndef ts @ NdefMessage data # us) = Some data"
  by (induction ts) (auto simp: before_ndef_def split: option.splits)

text \<open>The control TLVs decide the layout; those in front of the message are all that count here.\<close>

lemma layout_of_controls:
  assumes "filter is_control ts = filter is_control us"
  shows "layout_of cc ts = layout_of cc us"
proof -
  have "lock_areas_of ts = lock_areas_of (filter is_control ts)"
    "reserved_areas_of ts = reserved_areas_of (filter is_control ts)" for ts
    by (induction ts rule: lock_areas_of.induct) simp_all
  then show ?thesis
    unfolding layout_of_def assms by (metis assms)
qed

section \<open>The area after a write\<close>

lemma map_place:
  assumes "distinct (pre @ mid @ post)" and "length mid = length ds"
  shows "map (place m (mid @ post) ds) (pre @ mid @ post) = map m pre @ ds @ map m post"
proof -
  have "place m (mid @ post) ds = place m mid ds"
    using assms(2) by (intro place_short) simp
  moreover have "map (place m mid ds) mid = ds"
    using assms by (intro nth_equalityI) (auto simp: place_nth)
  moreover have "map (place m mid ds) xs = map m xs" if "set xs \<inter> set mid = {}" for xs
    using that by (intro map_cong refl place_outside) auto
  ultimately show ?thesis
    using assms(1) by auto
qed

lemma area_bytes_place:
  assumes "off + length ds \<le> n" and "n \<le> length (usable_addrs L)" and "n = unat (data_area_size L)"
  shows "area_bytes L (place m (message_addrs L off) ds) =
    take off (area_bytes L m) @ ds @ drop (off + length ds) (area_bytes L m)"
proof -
  define us where "us = take n (usable_addrs L)"
  have us: "distinct us" "length us = n"
    using assms(2) by (simp_all add: us_def distinct_usable)
  have split: "us = take off us @ take (length ds) (drop off us) @ drop (off + length ds) us"
    by (metis append_take_drop_id drop_drop add.commute)
  then have "map (place m (drop off us) ds) us =
      map m (take off us) @ ds @ map m (drop (off + length ds) us)"
    using map_place [of "take off us" "take (length ds) (drop off us)" "drop (off + length ds) us" ds m]
      us assms(1) by (metis (no_types, lifting) append_take_drop_id drop_drop add.commute
        length_take length_drop min.absorb2 le_diff_conv2 add_leD1 add.commute)
  then show ?thesis
    by (simp add: area_bytes_def message_addrs_def us_def assms(3) take_map drop_map)
qed

section \<open>Reading the message back\<close>

text \<open>No lock or reserved area of the blocks lies inside the data area.\<close>

definition skips_no_data :: "capability_container \<Rightarrow> tlv list \<Rightarrow> bool" where
  "skips_no_data cc ts \<longleftrightarrow>
     (let n = unat (cc_data_area_size cc) in
      take n (usable_addrs (layout_of cc ts)) = take n (usable_addrs (layout_of cc [])))"

text \<open>
  The blocks before the message are encoded canonically, and in front of it stand all control TLVs.
\<close>

definition canonical_front :: "capability_container \<Rightarrow> tlv list \<Rightarrow> (nat \<Rightarrow> u8) \<Rightarrow> bool" where
  "canonical_front cc ts m \<longleftrightarrow>
     (let pre = before_ndef ts; bytes = concat (map tlv_bytes pre) in
      (\<forall>t \<in> set pre. tlv_wf t) \<and> take (length bytes) (area_bytes (layout_of cc ts) m) = bytes \<and>
      filter is_control ts = filter is_control pre)"

text \<open>
  A reader's buffers hold the data area up to the Terminator behind a message of \<open>n\<close> bytes, and its
  blocks. The buffers of a writer are smaller by the blocks in front of the message, so that an
  accepted message can fail this.
\<close>

definition buffers_suffice :: "build \<Rightarrow> tlv list \<Rightarrow> nat \<Rightarrow> bool" where
  "buffers_suffice B ts n \<longleftrightarrow>
     (let pre = before_ndef ts in
      vec_fits (bytes_lib B) DATA_VEC_CAP (message_end (length (concat (map tlv_bytes pre))) n) \<and>
      vec_fits (tlv_lib B) TLV_VEC_CAP (length pre + 2))"

lemma blocks_in_values:
  assumes "build_ok B" and "blocks_in B cc m = Ok ts" and "t \<in> set ts"
  shows "value_fits (bytes_lib B) (Some t)"
  using blocks_in_parsed [OF assms(2)] parse_tlvs_iff [OF build_okD(1,2) [OF assms(1)]] assms(3) by blast

lemma scan_blocks:
  assumes "\<forall>t \<in> set ts. tlv_wf t \<and> t \<noteq> Terminator"
  shows "scan TagState (concat (map tlv_bytes ts) @ rest) =
    map_option (\<lambda>k. length (concat (map tlv_bytes ts)) + k) (scan TagState rest)"
  using assms
proof (induction ts)
  case (Cons t ts)
  then have "raw_block (tlv_bytes t)"
    by (auto intro: tlv_block_raw [OF tlv_bytes_block])
  from scan_raw_block [OF this] Cons show ?case
    by (simp add: option.map_comp comp_def add.assoc)
qed (cases "scan TagState rest"; simp)

text \<open>
  Canonical blocks, a message and a Terminator, whatever follows. The parser finds them exactly when
  they fit its vectors.
\<close>

lemma parse_up_to_message:
  fixes pre data rest
  defines "s \<equiv> concat (map tlv_bytes pre) @ ndef_bytes data @ rest"
  assumes "vec_lib_ok bl" "vec_lib_ok tvl"
    and "\<forall>t \<in> set pre. tlv_wf t \<and> t \<noteq> Terminator" and "length data \<le> 0xFFFE"
    and "\<forall>t \<in> set pre. value_fits bl (Some t)" and "vec_fits bl DATA_VEC_CAP (length data)"
  shows "up_to_stop scanner_new s = concat (map tlv_bytes pre) @ ndef_bytes data"
    and "parse_tlvs bl tvl (concat (map tlv_bytes pre) @ ndef_bytes data) =
      (if vec_fits tvl TLV_VEC_CAP (length pre + 2) then Ok (pre @ [NdefMessage data, Terminator])
       else Err type2_error.BufferFull)"
proof -
  let ?blocks = "pre @ [NdefMessage data]"
  have blocks: "\<forall>t \<in> set ?blocks. tlv_wf t \<and> t \<noteq> Terminator"
    using assms by auto
  have split: "concat (map tlv_bytes pre) @ ndef_bytes data @ xs = concat (map tlv_bytes ?blocks) @ 0xFE # xs"
    for xs by (simp add: ndef_bytes_def)
  have "scan TagState s = Some (length (concat (map tlv_bytes ?blocks)))"
    unfolding s_def split scan_blocks [OF blocks] by (simp add: tlv_tags)
  then have "up_to_stop scanner_new s = take (Suc (length (concat (map tlv_bytes ?blocks)))) s"
    by (simp add: up_to_stop_def scanner_new_def)
  also have "\<dots> = concat (map tlv_bytes ?blocks) @ [0xFE]"
    unfolding s_def split by simp
  finally show "up_to_stop scanner_new s = concat (map tlv_bytes pre) @ ndef_bytes data"
    by (simp add: ndef_bytes_def)
  have "tlv_stream (concat (map tlv_bytes ?blocks) @ [0xFE]) (?blocks @ [Terminator])"
    by (rule tlv_stream_serialized [OF blocks tlv_stream.stop])
  then have stream: "tlv_stream (concat (map tlv_bytes pre) @ ndef_bytes data) (pre @ [NdefMessage data, Terminator])"
    using split [of "[]"] by simp
  note iff = parse_tlvs_iff [of _ _ "concat (map tlv_bytes pre) @ ndef_bytes data" "pre @ [NdefMessage data, Terminator]"]
  have "parse_tlvs Alloc Alloc (concat (map tlv_bytes pre) @ ndef_bytes data) =
      Ok (pre @ [NdefMessage data, Terminator])"
    using stream by (subst iff) simp_all
  then show "parse_tlvs bl tvl (concat (map tlv_bytes pre) @ ndef_bytes data) =
      (if vec_fits tvl TLV_VEC_CAP (length pre + 2) then Ok (pre @ [NdefMessage data, Terminator])
       else Err type2_error.BufferFull)"
    using parse_tlvs_alike [OF assms(2,3), of "concat (map tlv_bytes pre) @ ndef_bytes data"]
      iff [OF assms(2,3)] stream assms(6,7) by auto
qed

lemma cc_in_place:
  assumes "set as \<subseteq> set (message_addrs L off)"
  shows "cc_in (place m as ds) = cc_in m"
proof -
  have "a \<notin> set as" if "a < 16" for a
    using that assms by (auto simp: message_addrs_def usable_from_mem dest!: in_set_dropD in_set_takeD)
  then show ?thesis
    by (simp add: cc_in_def place_outside)
qed

lemma cc_in_stored: "cc_in (stored m p data) = cc_in m"
  unfolding stored_def by (rule cc_in_place [OF subset_refl])

text \<open>What an accepted plan and a plain tag have in common with every later reader.\<close>

lemma plan_front:
  assumes "build_ok B" and "write_check B m data = Ok p" and "cc_in m = Ok cc"
    and "blocks_in B cc m = Ok ts" and "skips_no_data cc ts" and "canonical_front cc ts m"
  defines "front \<equiv> concat (map tlv_bytes (before_ndef ts))" and "n \<equiv> unat (cc_data_area_size cc)"
  shows "wp_layout p = layout_of cc ts" and "wp_ndef_offset p = length front"
    and "\<forall>t \<in> set (before_ndef ts). tlv_wf t \<and> t \<noteq> Terminator" and "is_valid cc"
    and "length data \<le> 0xFFFE" and "message_end (length front) (length data) \<le> n"
    and "length (ndef_bytes data) = 2 + l_field_size (length data) + length data"
    and "area_bytes (layout_of cc []) x = area_bytes (layout_of cc ts) x"
    and "length front + length ds \<le> n \<Longrightarrow>
      area_bytes (layout_of cc ts) (place m (message_addrs (wp_layout p) (wp_ndef_offset p)) ds) =
      front @ ds @ drop (length front + length ds) (area_bytes (layout_of cc ts) m)"
proof -
  let ?L = "layout_of cc ts"
  have size: "data_area_size (layout_of cc us) = cc_data_area_size cc" for us
    by (simp add: layout_of_def)
  have facts: "is_valid cc" "wp_layout p = ?L" "ndef_tlv_offset 0 ts = Some (wp_ndef_offset p)"
    "length data \<le> 0xFFFE" "message_end (wp_ndef_offset p) (length data) \<le> n" "n \<le> length (usable_addrs ?L)"
    using write_check_Ok [OF assms(1,2)] assms(3,4) size unfolding n_def by (metis res.inject(1))+
  have canon: "\<forall>t \<in> set (before_ndef ts). tlv_wf t" "take (length front) (area_bytes ?L m) = front"
    using assms(6) by (simp_all add: canonical_front_def Let_def front_def)
  note off = before_ndef_offset [OF facts(3) canon(1), folded front_def]
  show "wp_layout p = ?L" "is_valid cc" "length data \<le> 0xFFFE"
    by (rule facts)+
  show eq: "wp_ndef_offset p = length front"
    using off by simp
  show "\<forall>t \<in> set (before_ndef ts). tlv_wf t \<and> t \<noteq> Terminator"
    using off canon(1) by auto
  show "message_end (length front) (length data) \<le> n"
    using facts(5) by (simp add: eq)
  show "length (ndef_bytes data) = 2 + l_field_size (length data) + length data"
    using length_l_bytes [OF facts(4)] by (simp add: ndef_bytes_def del: length_length_field)
  show "area_bytes (layout_of cc []) x = area_bytes ?L x"
    using assms(5) by (simp add: skips_no_data_def area_bytes_def size Let_def take_map)
  assume "length front + length ds \<le> n"
  from area_bytes_place [OF this facts(6), of m] canon(2)
  show "area_bytes ?L (place m (message_addrs (wp_layout p) (wp_ndef_offset p)) ds) =
      front @ ds @ drop (length front + length ds) (area_bytes ?L m)"
    unfolding facts(2) eq by (simp add: size n_def)
qed

lemma area_stored:
  assumes "build_ok B" and "write_check B m data = Ok p" and "cc_in m = Ok cc"
    and "blocks_in B cc m = Ok ts" and "skips_no_data cc ts" and "canonical_front cc ts m"
  obtains rest where "area_bytes (layout_of cc ts) (stored m p data) =
      concat (map tlv_bytes (before_ndef ts)) @ ndef_bytes data @ rest"
    and "area_bytes (layout_of cc []) (stored m p data) =
      concat (map tlv_bytes (before_ndef ts)) @ ndef_bytes data @ rest"
proof -
  note F = plan_front [OF assms]
  have "length (concat (map tlv_bytes (before_ndef ts))) + length (ndef_bytes data) \<le> unat (cc_data_area_size cc)"
    using F(6) by (simp add: F(7) message_end_def)
  from F(9) [OF this] show thesis
    using that F(8) by (simp add: stored_def)
qed

text \<open>What a pass over the data area finds after the write.\<close>

lemma tlvs_in_stored:
  assumes "build_ok B" and "write_check B m data = Ok p" and "cc_in m = Ok cc"
    and "blocks_in B cc m = Ok ts" and "skips_no_data cc ts" and "canonical_front cc ts m"
    and "us \<in> {[], ts}"
  shows "tlvs_in B (layout_of cc us) (stored m p data) =
    (if buffers_suffice B ts (length data) then Ok (before_ndef ts @ [NdefMessage data, Terminator])
     else Err type2_error.BufferFull)"
proof -
  let ?front = "concat (map tlv_bytes (before_ndef ts))"
  note F = plan_front [OF assms(1-6)]
  note libs = build_okD(1,2) [OF assms(1)]
  obtain rest where area: "area_bytes (layout_of cc us) (stored m p data) = ?front @ ndef_bytes data @ rest"
    using area_stored [OF assms(1-6)] assms(7) by blast
  have vals: "\<forall>t \<in> set (before_ndef ts). value_fits (bytes_lib B) (Some t)"
    using blocks_in_values [OF assms(1,4)] by (auto simp: before_ndef_def dest: set_takeWhileD)
  have "length (?front @ ndef_bytes data) = message_end (length ?front) (length data)"
    by (simp add: F(7) message_end_def add.assoc)
  moreover have "vec_fits (bytes_lib B) DATA_VEC_CAP (length data)"
    if "vec_fits (bytes_lib B) DATA_VEC_CAP (message_end (length ?front) (length data))"
    using vec_fits_mono [OF libs(1) that] by (simp add: message_end_def)
  moreover have "up_to_stop scanner_new (?front @ ndef_bytes data @ rest) = ?front @ ndef_bytes data"
    by (rule parse_up_to_message(1) [of Alloc Alloc, OF _ _ F(3,5)]) simp_all
  moreover note parse_up_to_message(2) [OF libs F(3,5) vals]
  ultimately show ?thesis
    by (auto simp: tlvs_in_def scanned_area_def area Let_def buffers_suffice_def)
qed

lemma message_in_stored:
  assumes "build_ok B" and "write_check B m data = Ok p" and "cc_in m = Ok cc"
    and "blocks_in B cc m = Ok ts" and "skips_no_data cc ts" and "canonical_front cc ts m"
  defines "ts' \<equiv> before_ndef ts @ [NdefMessage data, Terminator]" and "m' \<equiv> stored m p data"
    and "fits \<equiv> buffers_suffice B ts (length data)"
  shows "layout_of cc ts' = layout_of cc ts"
    and "tlvs_in B (layout_of cc []) m' = (if fits then Ok ts' else Err type2_error.BufferFull)"
    and "blocks_in B cc m' = (if fits then Ok ts' else Err type2_error.BufferFull)"
    and "message_in B m' = (if fits then Ok data else Err type2_error.BufferFull)"
    and "write_check B m' data' = (if fits then plan_write B cc ts' data' else Err type2_error.BufferFull)"
proof -
  note F = plan_front [OF assms(1-6)]
  show L': "layout_of cc ts' = layout_of cc ts"
    using assms(6) by (intro layout_of_controls) (simp add: ts'_def canonical_front_def Let_def)
  note tlvs = tlvs_in_stored [OF assms(1-6), folded m'_def ts'_def fits_def]
  show "tlvs_in B (layout_of cc []) m' = (if fits then Ok ts' else Err type2_error.BufferFull)"
    using tlvs [of "[]"] by simp
  then show blocks: "blocks_in B cc m' = (if fits then Ok ts' else Err type2_error.BufferFull)"
    using tlvs [of ts] by (simp add: blocks_in_def L')
  have cc: "cc_in m' = Ok cc"
    unfolding m'_def cc_in_stored by (rule assms)
  obtain cc' where "cc_in m = Ok cc'" "write_access cc' = Granted"
    using write_check_Ok [OF assms(1,2)] by metis
  then have "write_access cc = Granted"
    using assms(3) by simp
  then show "message_in B m' = (if fits then Ok data else Err type2_error.BufferFull)"
    and "write_check B m' data' = (if fits then plan_write B cc ts' data' else Err type2_error.BufferFull)"
    using F(4) before_ndef_first [of ts data "[Terminator]"] cc blocks
    by (simp_all add: message_in_def write_check_def ts'_def)
qed

text \<open>Later calls stay inside the tag, too.\<close>

lemma stored_in_reach:
  assumes "build_ok B" and "write_check B m data = Ok p" and "cc_in m = Ok cc"
    and "blocks_in B cc m = Ok ts" and "skips_no_data cc ts" and "canonical_front cc ts m"
    and "write_in_reach sectors B m"
  shows "write_in_reach sectors B (stored m p data)"
  using assms(3,4,7) message_in_stored(1-3) [OF assms(1-6)]
  by (auto simp: write_in_reach_def passes_in_reach_def cc_in_stored split: if_splits)

section \<open>Writing, then reading\<close>

context t2t_tag
begin

lemma write_then_read_at:
  assumes "build_ok B" and "write_in_reach sectors B m" and "cc_in m = Ok cc" and "blocks_in B cc m = Ok ts"
    and "skips_no_data cc ts" and "canonical_front cc ts m"
    and "in_step r" and "memory_of r = m" and "write_ndef T B data r = (Ok (), r1)"
  shows "case read_ndef T B r1 of
      (Ok x, r2) \<Rightarrow> x = data \<and> buffers_suffice B ts (length data) \<and> memory_of r2 = memory_of r1
    | (Err e, r2) \<Rightarrow> (e \<in> faults \<or> e = Protocol type2_error.BufferFull \<and> \<not> buffers_suffice B ts (length data)) \<and>
        memory_of r2 = memory_of r1
    | (Panic, r2) \<Rightarrow> False"
    and "\<not> buffers_suffice B ts (length data) \<Longrightarrow> case write_ndef T B data' r1 of
      (Ok _, r2) \<Rightarrow> False
    | (Err e, r2) \<Rightarrow> (e \<in> faults \<or> e = Protocol type2_error.BufferFull) \<and> memory_of r2 = memory_of r1
    | (Panic, r2) \<Rightarrow> False"
proof -
  obtain p where r1: "in_step r1" "write_check B m data = Ok p" "memory_of r1 = stored m p data"
    using triple_OkD [OF write_ndef_at [OF assms(1,2)] _ assms(9)] assms(7,8) by blast
  note found = message_in_stored [OF assms(1) r1(2) assms(3-6)]
  note reach = stored_in_reach [OF assms(1) r1(2) assms(3-6,2)]
  have "computes (stored m p data) (read_ndef T B) (message_in B (stored m p data))"
    using reach by (intro read_ndef_computes assms(1)) (simp add: write_in_reach_def)
  note spec = this [unfolded computes_def found(4)]
  have "in_step r1 \<and> memory_of r1 = stored m p data"
    using r1 by simp
  from spec this show "case read_ndef T B r1 of
      (Ok x, r2) \<Rightarrow> x = data \<and> buffers_suffice B ts (length data) \<and> memory_of r2 = memory_of r1
    | (Err e, r2) \<Rightarrow> (e \<in> faults \<or> e = Protocol type2_error.BufferFull \<and> \<not> buffers_suffice B ts (length data)) \<and>
        memory_of r2 = memory_of r1
    | (Panic, r2) \<Rightarrow> False"
    by (cases rule: triple_cases) (use r1 in \<open>auto split: if_splits\<close>)
  show "case write_ndef T B data' r1 of
      (Ok _, r2) \<Rightarrow> False
    | (Err e, r2) \<Rightarrow> (e \<in> faults \<or> e = Protocol type2_error.BufferFull) \<and> memory_of r2 = memory_of r1
    | (Panic, r2) \<Rightarrow> False" if "\<not> buffers_suffice B ts (length data)"
    using triple_at [OF write_ndef_at [OF assms(1) reach], of r1 data'] r1 found(5) that by auto
qed

end

section \<open>Reading after an interrupted write\<close>

lemma stream_block_first:
  assumes "tlv_stream (b @ rest) ts" and "tlv_block b (Some t)" and "t \<noteq> Terminator"
  shows "\<exists>us. ts = t # us \<and> tlv_stream rest us"
  using assms(1)
proof (cases rule: tlv_stream.cases)
  case empty
  then show ?thesis using tlv_block_nonempty [OF assms(2)] by simp
next
  case (stop xs)
  from tlv_block_unique [OF assms(2) tlv_block.terminator, of rest xs] stop assms(3) show ?thesis by simp
next
  case (block b' t' rest' us)
  from tlv_block_unique [OF assms(2) block(3), of rest rest'] block show ?thesis by auto
next
  case (skip b' rest')
  from tlv_block_unique [OF assms(2) skip(2), of rest rest'] skip show ?thesis by auto
qed

lemma stream_front:
  assumes "\<forall>t \<in> set pre. tlv_wf t \<and> t \<noteq> Terminator" and "tlv_stream (concat (map tlv_bytes pre) @ rest) ts"
  shows "\<exists>us. ts = pre @ us \<and> tlv_stream rest us"
  using assms
proof (induction pre arbitrary: ts)
  case (Cons t pre)
  then obtain us where us: "ts = t # us" "tlv_stream (concat (map tlv_bytes pre) @ rest) us"
    using stream_block_first [OF _ tlv_bytes_block, of t "concat (map tlv_bytes pre) @ rest" ts] by auto
  with Cons.IH [of us] Cons.prems(1) show ?case by auto
qed simp

lemma tlvs_in_stream:
  assumes "build_ok B" and "tlvs_in B L m = Ok ts"
  shows "tlv_stream (area_bytes L m) ts"
proof -
  have "parse_tlvs (bytes_lib B) (tlv_lib B) (up_to_stop scanner_new (area_bytes L m)) =
      parse_tlvs (bytes_lib B) (tlv_lib B) (area_bytes L m)"
    using scan_stop_parse by (simp add: up_to_stop_def split: option.splits)
  with assms(2) have "parse_tlvs (bytes_lib B) (tlv_lib B) (area_bytes L m) = Ok ts"
    by (auto simp: tlvs_in_def scanned_area_def Let_def split: if_splits)
  then show ?thesis
    using parse_tlvs_iff [OF build_okD(1,2) [OF assms(1)]] by blast
qed

text \<open>On a static tag, whatever follows the first complete message does not matter.\<close>

lemma static_message:
  assumes "build_ok B" and "cc_in m = Ok cc" and "\<not> is_dynamic cc" and "message_in B m = Ok x"
    and "area_bytes (layout_of cc []) m = concat (map tlv_bytes (before_ndef ts)) @ tlv_bytes (NdefMessage d) @ rest"
    and "\<forall>t \<in> set (before_ndef ts). tlv_wf t \<and> t \<noteq> Terminator" and "length d \<le> 0xFFFE"
  shows "x = d"
proof -
  obtain us where us: "tlvs_in B (layout_of cc []) m = Ok us"
    "x = (case first_ndef us of Some data \<Rightarrow> data | None \<Rightarrow> [])"
    using assms(2-4) by (auto simp: message_in_def blocks_in_def res_bind_Ok_iff split: if_splits)
  from stream_front [OF assms(6) tlvs_in_stream [OF assms(1) us(1), unfolded assms(5)]]
  obtain vs where vs: "us = before_ndef ts @ vs" "tlv_stream (tlv_bytes (NdefMessage d) @ rest) vs" by blast
  then obtain ws where "vs = NdefMessage d # ws"
    using stream_block_first [OF vs(2) tlv_bytes_block] assms(7) by auto
  with us(2) vs(1) before_ndef_first [of ts d ws] show ?thesis by simp
qed

text \<open>
  A short message that was interrupted: the first bytes are those of an empty message or the message
  itself, unless nothing was changed yet.
\<close>

lemma interrupted_memory:
  assumes "interrupted m p data m'" and "length data < 255"
    and "message_addrs (wp_layout p) (wp_ndef_offset p) = a # as" and "m a = 0x03" and "distinct as"
  shows "m' = m \<or> (\<exists>ds d rest. m' = place m (a # as) ds \<and> length ds \<le> length (ndef_bytes data) \<and>
    d \<in> {[], data} \<and> ds = tlv_bytes (NdefMessage d) @ rest)"
proof -
  let ?lf = "length_field (of_nat (length data))"
  have first: "first_bytes data = 0x03 # [0x00] @ data @ [0xFE]"
    using assms(2) by (simp add: first_bytes_def zero_length_field_def)
  have lf: "length ?lf = 1" "length_field 0 = [0]"
    using assms(2) u16_of_nat_less_255 [of "length data"] by (simp_all add: length_field_def)
  then have len: "length (ndef_bytes data) = length data + 3"
    by (simp add: ndef_bytes_def)
  have empty: ?thesis if m': "m' = place m (a # as) (take k (first_bytes data))" for k
  proof (cases "k < 2")
    case True
    then have "k = 0 \<or> k = 1" by auto
    then show ?thesis
      using m' assms(4) by (auto simp: first fun_upd_idem)
  next
    case False
    then have "take k (first_bytes data) = tlv_bytes (NdefMessage []) @ take (k - 2) (data @ [0xFE])"
      by (cases k; cases "k - 1") (auto simp: first lf)
    with m' show ?thesis
      by (intro disjI2 exI [of _ "take k (first_bytes data)"] exI [of _ "[]"]
          exI [of _ "take (k - 2) (data @ [0xFE])"]) (simp add: first len)
  qed
  have whole: ?thesis if "m' = place (place m (a # as) (first_bytes data)) as (take k ?lf)" "k \<noteq> 0" for k
  proof -
    have "take k ?lf = ?lf"
      using that(2) lf(1) by simp
    then have "m' = place m (a # as) (ndef_bytes data)"
      using that(1) place_again [of "[0x00]" ?lf as "m(a := 0x03)" "data @ [0xFE]"] lf(1) assms(5)
      by (simp add: first ndef_bytes_def)
    then show ?thesis
      by (intro disjI2 exI [of _ "ndef_bytes data"] exI [of _ data] exI [of _ "[0xFE]"])
        (simp add: ndef_bytes_def)
  qed
  from assms(1) consider k where "m' = place m (a # as) (take k (first_bytes data))"
    | k where "m' = place (place m (a # as) (first_bytes data)) as (take k ?lf)"
    by (auto simp: interrupted_def assms(3) Let_def)
  then show ?thesis
  proof cases
    case (2 k)
    then show ?thesis
      using whole [of k] empty [of "length (first_bytes data)"] by (cases "k = 0") simp_all
  qed (rule empty)
qed

lemma message_start:
  assumes "build_ok B" and "write_check B m data = Ok p" and "cc_in m = Ok cc" and "blocks_in B cc m = Ok ts"
    and "\<forall>off. ndef_tlv_offset 0 ts = Some off \<longrightarrow> area_bytes (layout_of cc ts) m ! off = x"
  shows "m (hd (message_addrs (wp_layout p) (wp_ndef_offset p))) = x"
proof -
  let ?L = "layout_of cc ts" and ?off = "wp_ndef_offset p"
  let ?n = "unat (data_area_size ?L)"
  have facts: "wp_layout p = ?L" "ndef_tlv_offset 0 ts = Some ?off" "message_end ?off (length data) \<le> ?n"
    "?n \<le> length (usable_addrs ?L)"
    using write_check_Ok [OF assms(1,2)] assms(3,4) by (metis res.inject(1))+
  then have "?off < ?n"
    by (simp add: message_end_def)
  then have "hd (message_addrs ?L ?off) = usable_addrs ?L ! ?off"
    and "area_bytes ?L m ! ?off = m (usable_addrs ?L ! ?off)"
    using facts(4) by (simp_all add: message_addrs_def hd_drop_conv_nth area_bytes_def)
  with assms(5) facts(1,2) show ?thesis by simp
qed

lemma interrupted_message:
  assumes "build_ok B" and "write_check B m data = Ok p" and "cc_in m = Ok cc"
    and "blocks_in B cc m = Ok ts" and "skips_no_data cc ts" and "canonical_front cc ts m"
    and "\<not> is_dynamic cc" and "m (hd (message_addrs (wp_layout p) (wp_ndef_offset p))) = 0x03"
    and "interrupted m p data m'" and "message_in B m' = Ok x"
  shows "x \<in> {[], data} \<or> message_in B m = Ok x"
proof -
  define front where "front = concat (map tlv_bytes (before_ndef ts))"
  let ?as = "message_addrs (wp_layout p) (wp_ndef_offset p)"
  note F = plan_front [OF assms(1-6), folded front_def]
  have "unat (cc_data_area_size cc) \<le> 48"
    using assms(7) by (simp add: is_dynamic_iff)
  then have short: "length data < 255"
    using F(6) by (simp add: message_end_def)
  note A = plan_addrs(7) [OF assms(1,2)]
  obtain a as where as: "?as = a # as" "m a = 0x03"
    using assms(8) A by (cases ?as) auto
  have "distinct ?as"
    by (simp add: message_addrs_def distinct_usable)
  then have "distinct as"
    by (simp add: as)
  from interrupted_memory [OF assms(9) short as this]
  consider "m' = m" | ds d rest where "m' = place m ?as ds" "length ds \<le> length (ndef_bytes data)"
    "d \<in> {[], data}" "ds = tlv_bytes (NdefMessage d) @ rest"
    unfolding as(1) by blast
  then show ?thesis
  proof cases
    case (2 ds d rest)
    have "length front + length ds \<le> unat (cc_data_area_size cc)"
      using 2(2) F(6,7) by (simp add: message_end_def)
    from F(9) [OF this] have "area_bytes (layout_of cc []) m' = front @ tlv_bytes (NdefMessage d) @
        rest @ drop (length front + length ds) (area_bytes (layout_of cc ts) m)"
      by (simp add: F(8) 2(1,4) del: tlv_bytes.simps)
    moreover have "cc_in m' = Ok cc"
      unfolding 2(1) cc_in_place [OF subset_refl] by (rule assms)
    ultimately have "x = d"
      using static_message [OF assms(1) _ assms(7,10) _ F(3)] 2(3) F(5) by (auto simp: front_def)
    with 2(3) show ?thesis by blast
  qed (use assms(10) in simp)
qed

end
