(* ===== verification/Evaluate.thy ===== *)
theory Evaluate
  imports Roundtrip
begin

text \<open>
  Evaluation of the abstract functions on concrete memories. \<open>message_in\<close> and \<open>write_check\<close> range
  over the whole address space; the functions here look at the addresses below a bound \<open>h\<close> only,
  give \<open>Panic\<close> when the bound is too small, and otherwise agree with them.
\<close>

section \<open>Areas below a bound\<close>

definition enough :: "nat \<Rightarrow> memory_layout \<Rightarrow> bool" where
  "enough h L \<longleftrightarrow> 16 \<le> h \<and> h \<le> 261120 \<and> unat (data_area_size L) \<le> length (usable_in L 16 h)"

lemma take_usable:
  assumes "enough h L"
  shows "take (unat (data_area_size L)) (usable_addrs L) = take (unat (data_area_size L)) (usable_in L 16 h)"
proof -
  have "16 \<le> h" "h \<le> space_end"
    using assms by (simp_all add: enough_def space_end_eq)
  then have "[16 ..< space_end] = [16 ..< h] @ [h ..< space_end]"
    by (metis upt_add_eq_append le_Suc_ex)
  then show ?thesis
    using assms by (simp add: usable_from_def enough_def del: upt_Suc)
qed

lemma in_reach_enough:
  assumes "enough h L" and "h \<le> 1024 * sectors"
  shows "in_reach sectors L"
proof -
  let ?n = "unat (data_area_size L)"
  note take = take_usable [OF assms(1)]
  have n: "?n \<le> length (usable_in L 16 h)"
    using assms(1) by (simp add: enough_def)
  have len: "?n \<le> length (usable_addrs L)"
    using arg_cong [OF take, of length] n by simp
  have "usable_addrs L ! (?n - 1) < 1024 * sectors" if "?n \<noteq> 0"
  proof -
    have "usable_addrs L ! (?n - 1) = take ?n (usable_addrs L) ! (?n - 1)"
      using that by simp
    also have "\<dots> = usable_in L 16 h ! (?n - 1)"
      using that by (simp add: take)
    also have "\<dots> \<in> set (usable_in L 16 h)"
      using that n by (intro nth_mem) simp
    finally show ?thesis
      using assms(2) by simp
  qed
  with len show ?thesis
    by (auto simp: in_reach_def Let_def)
qed

definition area_upto :: "nat \<Rightarrow> memory_layout \<Rightarrow> (nat \<Rightarrow> u8) \<Rightarrow> u8 list" where
  "area_upto h L m = map m (take (unat (data_area_size L)) (usable_in L 16 h))"

lemma area_upto_eq: "enough h L \<Longrightarrow> area_bytes L m = area_upto h L m"
  by (simp add: area_bytes_def area_upto_def take_usable take_map)

section \<open>Blocks and messages below a bound\<close>

definition tlvs_upto :: "nat \<Rightarrow> build \<Rightarrow> memory_layout \<Rightarrow> (nat \<Rightarrow> u8) \<Rightarrow> (type2_error, tlv list) res" where
  "tlvs_upto h B L m =
     (let bs = up_to_stop scanner_new (area_upto h L m) in
      if \<not> enough h L then Panic
      else if vec_fits (bytes_lib B) DATA_VEC_CAP (length bs)
      then parse_tlvs (bytes_lib B) (tlv_lib B) bs else Err type2_error.BufferFull)"

lemma tlvs_upto_eq: "enough h L \<Longrightarrow> tlvs_in B L m = tlvs_upto h B L m"
  by (simp add: tlvs_in_def scanned_area_def tlvs_upto_def area_upto_eq Let_def)

lemma tlvs_upto_no_Panic: "tlvs_upto h B L m \<noteq> Panic \<Longrightarrow> enough h L"
  by (auto simp: tlvs_upto_def Let_def split: if_splits)

definition blocks_upto :: "nat \<Rightarrow> build \<Rightarrow> capability_container \<Rightarrow> (nat \<Rightarrow> u8) \<Rightarrow> (type2_error, tlv list) res" where
  "blocks_upto h B cc m =
     res_bind (tlvs_upto h B (layout_of cc []) m) (\<lambda>ts.
     if \<not> enough h (layout_of cc ts) then Panic
     else if is_dynamic cc \<and> list_ex is_control ts
     then res_bind (tlvs_upto h B (layout_of cc ts) m) (\<lambda>us.
       if enough h (layout_of cc us) then Ok us else Panic)
     else Ok ts)"

lemma blocks_upto_eq:
  assumes "blocks_upto h B cc m \<noteq> Panic"
  shows "blocks_in B cc m = blocks_upto h B cc m"
    and "h \<le> 1024 * sectors \<Longrightarrow> passes_in_reach sectors B cc m"
    and "h \<le> 1024 * sectors \<Longrightarrow> blocks_in B cc m = Ok ts \<Longrightarrow> in_reach sectors (layout_of cc ts)"
proof -
  have e0: "enough h (layout_of cc [])"
    using assms tlvs_upto_no_Panic [of h B "layout_of cc []" m]
    by (cases "tlvs_upto h B (layout_of cc []) m = Panic") (simp_all add: blocks_upto_def)
  note t0 = tlvs_upto_eq [OF e0, of B m]
  have e1: "enough h (layout_of cc ts)" if "tlvs_in B (layout_of cc []) m = Ok ts" for ts
    using assms that by (auto simp: blocks_upto_def t0 split: if_splits)
  have e2: "enough h (layout_of cc us)"
    if "tlvs_in B (layout_of cc []) m = Ok ts" "is_dynamic cc" "list_ex is_control ts"
      "tlvs_in B (layout_of cc ts) m = Ok us" for ts us
    using assms that e1 [OF that(1)] tlvs_upto_eq [OF e1 [OF that(1)], of B m]
    by (auto simp: blocks_upto_def t0 split: if_splits)
  show eq: "blocks_in B cc m = blocks_upto h B cc m"
  proof (cases "tlvs_in B (layout_of cc []) m")
    case (Ok ts)
    note t1 = tlvs_upto_eq [OF e1 [OF Ok], of B m]
    show ?thesis
      using Ok e1 [OF Ok] e2 [OF Ok]
      by (cases "tlvs_in B (layout_of cc ts) m")
        (auto simp: blocks_in_def blocks_upto_def t0 [symmetric] t1 [symmetric])
  qed (simp_all add: blocks_in_def blocks_upto_def t0 [symmetric])
  show "passes_in_reach sectors B cc m" if "h \<le> 1024 * sectors"
    using that e0 e1 by (auto simp: passes_in_reach_def intro: in_reach_enough)
  show "in_reach sectors (layout_of cc ts)" if "h \<le> 1024 * sectors" "blocks_in B cc m = Ok ts"
    using that e1 e2 by (auto simp: blocks_in_def res_bind_Ok_iff intro: in_reach_enough split: if_splits)
qed

definition message_upto :: "nat \<Rightarrow> build \<Rightarrow> (nat \<Rightarrow> u8) \<Rightarrow> (type2_error, u8 list) res" where
  "message_upto h B m =
     res_bind (cc_in m) (\<lambda>cc.
     if \<not> is_valid cc then Err (InvalidMagic 0)
     else res_bind (blocks_upto h B cc m) (\<lambda>ts.
       Ok (case first_ndef ts of Some data \<Rightarrow> data | None \<Rightarrow> [])))"

lemma message_upto_eq: "message_upto h B m \<noteq> Panic \<Longrightarrow> message_in B m = message_upto h B m"
proof (cases "cc_in m")
  case (Ok cc)
  moreover assume "message_upto h B m \<noteq> Panic"
  moreover have "blocks_upto h B cc m \<noteq> Panic \<or> \<not> is_valid cc"
    using calculation by (auto simp: message_upto_def)
  ultimately show ?thesis
    using blocks_upto_eq(1) [of h B cc m] by (auto simp: message_in_def message_upto_def)
qed (simp_all add: message_in_def message_upto_def)

definition check_upto :: "nat \<Rightarrow> build \<Rightarrow> (nat \<Rightarrow> u8) \<Rightarrow> u8 list \<Rightarrow> (type2_error, write_plan) res" where
  "check_upto h B m data =
     res_bind (cc_in m) (\<lambda>cc.
     res_bind (blocks_upto h B cc m) (\<lambda>ts.
     if \<not> is_valid cc then Err (InvalidMagic 0)
     else if write_access cc \<noteq> Granted then Err ReadOnly
     else plan_write B cc ts data))"

lemma check_upto_Ok:
  assumes "check_upto h B m data = Ok p" and "h \<le> 1024 * sectors"
  shows "write_check B m data = Ok p" and "write_in_reach sectors B m"
proof -
  from assms obtain cc ts where ok: "cc_in m = Ok cc" "blocks_upto h B cc m = Ok ts"
    by (auto simp: check_upto_def res_bind_Ok_iff)
  then have "blocks_upto h B cc m \<noteq> Panic" by simp
  note eq = blocks_upto_eq [OF this]
  show "write_check B m data = Ok p"
    using assms(1) ok eq(1) by (auto simp: check_upto_def write_check_def split: if_splits)
  show "write_in_reach sectors B m"
    using eq(2,3) [OF assms(2)] ok by (auto simp: write_in_reach_def)
qed

text \<open>The addresses a message occupies.\<close>

definition addrs_upto :: "nat \<Rightarrow> write_plan \<Rightarrow> u8 list \<Rightarrow> nat list" where
  "addrs_upto h p data = take (length (ndef_bytes data)) (drop (wp_ndef_offset p) (usable_in (wp_layout p) 16 h))"

lemma place_take_data: "place m (take (length ds) as) ds = place m as ds"
  by (induction m as ds rule: place_induct) (simp_all del: fun_upd_apply)

lemma stored_upto_eq:
  assumes "enough h (wp_layout p)"
    and "wp_ndef_offset p + length (ndef_bytes data) \<le> unat (data_area_size (wp_layout p))"
  shows "stored m p data = place m (addrs_upto h p data) (ndef_bytes data)"
proof -
  let ?k = "length (ndef_bytes data)" and ?off = "wp_ndef_offset p" and ?n = "unat (data_area_size (wp_layout p))"
  have "take ?k (drop ?off (take ?n us)) = take ?k (drop ?off us)" for us :: "nat list"
    using assms(2) by (simp add: drop_take min_def)
  then have "place m (drop ?off (take ?n us)) (ndef_bytes data) = place m (take ?k (drop ?off us)) (ndef_bytes data)"
    for us
    using place_take_data [of m "ndef_bytes data" "drop ?off (take ?n us)"] by simp
  then show ?thesis
    by (simp add: stored_def addrs_upto_def message_addrs_def take_usable [OF assms(1)])
qed

section \<open>Tags whose blocks are the same in both passes\<close>

lemma blocks_upto_both:
  assumes "build_ok B" and "enough h (layout_of cc [])" and "enough h (layout_of cc ts)"
    and "\<exists>bs. area_upto h (layout_of cc []) m = bytes @ bs" and "\<exists>bs. area_upto h (layout_of cc ts) m = bytes @ bs"
    and "\<And>bs. up_to_stop scanner_new (bytes @ bs) = bytes"
    and "parse_tlvs (bytes_lib B) (tlv_lib B) bytes = Ok ts" and "length bytes \<le> DATA_VEC_CAP"
  shows "blocks_upto h B cc m = Ok ts"
proof -
  have "tlvs_upto h B (layout_of cc []) m = Ok ts" "tlvs_upto h B (layout_of cc ts) m = Ok ts"
    using assms by (auto simp: tlvs_upto_def vec_fits_le)
  then show ?thesis
    using assms(2,3) by (simp add: blocks_upto_def)
qed

text \<open>A message that fits is accepted and goes to the usable addresses below the bound.\<close>

lemma write_upto:
  fixes data :: "u8 list"
  assumes "build_ok B" and "cc_in m = Ok cc" and "is_valid cc" and "write_access cc = Granted"
    and "blocks_in B cc m = Ok ts" and "ndef_tlv_offset 0 ts = Some off"
    and "message_end off (length data) \<le> unat (cc_data_area_size cc)" and "length data \<le> 1000"
    and "enough h (layout_of cc ts)"
  shows "\<exists>p. write_check B m data = Ok p \<and> stored m p data =
    place m (take (length (ndef_bytes data)) (drop off (usable_in (layout_of cc ts) 16 h))) (ndef_bytes data)"
proof -
  let ?n = "unat (cc_data_area_size cc)"
  have size: "data_area_size (layout_of cc ts) = cc_data_area_size cc"
    by (simp add: layout_of_def)
  have "?n \<le> length (usable_addrs (layout_of cc ts))"
    using arg_cong [OF take_usable [OF assms(9)], of length] assms(9) by (simp add: enough_def size)
  moreover have "vec_fits (bytes_lib B) DATA_VEC_CAP (2 + l_field_size (length data) + length data)"
    using assms(8) by (intro vec_fits_le) (simp add: l_field_size_def DATA_VEC_CAP_def)
  ultimately obtain p where p: "write_check B m data = Ok p"
    using write_check_Ok_iff [OF assms(1,2,5), of data] assms(3,4,6,7,8) by auto
  obtain cc' us where "cc_in m = Ok cc'" "blocks_in B cc' m = Ok us" "wp_layout p = layout_of cc' us"
    "ndef_tlv_offset 0 us = Some (wp_ndef_offset p)"
    using write_check_Ok [OF assms(1) p] by metis
  then have plan: "wp_layout p = layout_of cc ts" "wp_ndef_offset p = off"
    using assms(2,5,6) by auto
  have "off + length (ndef_bytes data) \<le> ?n"
    using assms(7,8) by (simp add: ndef_bytes_def message_end_def length_l_bytes del: length_length_field)
  then have "stored m p data = place m (addrs_upto h p data) (ndef_bytes data)"
    using assms(9) by (intro stored_upto_eq) (simp_all add: plan size)
  with p show ?thesis
    by (auto simp: addrs_upto_def plan)
qed

section \<open>Rules for evaluation\<close>

lemmas eval_usable = usable_def is_skip_area_def la_contains_def ra_contains_def la_end_address_def
  ra_end_address_def la_lock_byte_count_def div_ceil_def saturating_add_def upt_rec_numeral

end
