(* ===== verification/Plain_Tags.thy ===== *)
theory Plain_Tags
  imports Evaluate
begin

text \<open>
  Tags without control TLVs. Their data area is the contiguous memory behind the Capability Container
  (default lock bytes lie behind it), so what is read and where a message goes can be said in terms of
  plain addresses. The locale \<open>plain_tag\<close> describes such a memory: canonical blocks, a message and a
  Terminator at the start of the data area, in one sector. The tags of the tests are instances.
\<close>

section \<open>Layouts without control TLVs\<close>

lemma plain_usable:
  assumes "filter is_control ts = []" and "16 \<le> a" and "a < 16 + unat (cc_data_area_size cc)"
  shows "usable (layout_of cc ts) a"
proof -
  have "unat (cc_data_area_size cc) < 65536" by simp
  then have "unat (of_nat a :: u32) = a"
    using assms(3) by (simp add: unat_of_nat del: u16_unat_lt)
  moreover have "a \<notin> default_lock_bytes cc"
    using assms(3) by (simp add: default_lock_bytes_def unat_data_area_size Let_def)
  moreover have "layout_of cc ts = layout_of cc []"
    using assms(1) by (intro layout_of_controls) simp
  ultimately show ?thesis
    using is_skip_area_layout_of [of "[]" cc "of_nat a"] by (simp add: usable_def skipped_bytes_def)
qed

lemma plain_area:
  fixes cc :: capability_container
  assumes "filter is_control ts = []"
  defines "n \<equiv> unat (cc_data_area_size cc)"
  shows "usable_in (layout_of cc ts) 16 (16 + n) = [16 ..< 16 + n]"
    and "enough (16 + n) (layout_of cc ts)"
    and "take n (usable_addrs (layout_of cc ts)) = [16 ..< 16 + n]"
    and "area_bytes (layout_of cc ts) m = map m [16 ..< 16 + n]"
    and "16 + n \<le> 1024 * sectors \<Longrightarrow> in_reach sectors (layout_of cc ts)"
    and "skips_no_data cc ts"
proof -
  have size: "data_area_size (layout_of cc us) = cc_data_area_size cc" for us
    by (simp add: layout_of_def)
  have n: "n \<le> 2040"
    using u8_unat_lt [of "size_field cc"] by (simp add: n_def unat_data_area_size del: u8_unat_lt)
  show us: "usable_in (layout_of cc ts) 16 (16 + n) = [16 ..< 16 + n]"
    using plain_usable [OF assms(1)] by (auto simp: filter_id_conv n_def)
  then show enough: "enough (16 + n) (layout_of cc ts)"
    using n by (simp add: enough_def size n_def [symmetric])
  show take: "take n (usable_addrs (layout_of cc ts)) = [16 ..< 16 + n]"
    using take_usable [OF enough] unfolding size n_def [symmetric] us by simp
  then show "area_bytes (layout_of cc ts) m = map m [16 ..< 16 + n]"
    by (simp add: area_bytes_def size n_def [symmetric] take_map)
  show "in_reach sectors (layout_of cc ts)" if "16 + n \<le> 1024 * sectors"
    using enough that by (rule in_reach_enough)
  have "layout_of cc ts = layout_of cc []"
    using assms(1) by (intro layout_of_controls) simp
  then show "skips_no_data cc ts"
    by (simp add: skips_no_data_def)
qed

text \<open>Bytes placed at consecutive addresses.\<close>

lemma place_upt:
  "place m [a ..< b] ds x = (if a \<le> x \<and> x < b \<and> x - a < length ds then ds ! (x - a) else m x)"
proof (induction ds arbitrary: a m)
  case (Cons d ds)
  show ?case
  proof (cases "a < b")
    case True
    have "x - a = Suc (x - Suc a)" if "Suc a \<le> x"
      using that by simp
    with True show ?thesis
      by (auto simp: upt_conv_Cons Cons.IH le_Suc_eq not_less_eq_eq)
  qed auto
qed simp

section \<open>Plain tags\<close>

locale plain_front =
  fixes m :: "nat \<Rightarrow> u8" and cc :: capability_container and pre :: "tlv list" and msg :: "u8 list"
  assumes cc_in_memory: "cc_in m = Ok cc" and valid: "is_valid cc"
    and blocks_plain: "list_all (\<lambda>t. tlv_wf t \<and> \<not> is_control t \<and> t \<noteq> Terminator \<and> ndef_data t = None) pre"
    and memory_front: "map m [16 ..< 16 + length (concat (map tlv_bytes pre) @ ndef_bytes msg)] =
      concat (map tlv_bytes pre) @ ndef_bytes msg"
    and front_fits: "length (concat (map tlv_bytes pre) @ ndef_bytes msg) \<le> unat (cc_data_area_size cc)"
    and few_blocks: "length pre \<le> 2"
    and front_short: "length (concat (map tlv_bytes pre) @ ndef_bytes msg) \<le> 1024"
begin

abbreviation blocks :: "tlv list" where
  "blocks \<equiv> pre @ [NdefMessage msg, Terminator]"

abbreviation front :: "u8 list" where
  "front \<equiv> concat (map tlv_bytes pre)"

lemma no_control: "filter is_control blocks = []"
  using blocks_plain by (auto simp: filter_empty_conv list_all_iff)

lemma front_parts:
  "length msg \<le> 1024" "t \<in> set pre \<Longrightarrow> length (tlv_bytes t) \<le> 1024"
proof -
  show "length msg \<le> 1024"
    using front_short by (simp add: ndef_bytes_def)
  assume "t \<in> set pre"
  then have "length (tlv_bytes t) \<le> length front"
    by (induction pre) auto
  then show "length (tlv_bytes t) \<le> 1024"
    using front_short by simp
qed

lemma values_fit: "\<forall>t \<in> set pre. value_fits bl (Some t)"
proof
  fix t
  assume "t \<in> set pre"
  from front_parts(2) [OF this] show "value_fits bl (Some t)"
    by (cases t) (auto simp: DATA_VEC_CAP_def intro!: vec_fits_le simp del: length_length_field)
qed

lemma area_plain:
  assumes "filter is_control ts = []"
  shows "\<exists>rest. area_bytes (layout_of cc ts) m = front @ ndef_bytes msg @ rest"
proof -
  let ?F = "front @ ndef_bytes msg" and ?n = "unat (cc_data_area_size cc)"
  have "[16 ..< 16 + ?n] = [16 ..< 16 + length ?F] @ [16 + length ?F ..< 16 + ?n]"
    using upt_add_eq_append [of 16 "16 + length ?F" "?n - length ?F"] front_fits by simp
  then show ?thesis
    using memory_front by (simp add: plain_area(4) [OF assms] del: upt_Suc length_append)
qed

lemma before_ndef_plain: "before_ndef blocks = pre"
  using blocks_plain by (simp add: before_ndef_def list_all_iff takeWhile_append)

lemma tlvs_in_plain:
  assumes "build_ok B"
  shows "filter is_control ts = [] \<Longrightarrow> tlvs_in B (layout_of cc ts) m = Ok blocks"
proof -
  assume "filter is_control ts = []"
  then obtain rest where "area_bytes (layout_of cc ts) m = front @ ndef_bytes msg @ rest"
    using area_plain by blast
  moreover have "\<forall>t \<in> set pre. tlv_wf t \<and> t \<noteq> Terminator"
    using blocks_plain by (simp add: list_all_iff)
  moreover note parse_up_to_message [OF build_okD(1,2) [OF assms] this _ values_fit, of msg]
  ultimately show ?thesis
    using front_short front_parts(1) few_blocks
    by (simp add: tlvs_in_def scanned_area_def Let_def vec_fits_le DATA_VEC_CAP_def TLV_VEC_CAP_def)
qed

text \<open>The conditions of the round trip.\<close>

lemma roundtrip_plain:
  "skips_no_data cc blocks" "canonical_front cc blocks m"
proof -
  show "skips_no_data cc blocks"
    by (rule plain_area(6) [OF no_control])
  show "canonical_front cc blocks m"
    using area_plain [OF no_control] no_control blocks_plain
    by (auto simp: canonical_front_def before_ndef_plain Let_def list_all_iff)
qed

lemma buffers_plain: "message_end (length front) k \<le> 1024 \<Longrightarrow> buffers_suffice B blocks k"
  using few_blocks
  by (simp add: buffers_suffice_def before_ndef_plain vec_fits_le DATA_VEC_CAP_def TLV_VEC_CAP_def)

lemma blocks_in_plain:
  assumes "build_ok B"
  shows "blocks_in B cc m = Ok blocks"
proof -
  have "\<not> list_ex is_control blocks"
    using no_control by (simp add: list_ex_iff filter_empty_conv)
  then show ?thesis
    using tlvs_in_plain [OF assms, of "[]"] by (simp add: blocks_in_def)
qed

lemma message_in_plain:
  assumes "build_ok B"
  shows "message_in B m = Ok msg"
proof -
  have "first_ndef blocks = Some msg"
    using before_ndef_first [of blocks msg "[Terminator]"] by (simp add: before_ndef_plain)
  then show ?thesis
    by (simp add: message_in_def cc_in_memory valid blocks_in_plain [OF assms])
qed

lemma write_in_reach_front:
  assumes "build_ok B" and "16 + unat (cc_data_area_size cc) \<le> 1024 * sectors"
  shows "write_in_reach sectors B m" and "passes_in_reach sectors B cc m"
proof -
  have "in_reach sectors (layout_of cc ts)" if "filter is_control ts = []" for ts
    by (rule plain_area(5) [OF that assms(2)])
  then show "passes_in_reach sectors B cc m" "write_in_reach sectors B m"
    using tlvs_in_plain [OF assms(1), of "[]"] no_control
    by (auto simp: write_in_reach_def passes_in_reach_def cc_in_memory blocks_in_plain [OF assms(1)])
qed

lemma offset_plain: "ndef_tlv_offset 0 blocks = Some (length front)"
proof -
  have "ndef_tlv_offset k (ts @ [NdefMessage msg, Terminator]) = Some (k + length (concat (map tlv_bytes ts)))"
    if "list_all (\<lambda>t. tlv_wf t \<and> t \<noteq> Terminator \<and> ndef_data t = None) ts" for k ts
    using that by (induction k ts rule: ndef_tlv_offset.induct)
      (auto simp: length_bytes3 u16_of_nat_less_255)
  then show ?thesis
    using blocks_plain by (simp add: list_all_iff)
qed

text \<open>The memory a write leaves.\<close>

lemma stored_plain:
  assumes "build_ok B" and "write_check B m data = Ok p"
  shows "stored m p data = place m [16 + length front ..< 16 + unat (cc_data_area_size cc)] (ndef_bytes data)"
proof -
  obtain cc' ts where "cc_in m = Ok cc'" "blocks_in B cc' m = Ok ts" "wp_layout p = layout_of cc' ts"
    "ndef_tlv_offset 0 ts = Some (wp_ndef_offset p)"
    using write_check_Ok [OF assms] by metis
  then have "wp_layout p = layout_of cc blocks" "wp_ndef_offset p = length front"
    using blocks_in_plain [OF assms(1)] offset_plain by (auto simp: cc_in_memory)
  then have "message_addrs (wp_layout p) (wp_ndef_offset p) =
      [16 + length front ..< 16 + unat (cc_data_area_size cc)]"
    using plain_area(3) [OF no_control, of cc] by (simp add: message_addrs_def layout_of_def)
  then show ?thesis
    by (simp add: stored_def)
qed

end

text \<open>A plain tag with one sector: its data area fits every buffer.\<close>

locale plain_tag = plain_front +
  assumes one_sector: "unat (cc_data_area_size cc) \<le> 1008"
begin

lemma write_in_reach_plain:
  assumes "build_ok B" and "0 < sectors"
  shows "write_in_reach sectors B m" and "passes_in_reach sectors B cc m"
  using write_in_reach_front [OF assms(1)] assms(2) one_sector by simp_all

text \<open>The decision of a write.\<close>

lemma write_check_plain:
  fixes data :: "u8 list"
  assumes "build_ok B" and "write_access cc = Granted"
  defines "req \<equiv> message_end (length front) (length data)" and "n \<equiv> unat (cc_data_area_size cc)"
  shows "length data \<le> 0xFFFE \<Longrightarrow> req \<le> n \<Longrightarrow> \<exists>p. write_check B m data = Ok p"
    and "0xFFFE < length data \<or> n < req \<Longrightarrow> write_check B m data = Err OutOfRange"
proof -
  note blocks = blocks_in_plain [OF assms(1)]
  note plan = plan_write_eq [OF assms(1) parsed_D(1,2) [OF assms(1) blocks_in_parsed [OF blocks]]]
  have "n \<le> length (usable_addrs (layout_of cc blocks))"
    using arg_cong [OF plain_area(3) [OF no_control, of cc], of length] by (simp add: n_def)
  then show "length data \<le> 0xFFFE \<Longrightarrow> req \<le> n \<Longrightarrow> \<exists>p. write_check B m data = Ok p"
    and "0xFFFE < length data \<or> n < req \<Longrightarrow> write_check B m data = Err OutOfRange"
    using one_sector
    by (auto simp: write_check_def cc_in_memory valid assms(2) blocks plan offset_plain req_def
        n_def message_end_def DATA_VEC_CAP_def intro!: vec_fits_le)
qed

end

end
