(* ===== verification/Samples.thy ===== *)
theory Samples
  imports Tags Plain_Tags "HOL-Library.Code_Target_Numeral"
begin

text \<open>
  Concrete tags from the tests of \<open>src/src/type2/reader.rs\<close>: what their memory says, evaluated.
\<close>

section \<open>Static tags\<close>

text \<open>A static tag without control TLVs: the data area is what follows the Capability Container.\<close>

lemma static_area:
  assumes "\<not> is_dynamic cc" and "filter is_control ts = []"
  shows "area_bytes (layout_of cc ts) m = map m [16 ..< 16 + unat (cc_data_area_size cc)]"
    and "0 < sectors \<Longrightarrow> in_reach sectors (layout_of cc ts)" and "skips_no_data cc ts"
proof -
  note plain = plain_area [OF assms(2), of cc]
  show "area_bytes (layout_of cc ts) m = map m [16 ..< 16 + unat (cc_data_area_size cc)]"
    and "skips_no_data cc ts"
    by (rule plain)+
  show "in_reach sectors (layout_of cc ts)" if "0 < sectors"
    by (rule plain(5)) (use that assms(1) in \<open>simp add: is_dynamic_iff\<close>)
qed

section \<open>An initialized static tag\<close>

abbreviation static_memory :: "nat \<Rightarrow> u8" where
  "static_memory \<equiv> memory (recording_setup 0x06 recording_new)"

definition static_cc :: capability_container where
  "static_cc = \<lparr>version_major = 1, version_minor = 0, size_field = 6,
     read_access = Granted, write_access = Granted\<rparr>"

lemma static_cc_in: "cc_in static_memory = Ok static_cc"
  by (simp add: cc_in_def recording_setup_def recording_new_def static_cc_def CC_MAGIC_def
      SUPPORTED_MAJOR_VERSION_def from_nibble_def)

lemma static_not_dynamic: "\<not> is_dynamic static_cc" "unat (cc_data_area_size static_cc) = 48"
  by (simp_all add: static_cc_def is_dynamic_def cc_data_area_size_def)

lemma static_valid: "is_valid static_cc" "write_access static_cc = Granted"
  by (simp_all add: static_cc_def is_valid_def SUPPORTED_MAJOR_VERSION_def)

text \<open>Whatever follows an empty message and a Terminator at the start of the data area.\<close>

lemma static_empty:
  assumes "m 16 = 0x03" and "m 17 = 0x00" and "m 18 = 0xFE"
  shows "tlvs_in heapless_build (layout_of static_cc []) m = Ok [NdefMessage [], Terminator]"
proof -
  have "[16 ..< 64] = [16, 17, 18] @ [19 ..< 64 :: nat]"
    by simp
  then have "area_bytes (layout_of static_cc []) m = ndef_bytes [] @ map m [19 ..< 64]"
    using assms by (simp add: static_area static_not_dynamic ndef_bytes_def length_field_def)
  moreover note parse_up_to_message [where bl = heapless_lib and tvl = heapless_lib and pre = "[]" and data = "[]"]
  ultimately show ?thesis
    by (simp add: tlvs_in_def scanned_area_def Let_def DATA_VEC_CAP_def TLV_VEC_CAP_def ndef_bytes_def)
qed

interpretation static: plain_tag static_memory static_cc "[]" "[]"
  by unfold_locales
    (simp_all add: static_cc_in static_valid static_not_dynamic, simp_all add: recording_setup_def
      ndef_bytes_def length_field_def upt_rec_numeral)

lemmas static_tlvs_in = static.tlvs_in_plain [OF builds_ok(1), of "[]", simplified]
lemmas static_blocks_in = static.blocks_in_plain [OF builds_ok(1), simplified]

lemma static_write_in_reach: "0 < sectors \<Longrightarrow> write_in_reach sectors heapless_build static_memory"
  by (simp add: static.write_in_reach_plain)

lemma static_accepts: "length data \<le> 45 \<Longrightarrow> \<exists>p. write_check heapless_build static_memory data = Ok p"
  by (rule static.write_check_plain(1))
    (simp_all add: static_valid static_not_dynamic message_end_def l_field_size_def)

lemma static_plain:
  "skips_no_data static_cc [NdefMessage [], Terminator]"
  "canonical_front static_cc [NdefMessage [], Terminator] static_memory"
  "n \<le> 45 \<Longrightarrow> buffers_suffice heapless_build [NdefMessage [], Terminator] n"
  using static.roundtrip_plain(1,2) static.buffers_plain by (simp_all add: message_end_def l_field_size_def)

text \<open>Fresh readers on that tag: through the test transceiver, and over a link that loses frames.\<close>

definition static_reader :: "recording_transceiver reader" where
  "static_reader = reader_new (recording_setup 0x06 recording_new)"

definition lossy_reader :: "fate list \<Rightarrow> lossy_tag reader" where
  "lossy_reader fs = reader_new \<lparr>tag_memory = static_memory, active_sector = 0, fates = fs\<rparr>"

lemma sample_readers [simp]:
  "memory (transceiver static_reader) = static_memory" "tag_in_step memory (\<lambda>_. 0) (Suc 0) static_reader"
  "tag_memory (transceiver (lossy_reader fs)) = static_memory"
  "tag_in_step tag_memory active_sector 255 (lossy_reader fs)"
  by (simp_all add: static_reader_def lossy_reader_def reader_new_in_step) (simp_all add: reader_new_def)

section \<open>A tag with a lock byte inside the data area\<close>

text \<open>The tag of the test \<open>write_ndef_preserves_lock_region_inside_value\<close>: lock byte at address 28.\<close>

definition lock_tag :: recording_transceiver where
  "lock_tag = recording_new\<lparr>memory := (memory recording_new)
     (12 := 0xE1, 13 := 0x10, 14 := 0x0C, 15 := 0x00, 16 := 0x01, 17 := 0x03, 18 := 0x70, 19 := 0x08,
      20 := 0x32, 21 := 0x03, 22 := 0x00, 23 := 0xFE, 28 := 0xA5)\<rparr>"

definition lock_cc :: capability_container where
  "lock_cc = \<lparr>version_major = 1, version_minor = 0, size_field = 12,
     read_access = Granted, write_access = Granted\<rparr>"

definition lock_blocks :: "tlv list" where
  "lock_blocks = [LockControl \<lparr>lc_page_addr = 7, lc_byte_offset = 0, lc_size_in_bits = 8,
     lc_bytes_per_page = 2, lc_bytes_locked_per_bit = 3\<rparr>, NdefMessage [], Terminator]"

lemma lock_cc_in: "cc_in (memory lock_tag) = Ok lock_cc"
  by (simp add: cc_in_def lock_tag_def lock_cc_def CC_MAGIC_def SUPPORTED_MAJOR_VERSION_def from_nibble_def)

lemma lock_layouts:
  "layout_of lock_cc [] = \<lparr>data_area_size = 96,
     lock_areas = [\<lparr>la_byte_address = 112, la_size_in_bits = 6, la_bytes_per_lock_bit = 8\<rparr>], reserved_areas = []\<rparr>"
  "layout_of lock_cc lock_blocks = \<lparr>data_area_size = 96,
     lock_areas = [\<lparr>la_byte_address = 28, la_size_in_bits = 8, la_bytes_per_lock_bit = 8\<rparr>], reserved_areas = []\<rparr>"
  by (simp_all add: layout_of_def lock_cc_def lock_blocks_def cc_data_area_size_def is_dynamic_def
      default_dynamic_lock_area_def lock_area_of_def div_ceil_def geometry saturating_sub_def
      page_address_def)

lemma lock_usable:
  "usable_in (layout_of lock_cc []) 16 114 = [16 ..< 112] @ [113]"
  "usable_in (layout_of lock_cc lock_blocks) 16 114 = [16 ..< 28] @ [29 ..< 114]"
  by (simp_all add: lock_layouts eval_usable)

lemma lock_enough: "enough 114 (layout_of lock_cc [])" "enough 114 (layout_of lock_cc lock_blocks)"
  unfolding enough_def unfolding lock_usable unfolding lock_layouts by simp_all

lemma lock_blocks_upto:
  assumes "build_ok B"
  shows "blocks_upto 114 B lock_cc (memory lock_tag) = Ok lock_blocks"
proof -
  let ?bytes = "[0x01, 0x03, 0x70, 0x08, 0x32, 0x03, 0x00, 0xFE] :: u8 list"
  have "\<exists>bs. area_upto 114 (layout_of lock_cc []) (memory lock_tag) = ?bytes @ bs"
    unfolding area_upto_def unfolding lock_usable unfolding lock_layouts by (simp add: lock_tag_def)
  moreover have "\<exists>bs. area_upto 114 (layout_of lock_cc lock_blocks) (memory lock_tag) = ?bytes @ bs"
    unfolding area_upto_def unfolding lock_usable unfolding lock_layouts by (simp add: lock_tag_def)
  moreover have "up_to_stop scanner_new (?bytes @ bs) = ?bytes" for bs
    by (simp add: up_to_stop_Cons scanner_new_def tlv_tags word_le_nat_alt)
  moreover have "parse_tlvs (bytes_lib B) (tlv_lib B) ?bytes = Ok lock_blocks"
    using build_okD(1,2) [OF assms] by (simp add: eval_blocks lock_blocks_def)
  ultimately show ?thesis
    by (rule blocks_upto_both [OF assms lock_enough]) (simp add: DATA_VEC_CAP_def)
qed

lemma lock_blocks_in:
  assumes "build_ok B"
  shows "blocks_in B lock_cc (memory lock_tag) = Ok lock_blocks" and "write_in_reach 1 B (memory lock_tag)"
  using blocks_upto_eq [of 114 B lock_cc "memory lock_tag"] lock_blocks_upto [OF assms]
  by (simp_all add: write_in_reach_def lock_cc_in)

lemma lock_valid:
  "is_valid lock_cc" "write_access lock_cc = Granted" "unat (cc_data_area_size lock_cc) = 96"
  by (simp_all add: lock_cc_def is_valid_def SUPPORTED_MAJOR_VERSION_def cc_data_area_size_def)

abbreviation lock_data :: "u8 list" where
  "lock_data \<equiv> [0x44, 0x44, 0x44, 0x44, 0x44, 0x44, 0x44, 0x44]"

text \<open>The test writes eight bytes, which are accepted and placed around the lock byte.\<close>

lemma lock_write:
  assumes "build_ok B"
  shows "\<exists>p. write_check B (memory lock_tag) lock_data = Ok p \<and>
     stored (memory lock_tag) p lock_data =
       place (memory lock_tag) [21, 22, 23, 24, 25, 26, 27, 29, 30, 31, 32]
         [0x03, 8, 0x44, 0x44, 0x44, 0x44, 0x44, 0x44, 0x44, 0x44, 0xFE]"
proof -
  have bytes: "ndef_bytes lock_data = [0x03, 8, 0x44, 0x44, 0x44, 0x44, 0x44, 0x44, 0x44, 0x44, 0xFE]"
    by (simp add: ndef_bytes_def length_field_def)
  have "ndef_tlv_offset 0 lock_blocks = Some 5" "message_end 5 (length lock_data) \<le> 96" "length lock_data \<le> 1000"
    by (simp_all add: lock_blocks_def message_end_def l_field_size_def)
  from write_upto [OF assms lock_cc_in lock_valid(1,2) lock_blocks_in(1) [OF assms] this(1) _ this(3) lock_enough(2)]
    this(2) show ?thesis
    unfolding bytes lock_usable lock_valid by simp
qed

text \<open>
  The memory the test leaves, read again: in the first pass the lock byte is taken for a value byte,
  the value ends one byte early and its last byte is taken for the tag of another TLV.
\<close>

lemma lock_message:
  assumes "write_check heapless_build (memory lock_tag) lock_data = Ok p"
  shows "message_in heapless_build (stored (memory lock_tag) p lock_data) = Err type2_error.InvalidTlv"
    and "passes_in_reach 1 heapless_build lock_cc (stored (memory lock_tag) p lock_data)"
proof -
  let ?m = "stored (memory lock_tag) p lock_data"
  let ?bytes = "[0x01, 0x03, 0x70, 0x08, 0x32, 0x03, 0x08, 0x44, 0x44, 0x44, 0x44, 0x44, 0xA5, 0x44, 0x44,
      0x44, 0xFE] :: u8 list"
  have m: "?m = place (memory lock_tag) [21, 22, 23, 24, 25, 26, 27, 29, 30, 31, 32]
         [0x03, 8, 0x44, 0x44, 0x44, 0x44, 0x44, 0x44, 0x44, 0x44, 0xFE]"
    using lock_write [OF builds_ok(1)] assms by auto
  have "\<exists>bs. area_upto 114 (layout_of lock_cc []) ?m = ?bytes @ bs \<and> length bs = 79"
    unfolding area_upto_def m unfolding lock_usable unfolding lock_layouts by (simp add: lock_tag_def)
  then obtain bs where bs: "area_upto 114 (layout_of lock_cc []) ?m = ?bytes @ bs" "length bs = 79" by blast
  have "up_to_stop (ValueState 254) bs = bs"
    using scan_value_short [of bs 254] bs(2) by (simp add: up_to_stop_def)
  then have "up_to_stop scanner_new (?bytes @ bs) = ?bytes @ bs"
    by (simp add: up_to_stop_Cons scanner_new_def tlv_tags word_le_nat_alt)
  moreover have "parse_tlvs heapless_lib heapless_lib (?bytes @ bs) = Err type2_error.InvalidTlv"
    using bs(2) by (simp add: eval_blocks)
  ultimately have "tlvs_upto 114 heapless_build (layout_of lock_cc []) ?m = Err type2_error.InvalidTlv"
    by (simp del: append.simps add: tlvs_upto_def bs lock_enough DATA_VEC_CAP_def)
  then have blocks: "blocks_upto 114 heapless_build lock_cc ?m = Err type2_error.InvalidTlv"
    by (simp add: blocks_upto_def)
  then show "message_in heapless_build ?m = Err type2_error.InvalidTlv"
    using blocks_upto_eq(1) [of 114 heapless_build lock_cc ?m]
    by (simp add: message_in_def cc_in_stored lock_cc_in lock_valid)
  show "passes_in_reach 1 heapless_build lock_cc ?m"
    using blocks_upto_eq(2) [of 114 heapless_build lock_cc ?m] blocks by simp
qed

section \<open>A tag with a TLV the standard reserves\<close>

text \<open>The empty message stands behind a TLV with the tag 0x04, which a parser has to skip.\<close>

definition reserved_tag :: recording_transceiver where
  "reserved_tag = recording_new\<lparr>memory := (memory recording_new)
     (12 := 0xE1, 13 := 0x10, 14 := 0x06, 15 := 0x00, 16 := 0x04, 17 := 0x02, 18 := 0xAA, 19 := 0xBB,
      20 := 0x03, 21 := 0x00, 22 := 0xFE)\<rparr>"

lemma reserved_cc_in: "cc_in (memory reserved_tag) = Ok static_cc"
  by (simp add: cc_in_def reserved_tag_def static_cc_def CC_MAGIC_def SUPPORTED_MAJOR_VERSION_def
      from_nibble_def)

lemma reserved_blocks_in:
  "tlvs_in heapless_build (layout_of static_cc []) (memory reserved_tag) = Ok [NdefMessage [], Terminator]"
  "blocks_in heapless_build static_cc (memory reserved_tag) = Ok [NdefMessage [], Terminator]"
proof -
  let ?bytes = "[0x04, 0x02, 0xAA, 0xBB, 0x03, 0x00, 0xFE] :: u8 list"
  have "\<exists>bs. area_bytes (layout_of static_cc []) (memory reserved_tag) = ?bytes @ bs"
    by (simp add: static_area static_not_dynamic reserved_tag_def)
  moreover have "up_to_stop scanner_new (?bytes @ bs) = ?bytes" for bs
    by (simp add: up_to_stop_Cons scanner_new_def tlv_tags word_le_nat_alt)
  moreover have "parse_tlvs heapless_lib heapless_lib ?bytes = Ok [NdefMessage [], Terminator]"
    by (simp add: eval_blocks)
  ultimately show tlvs: "tlvs_in heapless_build (layout_of static_cc []) (memory reserved_tag) = Ok [NdefMessage [], Terminator]"
    by (auto simp del: append.simps simp: tlvs_in_def scanned_area_def DATA_VEC_CAP_def)
  then show "blocks_in heapless_build static_cc (memory reserved_tag) = Ok [NdefMessage [], Terminator]"
    by (simp add: blocks_in_def static_not_dynamic)
qed

lemma reserved_write_in_reach: "write_in_reach 1 heapless_build (memory reserved_tag)"
  by (simp add: write_in_reach_def passes_in_reach_def reserved_cc_in reserved_blocks_in
      static_area static_not_dynamic)

text \<open>The message is placed at the start of the data area, over the reserved TLV.\<close>

lemma reserved_write:
  "\<exists>p. write_check heapless_build (memory reserved_tag) [0xD0] = Ok p \<and>
     stored (memory reserved_tag) p [0xD0] = place (memory reserved_tag) [16, 17, 18, 19] [0x03, 0x01, 0xD0, 0xFE]"
proof -
  let ?ts = "[NdefMessage [], Terminator]"
  have bytes: "ndef_bytes [0xD0] = [0x03, 0x01, 0xD0, 0xFE]"
    by (simp add: ndef_bytes_def length_field_def)
  have area: "usable_in (layout_of static_cc ?ts) 16 64 = [16 ..< 64]" "enough 64 (layout_of static_cc ?ts)"
    using plain_area(1,2) [of ?ts static_cc] by (simp_all add: static_not_dynamic)
  have "ndef_tlv_offset 0 ?ts = Some 0" "message_end 0 (length [0xD0 :: u8]) \<le> 48" "length [0xD0 :: u8] \<le> 1000"
    by (simp_all add: message_end_def l_field_size_def)
  from write_upto [OF builds_ok(1) reserved_cc_in static_valid reserved_blocks_in(2) this(1) _ this(3) area(2)]
    this(2) show ?thesis
    unfolding bytes area(1) static_not_dynamic(2) by simp
qed

section \<open>A write that is cut off\<close>

text \<open>
  A link on which the first WRITE is carried out but its answer is lost and the recovery fails: the
  tag is left with the first page of the new message.
\<close>

lemma torn_write:
  "case write_ndef lossy heapless_build [0xFE, 0xD0, 0x00] (lossy_reader [Served, Served, Unanswered, Missed]) of
     (Err e, r') \<Rightarrow> map (tag_memory (transceiver r')) [12 ..< 20] = [0xE1, 0x10, 0x06, 0x00, 0x03, 0x00, 0xFE, 0xD0]
   | _ \<Rightarrow> False"
  by code_simp

end
