(* ===== verification/Traffic.thy ===== *)
theory Traffic
  imports Samples
begin

text \<open>
  Which frames the procedures send. The locale \<open>read_traffic\<close> is about a transceiver of any kind and
  a property of its state that READ and SECTOR SELECT frames keep; reading the tag keeps it too. It
  is interpreted on the traced transceiver, where it says that reading sends no other frames, and on
  the transceiver of the tests that counts WRITEs.
\<close>

locale read_traffic =
  fixes T :: "('t, 'e) t2t_transceiver"
    and I :: "'t \<Rightarrow> bool"
  assumes read_keeps: "transceive T [0x30, b] t = (x, t') \<Longrightarrow> I t \<Longrightarrow> I t'"
    and select1_keeps: "transceive T [0xC2, 0xFF] t = (x, t') \<Longrightarrow> I t \<Longrightarrow> I t'"
    and select2_keeps: "transceive_no_response T [s, 0, 0, 0] t = (y, t') \<Longrightarrow> I t \<Longrightarrow> I t'"
begin

definition keeps :: "('t, 'e, 'a) rop \<Rightarrow> bool" where
  "keeps f \<longleftrightarrow> (\<forall>r. I (transceiver r) \<longrightarrow> I (transceiver (snd (f r))))"

lemma keepsD: "keeps f \<Longrightarrow> I (transceiver r) \<Longrightarrow> f r = (x, r') \<Longrightarrow> I (transceiver r')"
  unfolding keeps_def by (metis snd_conv)

lemma keeps_bind: "keeps f \<Longrightarrow> (\<And>x. keeps (g x)) \<Longrightarrow> keeps (op_bind f g)"
  unfolding keeps_def op_bind_def
  by (auto split: prod.splits res.splits)

lemma keeps_pure [simp]: "keeps (op_lift x)" "keeps (op_return y)" "keeps (op_fail e)"
  by (simp_all add: keeps_def op_lift_def op_return_def op_fail_def)

lemma keeps_if: "keeps f \<Longrightarrow> keeps g \<Longrightarrow> keeps (if b then f else g)"
  by simp

lemma invalidate_transceiver [simp]: "transceiver (invalidate_cache r) = transceiver r"
  by (simp add: invalidate_cache_def)

lemma force_sector_select_keeps:
  assumes "vec_lib_ok (bytes_lib B)"
  shows "keeps (force_sector_select T B s)"
  unfolding keeps_def force_sector_select_def call_transceive_def call_no_response_def
    command_to_bytes_wire [OF assms] wire.simps
  by (auto simp: Let_def split: prod.splits sum.splits res.splits answer.splits option.splits
      dest: select1_keeps select2_keeps)

lemma ensure_sector_keeps:
  assumes "vec_lib_ok (bytes_lib B)"
  shows "keeps (ensure_sector T B s)" "keeps (sector_select T B s)"
  using force_sector_select_keeps [OF assms, of s]
  by (auto simp: keeps_def ensure_sector_def sector_select_def)

lemma read_retry_keeps:
  assumes "vec_lib_ok (bytes_lib B)"
  shows "keeps (retry_loop T B i [0x30, b] k n e)"
proof (induction n arbitrary: k e)
  case 0
  show ?case
    by (auto simp: keeps_def retry_loop.simps report_last_err_def split: option.splits)
next
  case (Suc n)
  have recover: "keeps (retry_recover T B i k)"
    using keeps_bind [OF force_sector_select_keeps [OF assms] keeps_pure(2), of _ "\<lambda>_. True"]
    by (auto simp: keeps_def retry_recover_def split: sector_state.splits)
  show ?case
    unfolding keeps_def
  proof (intro allI impI)
    fix r :: "'t reader"
    assume "I (transceiver r)"
    moreover have "I (transceiver (snd (retry_loop T B i [0x30, b] k n e q)))" if "I (transceiver q)" for k e q
      using Suc.IH that by (simp add: keeps_def)
    ultimately show "I (transceiver (snd (retry_loop T B i [0x30, b] k (Suc n) e r)))"
      using keepsD [OF recover] by (auto simp: retry_loop.simps call_transceive_def report_last_err_def split: prod.splits res.splits bool.splits
          sum.splits option.splits dest: read_keeps)
  qed
qed

lemma read_block_keeps:
  assumes "vec_lib_ok (bytes_lib B)"
  shows "keeps (read_block T B b)"
proof -
  have "keeps (\<lambda>r. transceive_with_retry T B [0x30, b] r)"
    using keepsD [OF read_retry_keeps [OF assms]] unfolding keeps_def transceive_with_retry_def
    by (metis prod.collapse)
  note send = keepsD [OF this]
  show ?thesis
    unfolding keeps_def read_block_def command_to_bytes_wire [OF assms] wire.simps op_bind_def
    by (auto split: prod.splits res.splits answer.splits dest: send)
qed

lemma fetch_block_keeps:
  assumes "vec_lib_ok (bytes_lib B)"
  shows "keeps (fetch_block T B b)"
  using keeps_bind [OF read_block_keeps [OF assms] keeps_pure(1), of b "\<lambda>d. slice d 0 BLOCK_SIZE"]
  by (auto simp: keeps_def fetch_block_def Let_def split: option.splits)

lemma read_area_loop_keeps:
  assumes "vec_lib_ok (bytes_lib B)"
  shows "keeps (read_area_loop T B layout a acc)"
proof (induction a arbitrary: acc rule: addr_induct)
  case (1 a)
  show ?case
  proof (cases "address_to_sector_block a")
    case None
    then show ?thesis
      unfolding read_area_loop_op [of T B layout a acc] by simp
  next
    case (Some p)
    obtain sec block offset where p: "p = (sec, block, offset)" by (cases p)
    have a: "a < ADDRESS_SPACE_END"
      using address_to_sector_block_Some Some p by blast
    have "keeps (read_area_loop T B layout (a + of_nat BLOCK_SIZE) acc')" for acc'
      by (rule 1 [OF a]) (simp add: unat_add_4 [OF a])
    then have "keeps (scan_step x (\<lambda>acc'. read_area_loop T B layout (a + of_nat BLOCK_SIZE) acc'))" for x
      unfolding scan_step_def by (intro keeps_bind) (auto split: flow.splits)
    then show ?thesis
      unfolding read_area_loop_op [of T B layout a acc] Some p
      by (auto intro!: keeps_bind ensure_sector_keeps fetch_block_keeps assms)
  qed
qed

lemma read_keeps_all:
  assumes "vec_lib_ok (bytes_lib B)"
  shows "keeps (read_cc T B)" and "keeps (read_data_area T B layout)"
    and "keeps (read_data_area_with_layout T B cc)" and "keeps (read_ndef T B)"
proof -
  show cc: "keeps (read_cc T B)"
    unfolding read_cc_def by (intro keeps_bind ensure_sector_keeps read_block_keeps keeps_pure assms)
  show area: "keeps (read_data_area T B layout)" for layout
    unfolding read_data_area_def by (rule read_area_loop_keeps [OF assms])
  show with_layout: "keeps (read_data_area_with_layout T B cc)" for cc
    unfolding read_data_area_with_layout_def by (intro keeps_bind keeps_if keeps_pure area)
  have "keeps (case first_ndef ts of Some data \<Rightarrow> op_return data | None \<Rightarrow> op_return [])" for ts
    by (simp split: option.splits)
  then show "keeps (read_ndef T B)"
    unfolding read_ndef_def by (intro keeps_bind keeps_if keeps_pure cc with_layout)
qed

end

section \<open>Frames of a read\<close>

text \<open>A frame of READ or SECTOR SELECT.\<close>

fun read_frame :: "'e event \<Rightarrow> bool" where
  "read_frame (Sent cmd _) \<longleftrightarrow> (\<exists>b. cmd = [0x30, b]) \<or> cmd = [0xC2, 0xFF]"
| "read_frame (Sent_No_Response cmd _) \<longleftrightarrow> (\<exists>s. cmd = [s, 0, 0, 0])"

interpretation read_trace: read_traffic "traced T" "\<lambda>t. \<exists>es. snd t = lg @ es \<and> (\<forall>e \<in> set es. read_frame e)"
  for T lg
  by unfold_locales (auto simp: traced_def split: prod.splits)

text \<open>On the counting transceiver a read leaves everything as it was, the counter included.\<close>

interpretation read_recording: read_traffic recording "\<lambda>t. t = t0"
  for t0
  by unfold_locales (auto simp: recording_commands)

lemma recording_rejects:
  assumes "build_ok B" and "tag_in_step memory (\<lambda>_. 0) 1 r" and "write_in_reach 1 B (memory (transceiver r))"
    and "write_check B (memory (transceiver r)) data = Err e"
  shows "fst (write_ndef recording B data r) = Err (Protocol e) \<and>
    transceiver (snd (write_ndef recording B data r)) = transceiver r"
proof -
  have lib: "vec_lib_ok (bytes_lib B)"
    by (rule build_okD(1) [OF assms(1)])
  have "read_recording.keeps t0 (rec_tag.check_op B data)" for t0
    unfolding rec_tag.check_op_def
    by (intro read_recording.keeps_bind read_recording.keeps_if read_recording.keeps_pure
        read_recording.read_keeps_all lib)
  moreover have "fst (rec_tag.check_op B data r) = Err (Protocol e)"
    using rec_tag.computes_reliable [OF rec_tag.check_op_computes [OF assms(1,3)] refl assms(2) refl, of data]
    by (simp add: assms(4))
  ultimately show ?thesis
    unfolding rec_tag.write_ndef_check_op op_bind_def read_recording.keeps_def
    by (cases "rec_tag.check_op B data r") (auto, metis snd_conv)
qed

section \<open>Properties\<close>

text \<open>
  C28. Reading is read-only on the wire: with any transceiver, whatever it answers, \<open>read_ndef\<close> sends
  READ commands and the two packets of SECTOR SELECT and nothing else.
\<close>

theorem read_ndef_sends_no_write:
  assumes "vec_lib_ok (bytes_lib B)" and "read_ndef (traced T) B r = (x, r')"
  shows "\<exists>es. event_log r' = event_log r @ es \<and> (\<forall>e \<in> set es. read_frame e)"
  using read_trace.keepsD [OF read_trace.read_keeps_all(4) [OF assms(1)] _ assms(2)] by force

theorem read_ndef_sends_no_write_witness:
  "list_all read_frame
     (event_log (snd (read_ndef (traced recording) heapless_build (reader_new (recording_setup 6 recording_new, [])))))"
proof -
  obtain x r' where r': "read_ndef (traced recording) heapless_build (reader_new (recording_setup 6 recording_new, [])) = (x, r')"
    by fastforce
  from read_ndef_sends_no_write [OF _ this] r' show ?thesis
    by (auto simp: reader_new_def list_all_iff)
qed

text \<open>
  C29. A message that is rejected costs no WRITE: the counting transceiver of the tests, its memory and
  its number of WRITEs, is exactly as before.
\<close>

theorem rejected_write_sends_no_write:
  assumes "build_ok B" and "tag_in_step memory (\<lambda>_. 0) 1 r" and "write_in_reach 1 B (memory (transceiver r))"
    and "write_check B (memory (transceiver r)) data = Err e"
  shows "fst (write_ndef recording B data r) = Err (Protocol e) \<and>
    transceiver (snd (write_ndef recording B data r)) = transceiver r"
  using assms by (rule recording_rejects)

theorem rejected_write_sends_no_write_witness:
  "writes (transceiver (snd (write_ndef recording heapless_build (replicate 46 0xAA) static_reader))) = 0"
proof -
  have "plan_write heapless_build static_cc [NdefMessage [], Terminator] (replicate 46 0xAA) = Err OutOfRange"
    by (simp add: plan_write_eq message_end_def l_field_size_def static_not_dynamic)
  then have "write_check heapless_build static_memory (replicate 46 0xAA) = Err OutOfRange"
    by (simp add: write_check_def static_cc_in static_valid static_blocks_in)
  moreover have "writes (transceiver static_reader) = 0"
    by (simp add: static_reader_def reader_new_def recording_setup_def recording_new_def)
  ultimately show ?thesis
    using rejected_write_sends_no_write [OF builds_ok(1), of static_reader "replicate 46 0xAA" OutOfRange]
      static_write_in_reach [of 1] by simp
qed

end
