(* ===== verification/Sessions.thy ===== *)
theory Sessions
  imports Traffic
begin

text \<open>
  A reader in use: the calls of its public operations, in any order, as a step relation on readers,
  whatever the calls return. The invariant of all reachable readers is that they agree with the tag:
  the sector they believe selected is the selected one, and their read cache is what the tag holds
  in its active sector, also when the reader does not know which one that is.
\<close>

section \<open>Agreement with the tag\<close>

text \<open>
  Unlike \<open>tag_in_step\<close> this allows a cached block while the sector is unknown: \<open>read\<close> does not select
  a sector by itself, and caches what the tag's active sector shows.
\<close>

definition tag_in_touch :: "('t \<Rightarrow> nat \<Rightarrow> u8) \<Rightarrow> ('t \<Rightarrow> u8) \<Rightarrow> nat \<Rightarrow> 't reader \<Rightarrow> bool" where
  "tag_in_touch mem active sectors r \<longleftrightarrow> reader_wf r \<and> tag_cache_ok mem active r \<and>
     (\<forall>s. sector r = Known s \<longrightarrow> active (transceiver r) = s \<and> unat s < sectors) \<and>
     (cache_block r \<noteq> None \<longrightarrow> unat (active (transceiver r)) < sectors)"

lemma in_step_in_touch: "tag_in_step mem active sectors r \<Longrightarrow> tag_in_touch mem active sectors r"
  by (cases "sector r") (auto simp: tag_in_step_def tag_in_touch_def)

lemma in_touch_in_step:
  assumes "tag_in_touch mem active sectors r"
  shows "sector r = Known s \<Longrightarrow> tag_in_step mem active sectors r"
    and "sector r = Unknown \<Longrightarrow> tag_in_step mem active sectors (invalidate_cache r)"
    and "sector r = Unknown \<Longrightarrow> unat (active (transceiver r)) < sectors \<Longrightarrow> sectors \<le> 255 \<Longrightarrow>
      tag_in_step mem active sectors (r\<lparr>sector := Known (active (transceiver r)), max_retries := n\<rparr>)"
  using assms
  by (auto simp: tag_in_step_def tag_in_touch_def tag_cache_ok_def invalidate_cache_def reader_wf_def)

lemma in_touch_unknown:
  assumes "tag_in_step mem active sectors r"
  shows "tag_in_touch mem active sectors (r\<lparr>sector := Unknown, max_retries := n\<rparr>)"
  using assms
  by (cases "sector r") (auto simp: tag_in_step_def tag_in_touch_def tag_cache_ok_def reader_wf_def)

section \<open>Commands with an unknown sector\<close>

text \<open>
  With an unknown sector a command is sent once, and all else is as in the sector that is active.
\<close>

definition as_known :: "u8 \<Rightarrow> 't reader \<Rightarrow> 't reader" where
  "as_known s r = r\<lparr>sector := Known s, max_retries := 0\<rparr>"

definition as_unknown :: "u8 \<Rightarrow> ('e, 'a) res \<times> 't reader \<Rightarrow> ('e, 'a) res \<times> 't reader" where
  "as_unknown n y = (fst y, (snd y)\<lparr>sector := Unknown, max_retries := n\<rparr>)"

lemma transceive_unknown:
  assumes "sector r = Unknown"
  shows "transceive_with_retry T B cmd r =
    as_unknown (max_retries r) (transceive_with_retry T B cmd (as_known s r))"
  using assms
  by (cases "unat (max_retries r)")
    (auto simp: transceive_with_retry_eq retry_send_def call_transceive_def retry_loop_again as_known_def
      as_unknown_def invalidate_cache_def split: prod.splits sum.splits)

lemma block_commands_unknown:
  assumes "sector r = Unknown"
  shows "read_block T B b r = as_unknown (max_retries r) (read_block T B b (as_known s r))"
    and "write_block T B b d r = as_unknown (max_retries r) (write_block T B b d (as_known s r))"
  unfolding read_block_def write_block_def op_bind_def transceive_unknown [OF assms, of T B _ s]
  using assms
  by (auto simp: as_unknown_def as_known_def invalidate_cache_def Let_def split: prod.splits res.splits answer.splits)

text \<open>Operations that select their sector first drop the cache when the sector is unknown.\<close>

lemma select_unknown:
  assumes "sector r = Unknown" and "s \<le> MAX_SECTOR"
  shows "sector_select T B s r = sector_select T B s (invalidate_cache r)"
    and "ensure_sector T B s r = ensure_sector T B s (invalidate_cache r)"
  using assms leD [OF assms(2)]
  by (simp_all add: sector_select_def ensure_sector_def force_sector_select_def invalidate_cache_def Let_def)

lemma op_bind_at: "m r = m r' \<Longrightarrow> op_bind m f r = op_bind m f r'"
  by (simp add: op_bind_def)

lemma procedures_unknown:
  assumes "sector r = Unknown"
  shows "read_cc T B r = read_cc T B (invalidate_cache r)"
    and "read_ndef T B r = read_ndef T B (invalidate_cache r)"
    and "write_ndef T B data r = write_ndef T B data (invalidate_cache r)"
    and "read_data_area T B layout r = read_data_area T B layout (invalidate_cache r) \<or>
      snd (read_data_area T B layout r) = r"
proof -
  show cc: "read_cc T B r = read_cc T B (invalidate_cache r)"
    unfolding read_cc_def by (intro op_bind_at select_unknown assms) (simp add: MAX_SECTOR_def)
  then show "read_ndef T B r = read_ndef T B (invalidate_cache r)"
    "write_ndef T B data r = write_ndef T B data (invalidate_cache r)"
    unfolding read_ndef_def write_ndef_def by (auto intro: op_bind_at)
  have first: "address_to_sector_block data_start_addr = Some (0, 4, 0)"
    by (simp add: data_start_addr_def address_to_sector_block_def geometry Let_def)
  have "ensure_sector T B 0 r = ensure_sector T B 0 (invalidate_cache r)"
    by (intro select_unknown assms) (simp add: MAX_SECTOR_def)
  then show "read_data_area T B layout r = read_data_area T B layout (invalidate_cache r) \<or>
      snd (read_data_area T B layout r) = r"
    unfolding read_data_area_def read_area_loop_op [of T B layout data_start_addr] first
    by (auto simp: op_return_def intro!: op_bind_at)
qed

section \<open>Steps\<close>

text \<open>
  The conditions on a step: only sectors that the tag has are selected (the reserved one is refused
  by the reader), a block command reaches a tag in one of its sectors, and the data area lies in the
  tag. A custom command on the transceiver, or one sent with retries, is followed by what the code
  asks for: \<open>invalidate_cache\<close> when it may have written, \<open>mark_tag_state_unknown\<close> when nothing is known
  about its outcome. A command with retries that was answered has left the sector selected.
\<close>

definition keeps_sector :: "('t, 'e) t2t_transceiver \<Rightarrow> ('t \<Rightarrow> u8) \<Rightarrow> u8 list \<Rightarrow> bool" where
  "keeps_sector T active cmd \<longleftrightarrow>
     (\<forall>t raw t'. transceive T cmd t = (Inr raw, t') \<longrightarrow> active t' = active t)"

definition keeps_memory :: "('t, 'e) t2t_transceiver \<Rightarrow> ('t \<Rightarrow> nat \<Rightarrow> u8) \<Rightarrow> u8 list \<Rightarrow> bool" where
  "keeps_memory T mem cmd \<longleftrightarrow> (\<forall>t x t'. transceive T cmd t = (x, t') \<longrightarrow> mem t' = mem t)"

inductive reader_step :: "('t, 'e) t2t_transceiver \<Rightarrow> build \<Rightarrow> ('t \<Rightarrow> nat \<Rightarrow> u8) \<Rightarrow> ('t \<Rightarrow> u8) \<Rightarrow>
    nat \<Rightarrow> 't reader \<Rightarrow> 't reader \<Rightarrow> bool"
  for T :: "('t, 'e) t2t_transceiver" and B mem active sectors where
  select_step: "unat s < sectors \<or> s = 255 \<Longrightarrow>
    reader_step T B mem active sectors r (snd (sector_select T B s r))"
| read_step: "unat (active (transceiver r)) < sectors \<Longrightarrow>
    reader_step T B mem active sectors r (snd (read_block T B b r))"
| write_step: "unat (active (transceiver r)) < sectors \<Longrightarrow>
    reader_step T B mem active sectors r (snd (write_block T B b d r))"
| retries_step: "reader_step T B mem active sectors r (set_max_retries n r)"
| invalidate_step: "reader_step T B mem active sectors r (invalidate_cache r)"
| unknown_step: "reader_step T B mem active sectors r (mark_tag_state_unknown r)"
| custom_write_step: "active (snd ((f :: 't \<Rightarrow> unit \<times> 't) (transceiver r))) = active (transceiver r) \<Longrightarrow>
    reader_step T B mem active sectors r (invalidate_cache (snd (with_transceiver f r)))"
| custom_step: "reader_step T B mem active sectors r (mark_tag_state_unknown (snd (with_transceiver (f :: 't \<Rightarrow> unit \<times> 't) r)))"
| frame_read_step: "keeps_sector T active cmd \<Longrightarrow> keeps_memory T mem cmd \<Longrightarrow>
    reader_step T B mem active sectors r (snd (transceive_with_retry T B cmd r))"
| frame_write_step: "keeps_sector T active cmd \<Longrightarrow>
    reader_step T B mem active sectors r (invalidate_cache (snd (transceive_with_retry T B cmd r)))"
| frame_step: "reader_step T B mem active sectors r (mark_tag_state_unknown (snd (transceive_with_retry T B cmd r)))"
| cc_step: "reader_step T B mem active sectors r (snd (read_cc T B r))"
| area_step: "in_reach sectors layout \<Longrightarrow> reader_step T B mem active sectors r (snd (read_data_area T B layout r))"
| read_ndef_step: "(\<forall>cc. cc_in (mem (transceiver r)) = Ok cc \<longrightarrow> passes_in_reach sectors B cc (mem (transceiver r))) \<Longrightarrow>
    reader_step T B mem active sectors r (snd (read_ndef T B r))"
| write_ndef_step: "write_in_reach sectors B (mem (transceiver r)) \<Longrightarrow>
    reader_step T B mem active sectors r (snd (write_ndef T B data r))"

context t2t_tag
begin

abbreviation in_touch :: "'t reader \<Rightarrow> bool" where
  "in_touch \<equiv> tag_in_touch mem active sectors"

lemmas in_touch_def = tag_in_touch_def [of mem active sectors]

lemma triple_snd:
  assumes "triple P f Q E" and "P r" and "\<And>x r'. Q x r' \<Longrightarrow> R r'" and "\<And>e r'. E e r' \<Longrightarrow> R r'"
  shows "R (snd (f r))"
  using assms(1,2) by (cases rule: triple_cases) (auto intro: assms(3,4))

text \<open>The block commands, in the active sector, known or not.\<close>

lemma block_command_at:
  assumes "in_touch r" and "active (transceiver r) = s" and "unat s < sectors"
    and "triple (at s (memory_of r)) f Q (failed M)" and "\<And>x q. Q x q \<Longrightarrow> in_step q"
    and "sector r = Unknown \<Longrightarrow> f r = as_unknown (max_retries r) (f (as_known s r))"
  obtains x q q' where "f r = (Ok x, q')" "Q x q" "in_touch q'" "cache_block q' = cache_block q" "memory_of q' = memory_of q"
  | e q' where "f r = (Err e, q')" "e \<in> faults" "in_touch q'" "memory_of q' \<in> M"
proof (cases "sector r")
  case (Known s')
  then have "at s (memory_of r) r"
    using assms(1,2) in_touch_in_step(1) [OF assms(1)] by (auto simp: at_def in_touch_def)
  from assms(4) this show thesis
  proof (cases rule: triple_cases)
    case (1 x q)
    from that(1) [OF 1 in_step_in_touch [OF assms(5) [OF 1(2)]]] show thesis by simp
  next
    case (2 e q)
    from 2(2) show thesis
      by (intro that(2) [OF 2(1)]) (auto simp: failed_def intro: in_step_in_touch)
  qed
next
  case Unknown
  have "in_step (as_known s r)"
    unfolding as_known_def assms(2) [symmetric]
    by (rule in_touch_in_step(3) [OF assms(1) Unknown]) (use assms(2,3) sectors_bound in auto)
  then have at: "at s (memory_of r) (as_known s r)"
    by (simp add: at_def as_known_def)
  note eq = assms(6) [OF Unknown]
  from assms(4) at show thesis
  proof (cases rule: triple_cases)
    case (1 x q)
    then show thesis
      using that(1) [of x "q\<lparr>sector := Unknown, max_retries := max_retries r\<rparr>" q] assms(5)
      by (simp add: eq as_unknown_def in_touch_unknown)
  next
    case (2 e q)
    then show thesis
      using that(2) [of e "q\<lparr>sector := Unknown, max_retries := max_retries r\<rparr>"]
      by (simp add: eq as_unknown_def in_touch_unknown failed_def)
  qed
qed

lemma read_block_in_touch:
  assumes "build_ok B" and "in_touch r" and "active (transceiver r) = s" and "unat s < sectors"
  obtains d q where "read_block T B b r = (Ok d, q)" "in_touch q" "memory_of q = memory_of r" "shows_block (memory_of r) s b d"
  | e q where "read_block T B b r = (Err e, q)" "in_touch q" "e \<in> faults" "memory_of q = memory_of r"
  by (rule block_command_at [OF assms(2-4) read_block_at [OF build_okD(1) [OF assms(1)]]])
    (use that block_commands_unknown(1) in \<open>auto simp: at_def\<close>)

lemma write_block_in_touch:
  fixes r :: "'t reader" and b :: u8 and d :: bytes4
  assumes "build_ok B" and "in_touch r" and "active (transceiver r) = s" and "unat s < sectors"
  defines "m' \<equiv> upd_block (memory_of r) (block_addr s b) d"
  obtains q where "write_block T B b d r = (Ok (), q)" "in_touch q" "memory_of q = m'"
  | e q where "write_block T B b d r = (Err e, q)" "in_touch q" "e \<in> faults" "memory_of q \<in> {memory_of r, m'}"
  by (rule block_command_at [OF assms(2-4) write_block_at [OF build_okD(1) [OF assms(1)], of s "memory_of r" b d]])
    (use that block_commands_unknown(2) [where d = d] in \<open>auto simp: at_def m'_def simp del: upd_block.simps split_paired_All\<close>)

end

text \<open>
  Custom commands with retries. For them nothing is said about errors, so any error may be a fault.
\<close>

lemma t2t_tag_any_fault:
  assumes "t2t_tag T mem active sectors faults"
  shows "t2t_tag T mem active sectors UNIV"
proof (unfold_locales, goal_cases)
  case 1
  show ?case by (rule t2t_tag.sectors_bound [OF assms])
next
  case (2 b t x t')
  from t2t_tag.read_law [OF assms 2] show ?case by (auto split: sum.splits if_splits)
next
  case (3 b d t x t')
  from t2t_tag.write_law [OF assms 3] show ?case
    by (auto split: sum.splits res.splits answer.splits simp del: upd_block.simps)
next
  case (4 t x t')
  from t2t_tag.select1_law [OF assms 4] show ?case by (auto split: sum.splits res.splits answer.splits)
next
  case (5 t raw t1 s y t2)
  from t2t_tag.select2_law [OF assms 5] show ?case by (auto split: sum.splits option.splits)
qed

context t2t_tag
begin

lemma frame_in_touch:
  assumes "build_ok B" and "in_touch r" and "keeps_sector T active cmd"
  shows "in_touch (invalidate_cache (snd (transceive_with_retry T B cmd r)))"
    and "keeps_memory T mem cmd \<Longrightarrow> in_touch (snd (transceive_with_retry T B cmd r))"
proof -
  define M where "M = (if keeps_memory T mem cmd then {memory_of r} else UNIV)"
  have law: "mem t' \<in> M \<and> (case x of Inl e \<Rightarrow> Transceiver e \<in> UNIV | Inr raw \<Rightarrow> active t' = active t \<and> True)"
    if "transceive T cmd t = (x, t')" "mem t \<in> M" for t x t'
    using that assms(3) by (auto simp: M_def keeps_sector_def keeps_memory_def split: sum.splits if_splits)
  have m: "memory_of r \<in> M"
    by (simp add: M_def)
  obtain x q where q: "transceive_with_retry T B cmd r = (x, q)" by fastforce
  have "in_step q \<or> reader_wf q \<and> (cache_block q = None \<or> cache_block q = cache_block r \<and>
      cache_data q = cache_data r \<and> active (transceiver q) = active (transceiver r) \<and> memory_of q \<in> M) \<and>
    (\<forall>s. sector q = Known s \<longrightarrow> active (transceiver q) = s \<and> unat s < sectors)"
  proof (cases "sector r")
    case (Known s)
    then have s: "active (transceiver r) = s" "unat s < sectors" "reader_wf r"
      using assms(2) by (simp_all add: in_touch_def)
    have pre: "reader_wf r \<and> sector r = Known s \<and> active (transceiver r) = s \<and> memory_of r \<in> M \<and>
      (cache_block r = None \<or> cache_block r = cache_block r \<and> cache_data r = cache_data r)"
      using s Known m by simp
    have "triple
      (\<lambda>q. reader_wf q \<and> sector q = Known s \<and> active (transceiver q) = s \<and> memory_of q \<in> M \<and>
         (cache_block q = None \<or> cache_block q = cache_block r \<and> cache_data q = cache_data r))
      (retry_send T B (Known s) cmd 0 (unat (max_retries r)))
      (\<lambda>raw q. reader_wf q \<and> sector q = Known s \<and> active (transceiver q) = s \<and> memory_of q \<in> M \<and>
         (cache_block q = None \<or> cache_block q = cache_block r \<and> cache_data q = cache_data r) \<and> True)
      (t2t_tag.failed mem active sectors UNIV M)"
      by (rule t2t_tag.retry_send_at [OF t2t_tag_any_fault [OF t2t_tag_axioms] build_okD(1) [OF assms(1)] s(2)])
        (use law in blast)
    from this pre show ?thesis
      by (cases rule: triple_cases)
        (use q s Known in \<open>auto simp: transceive_with_retry_eq
          t2t_tag.failed_def [OF t2t_tag_any_fault [OF t2t_tag_axioms]]\<close>)
  next
    case Unknown
    obtain y t where t: "transceive T cmd (transceiver r) = (y, t)" by fastforce
    from law [OF t m] t Unknown assms(2) q show ?thesis
      by (cases "unat (max_retries r)")
        (auto simp: transceive_with_retry_eq retry_send_def call_transceive_def retry_loop_again
          invalidate_cache_def in_touch_def reader_wf_def split: sum.splits)
  qed
  note after = this
  show "in_touch (invalidate_cache (snd (transceive_with_retry T B cmd r)))"
    using after by (auto simp: q in_touch_def in_step_def cache_ok_def invalidate_cache_def reader_wf_def)
  show "in_touch (snd (transceive_with_retry T B cmd r))" if "keeps_memory T mem cmd"
    using after
  proof
    assume "in_step q"
    then show ?thesis by (simp add: q in_step_in_touch)
  qed (use that assms(2) in \<open>auto simp: q in_touch_def cache_ok_def M_def\<close>)
qed

lemma procedure_in_touch:
  assumes "in_touch r" and "triple (\<lambda>q. in_step q \<and> memory_of q = memory_of r) f Q E"
    and "\<And>x q. Q x q \<Longrightarrow> in_step q" and "\<And>e q. E e q \<Longrightarrow> in_step q"
    and "sector r = Unknown \<Longrightarrow> f r = f (invalidate_cache r) \<or> snd (f r) = r"
  shows "in_touch (snd (f r))"
proof (cases "sector r")
  case (Known s)
  with triple_snd [OF assms(2), of r in_step] assms(1,3,4) in_touch_in_step(1) show ?thesis
    by (intro in_step_in_touch) blast
next
  case Unknown
  have "in_step (snd (f (invalidate_cache r)))"
    by (rule triple_snd [OF assms(2)]) (use in_touch_in_step(2) [OF assms(1) Unknown] assms(3,4) in simp_all)
  then show ?thesis
    using assms(5) [OF Unknown] assms(1) in_step_in_touch by auto
qed

lemma reader_step_in_touch:
  assumes "build_ok B" and "reader_step T B mem active sectors r r'" and "in_touch r"
  shows "in_touch r'"
  using assms(2)
proof cases
  case (select_step s)
  note lib = build_okD(1) [OF assms(1)]
  show ?thesis
  proof (cases "s = 255")
    case True
    with assms(3) show ?thesis by (simp add: select_step(1) sector_select_def MAX_SECTOR_def)
  next
    case False
    then have s: "unat s < sectors" using select_step(2) by simp
    show ?thesis
      unfolding select_step(1) sector_select_ensure [OF sector_le_MAX [OF s]]
      by (rule procedure_in_touch [OF assms(3) triple_pre [OF ensure_sector_at [OF lib s, of "memory_of r" "\<lambda>_. True"]]])
        (auto simp: at_def failed_def intro: select_unknown(2) sector_le_MAX [OF s])
  qed
next
  case (read_step b)
  show ?thesis
    by (rule read_block_in_touch [OF assms(1,3) refl read_step(2), of b]) (simp_all add: read_step(1))
next
  case (write_step b d)
  show ?thesis
    by (rule write_block_in_touch [OF assms(1,3) refl write_step(2), of b d]) (simp_all add: write_step(1))
next
  case (frame_read_step cmd)
  then show ?thesis using frame_in_touch(2) [OF assms(1,3)] by simp
next
  case (frame_write_step cmd)
  then show ?thesis using frame_in_touch(1) [OF assms(1,3)] by simp
next
  case (frame_step cmd)
  obtain x q where q: "transceive_with_retry T B cmd r = (x, q)" by fastforce
  have "reader_wf r" using assms(3) by (simp add: in_touch_def)
  then have "reader_wf q"
    using wf_opD [OF transceive_with_retry_wf, OF _ \<open>reader_wf r\<close>] q by (cases x) blast+
  then show ?thesis
    by (simp add: frame_step q mark_tag_state_unknown_def invalidate_cache_def in_touch_def cache_ok_def reader_wf_def)
next
  case cc_step
  show ?thesis
    unfolding cc_step
    by (rule procedure_in_touch [OF assms(3) read_cc_computes [OF build_okD(1) [OF assms(1)], unfolded computes_def]])
      (auto intro: procedures_unknown)
next
  case (area_step layout)
  show ?thesis
    unfolding area_step(1)
    by (rule procedure_in_touch [OF assms(3) read_data_area_computes [OF build_okD(1) [OF assms(1)] area_step(2),
          unfolded computes_def]]) (use procedures_unknown(4) in blast)+
next
  case read_ndef_step
  have "\<And>cc. cc_in (memory_of r) = Ok cc \<Longrightarrow> passes_in_reach sectors B cc (memory_of r)"
    using read_ndef_step(2) by blast
  then show ?thesis
    unfolding read_ndef_step(1)
    by (rule procedure_in_touch [OF assms(3) read_ndef_computes [OF assms(1), unfolded computes_def]])
      (auto intro: procedures_unknown)
next
  case (write_ndef_step data)
  show ?thesis
    unfolding write_ndef_step(1)
    by (rule procedure_in_touch [OF assms(3) write_ndef_at [OF assms(1) write_ndef_step(2)]])
      (auto intro: procedures_unknown)
qed (use assms(3) in \<open>auto simp: set_max_retries_def with_transceiver_def mark_tag_state_unknown_def
    invalidate_cache_def in_touch_def cache_ok_def reader_wf_def split: prod.splits\<close>)

lemma session_in_touch:
  assumes "build_ok B" and "rtranclp (reader_step T B mem active sectors) r r'" and "in_touch r"
  shows "in_touch r'"
  using assms(2) by induction (use assms(1,3) reader_step_in_touch in blast)+

lemma new_session_in_touch:
  assumes "build_ok B" and "active t = 0" and "rtranclp (reader_step T B mem active sectors) (reader_new t) r"
  shows "in_touch r"
proof (rule session_in_touch [OF assms(1,3)])
  have "0 < sectors" using sectors_bound by simp
  from in_step_in_touch [OF reader_new_in_step [where active = active and mem = mem, OF assms(2) this]]
  show "in_touch (reader_new t)" .
qed

text \<open>The sector a block command of a reader in touch with its tag goes to.\<close>

lemma in_touch_sector:
  assumes "in_touch r" and "sector r = Known s \<or> sector r = Unknown \<and> active (transceiver r) = s \<and> unat s < sectors"
  shows "active (transceiver r) = s" and "unat s < sectors"
  using assms by (auto simp: in_touch_def)

end

section \<open>Properties\<close>

text \<open>
  C9. A reader that starts on an activated tag agrees with it after every sequence of calls of its
  public operations, in any order, with any outcomes, on every conforming tag: when it believes a
  sector selected, that sector exists and is the one selected on the tag, and a cached block is what
  the tag holds in its active sector, also when a block was read with the sector unknown. The calls are those of
  \<open>reader_step\<close>: only existing sectors (or the reserved one) are selected, the tag is in one of its sectors
  when a block command is sent, the data area lies in the tag, and custom commands are followed by the
  calls that the code documents for them.
\<close>

theorem reader_agrees_with_tag:
  assumes "t2t_tag T mem active sectors faults" and "build_ok B" and "active t = 0"
    and "rtranclp (reader_step T B mem active sectors) (reader_new t) r"
  shows "tag_in_touch mem active sectors r"
  by (rule t2t_tag.new_session_in_touch [OF assms(1-4)])

lemma missed_read:
  defines "r \<equiv> snd (read_block lossy heapless_build 7 (set_max_retries 0 (lossy_reader [Missed])))"
  shows "active_sector (transceiver r) = 0" and "sector r = Unknown" and "tag_memory (transceiver r) = static_memory"
    and "cache_block (snd (read_block lossy heapless_build 7 r)) = Some 7"
    and "sector (snd (read_block lossy heapless_build 7 r)) = Unknown"
  by (simp_all add: r_def read_block_def command_to_bytes_wire op_bind_def transceive_with_retry_eq retry_send_def
      call_transceive_def lossy_commands lossy_transceive_def command_try_from_wire next_fate_def retry_loop_again
      invalidate_cache_def set_max_retries_def lossy_reader_def reader_new_def)

theorem reader_agrees_with_tag_witness:
  "tag_in_touch tag_memory active_sector 255
     (snd (read_block lossy heapless_build 7
       (snd (read_block lossy heapless_build 7 (set_max_retries 0 (lossy_reader [Missed]))))))"
proof -
  let ?t = "\<lparr>tag_memory = static_memory, active_sector = 0, fates = [Missed]\<rparr>"
  let ?r1 = "set_max_retries 0 (lossy_reader [Missed])"
  let ?r2 = "snd (read_block lossy heapless_build 7 ?r1)"
  let ?step = "reader_step lossy heapless_build tag_memory active_sector 255"
  have "?step (reader_new ?t) ?r1"
    unfolding lossy_reader_def by (rule reader_step.retries_step)
  moreover have "?step ?r1 ?r2"
    by (rule reader_step.read_step) (simp add: set_max_retries_def lossy_reader_def reader_new_def)
  moreover have "?step ?r2 (snd (read_block lossy heapless_build 7 ?r2))"
    by (rule reader_step.read_step) (simp add: missed_read)
  ultimately have "rtranclp ?step (reader_new ?t) (snd (read_block lossy heapless_build 7 ?r2))"
    by (meson rtranclp.rtrancl_refl rtranclp.rtrancl_into_rtrancl)
  from reader_agrees_with_tag [OF lossy_tag.t2t_tag_axioms builds_ok(1) _ this] show ?thesis
    by simp
qed

text \<open>
  C10. The read cache is transparent: after every sequence of calls, \<open>read\<close> returns the sixteen bytes
  that the tag holds at that place at that moment, whether they come from the cache or from the tag,
  or a failure of the link. The place is in the known sector, and in the tag's active sector when the
  reader does not know it.
\<close>

theorem read_is_never_stale:
  assumes "t2t_tag T mem active sectors faults" and "build_ok B" and "active t = 0"
    and "rtranclp (reader_step T B mem active sectors) (reader_new t) r"
    and "sector r = Known s \<or> sector r = Unknown \<and> active (transceiver r) = s \<and> unat s < sectors"
  shows "case read_block T B b r of
      (Ok d, r') \<Rightarrow> length d = 16 \<and> (\<forall>i < 16. 4 * unat b + i < 1024 \<longrightarrow>
        d ! i = mem (transceiver r) (1024 * unat s + 4 * unat b + i))
    | (Err e, r') \<Rightarrow> e \<in> faults
    | (Panic, r') \<Rightarrow> False"
proof -
  note touch = t2t_tag.new_session_in_touch [OF assms(1-4)]
  note s = t2t_tag.in_touch_sector [OF assms(1) touch assms(5)]
  show ?thesis
    by (rule t2t_tag.read_block_in_touch [OF assms(1,2) touch s, of b])
      (simp_all add: block_addr_def t2t_tag.shows_block_def [OF assms(1)])
qed

theorem read_is_never_stale_witness:
  "\<exists>d. fst (read_block recording heapless_build 3 (snd (read_block recording heapless_build 3 static_reader))) = Ok d \<and>
     d ! 0 = 0xE1"
proof -
  let ?t = "recording_setup 0x06 recording_new"
  let ?r = "snd (read_block recording heapless_build 3 static_reader)"
  have r: "sector static_reader = Known 0" "sector ?r = Known 0" "transceiver ?r = ?t"
    by (simp_all add: static_reader_def reader_new_def read_block_def command_to_bytes_wire op_bind_def
        transceive_with_retry_eq retry_send_def call_transceive_def recording_commands)
  have "reader_step recording heapless_build memory (\<lambda>_. 0) 1 (reader_new ?t) ?r"
    unfolding static_reader_def by (rule reader_step.read_step) simp
  then have "rtranclp (reader_step recording heapless_build memory (\<lambda>_. 0) 1) (reader_new ?t) ?r" ..
  from read_is_never_stale [OF rec_tag.t2t_tag_axioms builds_ok(1) refl this disjI1 [OF r(2)], of 3] r(3) show ?thesis
    by (auto simp: recording_setup_def split: prod.splits res.splits)
qed

text \<open>
  C11. A WRITE changes one block: after every sequence of calls, a successful \<open>write\<close> leaves the tag
  with its four bytes in the given block of the known sector (of the tag's active sector when the
  reader does not know it) and every other byte as before; a failed one is a failure of the tag or
  the link, after which the block may have been written, and no other byte changes. The reader
  agrees with the tag afterwards.
\<close>

theorem write_changes_one_block:
  fixes d :: bytes4
  assumes "t2t_tag T mem active sectors faults" and "build_ok B" and "active t = 0"
    and "rtranclp (reader_step T B mem active sectors) (reader_new t) r"
    and "sector r = Known s \<or> sector r = Unknown \<and> active (transceiver r) = s \<and> unat s < sectors"
  shows "case write_block T B b d r of
      (Ok _, r') \<Rightarrow> tag_in_touch mem active sectors r' \<and>
        mem (transceiver r') = upd_block (mem (transceiver r)) (1024 * unat s + 4 * unat b) d
    | (Err e, r') \<Rightarrow> tag_in_touch mem active sectors r' \<and> e \<in> faults \<and>
        mem (transceiver r') \<in> {mem (transceiver r),
          upd_block (mem (transceiver r)) (1024 * unat s + 4 * unat b) d}
    | (Panic, r') \<Rightarrow> False"
proof -
  note touch = t2t_tag.new_session_in_touch [OF assms(1-4)]
  note s = t2t_tag.in_touch_sector [OF assms(1) touch assms(5)]
  show ?thesis
    by (rule t2t_tag.write_block_in_touch [OF assms(1,2) touch s, of b d])
      (simp_all add: block_addr_def del: upd_block.simps)
qed

theorem write_changes_one_block_witness:
  "memory (transceiver (snd (write_block recording heapless_build 5 (1, 2, 3, 4) static_reader))) 21 = 2"
proof -
  let ?t = "recording_setup 0x06 recording_new"
  have "rtranclp (reader_step recording heapless_build memory (\<lambda>_. 0) 1) (reader_new ?t) static_reader"
    by (simp add: static_reader_def)
  from write_changes_one_block [OF rec_tag.t2t_tag_axioms builds_ok(1) refl this, of 0 5 "(1, 2, 3, 4)"]
  show ?thesis
    by (auto simp: static_reader_def reader_new_def split: prod.splits res.splits)
qed

end
