(* ===== verification/Recovery.thy ===== *)
theory Recovery
  imports Sessions
begin

text \<open>
  When a command that fails is saved by the retries: the outcome of \<open>read\<close> on the
  \<open>FailingTransceiver\<close> of the tests, for every number of failures and of retries.
\<close>

lemma failing_send:
  "call_transceive failing cmd r =
     (let t = transceiver r in
      if 0 < failures_remaining t
      then (Inl (), r\<lparr>transceiver := t\<lparr>attempts := attempts t + 1, failures_remaining := failures_remaining t - 1\<rparr>\<rparr>)
      else case mock_transceive cmd (failing_mock t) of
             (x, inner) \<Rightarrow> (x, r\<lparr>transceiver := t\<lparr>attempts := attempts t + 1, failing_mock := inner\<rparr>\<rparr>))"
  by (auto simp: call_transceive_def failing_commands Let_def split: prod.splits)

lemma failing_select:
  assumes "vec_lib_ok (bytes_lib B)"
  shows "fst (force_sector_select failing B 0 r) =
      (if 0 < failures_remaining (transceiver r) then Err (Transceiver ()) else Ok ())"
    and "failures_remaining (transceiver r) = 0 \<Longrightarrow>
      failures_remaining (transceiver (snd (force_sector_select failing B 0 r))) = 0 \<and>
      failing_mock (transceiver (snd (force_sector_select failing B 0 r))) = failing_mock (transceiver r)"
  by (auto simp: force_sector_select_eq [OF assms] MAX_SECTOR_def failing_send Let_def mock_commands
      invalidate_cache_def call_no_response_def failing_commands)

text \<open>A READ that does not fail, and the retries of one that does.\<close>

lemma failing_read:
  "failures_remaining (transceiver r) = 0 \<Longrightarrow>
   fst (retry_send failing B i [0x30, b] a n r) = Ok (flat_read (mock_memory (failing_mock (transceiver r))) b)"
  by (simp add: retry_send_def failing_send Let_def mock_commands)

lemma failing_retry:
  assumes "vec_lib_ok (bytes_lib B)"
  shows "fst (retry_loop failing B (Known 0) [0x30, b] (Suc a) n (Some ()) r) =
    (if failures_remaining (transceiver r) = 0 \<and> n \<noteq> 0
     then Ok (flat_read (mock_memory (failing_mock (transceiver r))) b) else Err (Transceiver ()))"
proof (cases n)
  case 0
  then show ?thesis by (simp add: retry_loop_again)
next
  case (Suc n')
  obtain x r1 where sel: "force_sector_select failing B 0 r = (x, r1)" by fastforce
  note facts = failing_select [OF assms, of r, unfolded sel, simplified]
  show ?thesis
    unfolding Suc retry_loop_again(2) op_bind_def sel
    using facts failing_read [of r1 B "Known 0" b "Suc a" n']
    by (auto split: if_splits)
qed

text \<open>
  C30. A READ of an uncached block in the known sector 0 on a link whose next \<open>k\<close> commands fail
  succeeds, with the bytes of the tag, exactly when nothing fails or when one command fails and a
  retry is allowed: a second failure hits the recovery of the sector, which is not retried.
\<close>

theorem read_recovers_from_one_failure:
  assumes "vec_lib_ok (bytes_lib B)" and "sector r = Known 0" and "cache_block r \<noteq> Some b"
  defines "k \<equiv> failures_remaining (transceiver r)"
  shows "fst (read_block failing B b r) =
    (if k = 0 \<or> k = 1 \<and> 0 < unat (max_retries r)
     then Ok (flat_read (mock_memory (failing_mock (transceiver r))) b) else Err (Transceiver ()))"
proof -
  have send: "fst (transceive_with_retry failing B [0x30, b] r) =
      (if k = 0 \<or> k = 1 \<and> 0 < unat (max_retries r)
       then Ok (flat_read (mock_memory (failing_mock (transceiver r))) b) else Err (Transceiver ()))"
  proof (cases "k = 0")
    case True
    then show ?thesis
      by (simp add: transceive_with_retry_eq failing_read k_def)
  next
    case False
    then show ?thesis
      by (auto simp: transceive_with_retry_eq retry_send_def failing_send Let_def k_def assms(2)
          failing_retry [OF assms(1)] invalidate_cache_def)
  qed
  obtain x r1 where x: "transceive_with_retry failing B [0x30, b] r = (x, r1)" by fastforce
  show ?thesis
    using send assms(3)
    by (auto simp: read_block_def command_to_bytes_wire [OF assms(1)] op_bind_def x split: if_splits)
qed

theorem read_recovers_from_one_failure_witness:
  "(\<exists>d. fst (read_block failing heapless_build 3
      (set_max_retries 1 (reader_new ((failing_new 1)\<lparr>failing_mock := setup_static_with_ndef mock_new\<rparr>)))) = Ok d \<and> d ! 0 = 0xE1) \<and>
   fst (read_block failing heapless_build 3
      (set_max_retries 1 (reader_new ((failing_new 3)\<lparr>failing_mock := setup_static_with_ndef mock_new\<rparr>)))) = Err (Transceiver ())"
proof -
  let ?r = "\<lambda>k. set_max_retries 1 (reader_new ((failing_new k)\<lparr>failing_mock := setup_static_with_ndef mock_new\<rparr>))"
  have "flat_read (mock_memory (setup_static_with_ndef mock_new)) 3 ! 0 = 0xE1"
    by (simp add: flat_read_nth setup_static_with_ndef_def setup_static_initialized_def Let_def)
  then show ?thesis
    using read_recovers_from_one_failure [of heapless_build "?r 1" 3]
      read_recovers_from_one_failure [of heapless_build "?r 3" 3]
    by (simp add: set_max_retries_def reader_new_def failing_new_def)
qed

end
