(* ===== verification/Effort.thy ===== *)
theory Effort
  imports Ndef
begin

text \<open>
  How much the procedures send, whatever the tag answers: every operation of the reader comes to an
  end after a number of frames that depends on the number of retries only.
\<close>

section \<open>Costs\<close>

text \<open>With \<open>n\<close> retries, \<open>f\<close> sends at most \<open>k\<close> frames and keeps the number of retries.\<close>

definition costs :: "nat \<Rightarrow> nat \<Rightarrow> ('t \<times> 'e event list, 'e, 'a) rop \<Rightarrow> bool" where
  "costs n k f \<longleftrightarrow> (\<forall>r. unat (max_retries r) = n \<longrightarrow> unat (max_retries (snd (f r))) = n \<and>
     length (event_log (snd (f r))) \<le> length (event_log r) + k)"

lemma costsI:
  assumes "\<And>r x r'. f r = (x, r') \<Longrightarrow> unat (max_retries r) = n \<Longrightarrow>
    unat (max_retries r') = n \<and> length (event_log r') \<le> length (event_log r) + k"
  shows "costs n k f"
  unfolding costs_def using assms by (metis prod.collapse)

lemma costsD:
  "costs n k f \<Longrightarrow> f r = (x, r') \<Longrightarrow> unat (max_retries r) = n \<Longrightarrow>
    unat (max_retries r') = n \<and> length (event_log r') \<le> length (event_log r) + k"
  unfolding costs_def by (metis snd_conv)

lemma costs_mono: "costs n k f \<Longrightarrow> k \<le> l \<Longrightarrow> costs n l f"
  unfolding costs_def by fastforce

lemma costs_bind:
  assumes "costs n k f" and "\<And>x. costs n l (g x)"
  shows "costs n (k + l) (op_bind f g)"
proof (rule costsI)
  fix r x r'
  assume run: "op_bind f g r = (x, r')" and n: "unat (max_retries r) = n"
  obtain y r1 where f: "f r = (y, r1)" by fastforce
  note c1 = costsD [OF assms(1) f n]
  show "unat (max_retries r') = n \<and> length (event_log r') \<le> length (event_log r) + (k + l)"
  proof (cases y)
    case (Ok z)
    with run f have "g z r1 = (x, r')" by (simp add: op_bind_def)
    from costsD [OF assms(2) this] c1 show ?thesis by auto
  qed (use run f c1 in \<open>auto simp: op_bind_def\<close>)
qed

lemma costs_pure: "costs n 0 (op_lift x)" "costs n 0 (op_return y)" "costs n 0 (op_fail e)"
  by (simp_all add: costs_def op_lift_def op_return_def op_fail_def)

lemma costs_if: "costs n k f \<Longrightarrow> costs n k g \<Longrightarrow> costs n k (if b then f else g)"
  by simp

lemma costs_bind_pure: "(\<And>x. costs n l (g x)) \<Longrightarrow> costs n l (op_bind (op_lift y) g)"
  using costs_bind [OF costs_pure(1), of n l g y] by simp

section \<open>Sectors, commands and blocks\<close>

lemma traced_calls:
  "transceive (traced T) cmd t = (x, t') \<Longrightarrow> length (snd t') = length (snd t) + 1"
  "transceive_no_response (traced T) cmd t = (y, t') \<Longrightarrow> length (snd t') = length (snd t) + 1"
  by (auto simp: traced_def split: prod.splits)

lemma force_sector_select_costs: "costs n 2 (force_sector_select (traced T) B s)"
  unfolding costs_def force_sector_select_def call_transceive_def call_no_response_def
  by (auto simp: Let_def invalidate_cache_def split: prod.splits sum.splits res.splits answer.splits option.splits
      dest!: traced_calls)

lemma ensure_sector_costs: "costs n 2 (ensure_sector (traced T) B s)" "costs n 2 (sector_select (traced T) B s)"
  using force_sector_select_costs [of n T B s]
  by (auto simp: costs_def ensure_sector_def sector_select_def)

lemma retry_send_costs: "costs n (1 + 3 * k) (retry_send (traced T) B i cmd a k)"
proof (induction k arbitrary: a)
  case 0
  show ?case
    by (rule costsI) (auto simp: retry_send_def call_transceive_def retry_loop_again invalidate_cache_def
        split: prod.splits sum.splits dest!: traced_calls)
next
  case (Suc k)
  have again: "costs n (3 * Suc k) (retry_loop (traced T) B i cmd (Suc a) (Suc k) (Some e))" for e
  proof (cases i)
    case Unknown
    then show ?thesis
      by (simp add: costs_def retry_loop_again)
  next
    case (Known s)
    show ?thesis
      using costs_bind [OF force_sector_select_costs [of n T B s] Suc.IH [of "Suc a"]]
      unfolding Known retry_loop_again(2) [abs_def] by (simp add: numeral_3_eq_3)
  qed
  show ?case
  proof (rule costsI)
    fix r x r'
    assume run: "retry_send (traced T) B i cmd a (Suc k) r = (x, r')" and n: "unat (max_retries r) = n"
    obtain y t where t: "transceive (traced T) cmd (transceiver r) = (y, t)"
      by (cases "transceive (traced T) cmd (transceiver r)")
    note len = traced_calls(1) [OF t]
    show "unat (max_retries r') = n \<and> length (event_log r') \<le> length (event_log r) + (1 + 3 * Suc k)"
    proof (cases y)
      case (Inl e)
      let ?r = "invalidate_cache (r\<lparr>transceiver := t, sector := Unknown\<rparr>)"
      have "retry_loop (traced T) B i cmd (Suc a) (Suc k) (Some e) ?r = (x, r')"
        using run t Inl by (simp add: retry_send_def call_transceive_def)
      from costsD [OF again this] n len show ?thesis
        by (simp add: invalidate_cache_def)
    next
      case (Inr raw)
      with run t n len show ?thesis
        by (auto simp: retry_send_def call_transceive_def)
    qed
  qed
qed

lemma transceive_with_retry_costs: "costs n (1 + 3 * n) (transceive_with_retry (traced T) B cmd)"
  using retry_send_costs [of n n T B] by (auto simp: costs_def transceive_with_retry_eq)

lemma read_block_costs: "costs n (1 + 3 * n) (read_block (traced T) B b)"
proof -
  have "costs n (1 + 3 * n + 0) (\<lambda>r. op_bind (transceive_with_retry (traced T) B (command_to_bytes (bytes_lib B) (Read b)))
        (\<lambda>raw r1. case parse_answer (Read b) raw of
             Err e \<Rightarrow> (Err (Protocol e), r1)
           | Panic \<Rightarrow> (Panic, r1)
           | Ok (Data data) \<Rightarrow> (Ok data, r1\<lparr>cache_block := Some b, cache_data := data\<rparr>)
           | Ok (Nack code) \<Rightarrow> (Err (Protocol (NackError code)), r1)
           | Ok _ \<Rightarrow> (Err (Protocol InvalidLength), r1)) r)"
    by (rule costs_bind [OF transceive_with_retry_costs])
      (auto simp: costs_def split: res.splits answer.splits)
  then show ?thesis
    by (auto simp: costs_def read_block_def)
qed

lemma write_block_costs: "costs n (1 + 3 * n) (write_block (traced T) B b d)"
  unfolding write_block_def
  by (rule costs_mono, rule costs_bind [OF transceive_with_retry_costs, where l = 0])
    (auto simp: costs_def Let_def invalidate_cache_def split: res.splits answer.splits)

lemma fetch_block_costs: "costs n (1 + 3 * n) (fetch_block (traced T) B b)"
  using costs_bind [OF read_block_costs costs_pure(1), of n T B b "\<lambda>d. slice d 0 BLOCK_SIZE"]
  by (auto simp: costs_def fetch_block_def Let_def split: option.splits)

section \<open>The data area\<close>

text \<open>The pages from an address to the end of the address space bound the iterations of both loops.\<close>

lemma read_area_loop_costs:
  "65280 \<le> unat a div 4 + q \<Longrightarrow> costs n (q * (3 + 3 * n)) (read_area_loop (traced T) B layout a acc)"
proof (induction q arbitrary: a acc)
  case 0
  then have "\<not> a < ADDRESS_SPACE_END"
    using div_less_iff_less_mult [of 4 "unat a" 65280] by (simp add: word_less_nat_alt geometry)
  then have "address_to_sector_block a = None"
    using address_to_sector_block_Some by (cases "address_to_sector_block a") auto
  then show ?case
    unfolding read_area_loop_op [of "traced T" B layout a acc] by (simp add: costs_pure)
next
  case (Suc q)
  show ?case
  proof (cases "address_to_sector_block a")
    case None
    then show ?thesis
      unfolding read_area_loop_op [of "traced T" B layout a acc]
      by (auto intro!: costs_mono [OF costs_pure(2)] costs_mono [OF costs_pure(3)])
  next
    case (Some p)
    obtain sec block offset where p: "p = (sec, block, offset)" by (cases p)
    have "a < ADDRESS_SPACE_END"
      using address_to_sector_block_Some Some p by blast
    then have step: "unat (a + of_nat BLOCK_SIZE) div 4 = unat a div 4 + 1"
      by (simp add: unat_add_4)
    have "costs n (q * (3 + 3 * n)) (read_area_loop (traced T) B layout (a + of_nat BLOCK_SIZE) acc')" for acc'
      using Suc.prems by (intro Suc.IH) (simp add: step)
    then have "costs n (q * (3 + 3 * n)) (scan_step x (\<lambda>acc'. read_area_loop (traced T) B layout (a + of_nat BLOCK_SIZE) acc'))" for x
      unfolding scan_step_def
      by (intro costs_bind_pure) (auto intro: costs_mono [OF costs_pure(2)] split: flow.splits)
    from costs_bind [OF costs_bind [OF ensure_sector_costs(1) fetch_block_costs] this]
    have "costs n (Suc q * (3 + 3 * n)) (op_bind (op_bind (ensure_sector (traced T) B sec) (\<lambda>_. fetch_block (traced T) B block))
        (\<lambda>block_data. scan_step (read_block_bytes B layout a block_data acc)
          (\<lambda>acc'. read_area_loop (traced T) B layout (a + of_nat BLOCK_SIZE) acc')))"
      by (rule costs_mono) simp
    then show ?thesis
      unfolding read_area_loop_op [of "traced T" B layout a acc] Some p
      by (auto intro: costs_mono [OF costs_pure(2)])
  qed
qed

lemma modify_page_costs: "costs n (2 + 6 * n) (modify_page (traced T) B layout limit b offs base ds)"
proof -
  have w: "costs n (1 + 3 * n) (op_bind (write_block (traced T) B b d) (\<lambda>_. op_return rest))" for d and rest :: "u8 list"
    using costs_bind [OF write_block_costs costs_pure(2), of n T B b d "\<lambda>_. rest"] by simp
  show ?thesis
    unfolding modify_page_def Let_def
    by (rule costs_mono, rule costs_bind [OF read_block_costs], intro costs_bind_pure)
      (auto intro!: costs_if costs_bind_pure w intro: costs_mono [OF costs_pure(2)] split: prod.splits)
qed

lemma write_usable_loop_costs:
  "65280 \<le> unat a div 4 + q \<Longrightarrow>
   costs n (q * (4 + 6 * n)) (write_usable_loop (traced T) B layout limit a ds)"
proof (induction q arbitrary: a ds)
  case 0
  then have "\<not> a < ADDRESS_SPACE_END"
    using div_less_iff_less_mult [of 4 "unat a" 65280] by (simp add: word_less_nat_alt geometry)
  then have "address_to_sector_block a = None"
    using address_to_sector_block_Some by (cases "address_to_sector_block a") auto
  then show ?case
    unfolding write_usable_loop_op [of "traced T" B layout limit a ds] by (simp add: costs_pure)
next
  case (Suc q)
  show ?case
  proof (cases "address_to_sector_block a")
    case None
    then show ?thesis
      unfolding write_usable_loop_op [of "traced T" B layout limit a ds]
      by (auto intro!: costs_mono [OF costs_pure(2)] costs_mono [OF costs_pure(3)])
  next
    case (Some p)
    obtain sec block offs where p: "p = (sec, block, offs)" by (cases p)
    let ?next = "a - ucast offs + of_nat BLOCK_SIZE"
    have "unat ?next div 4 = unat a div 4 + 1"
      using page_base_step(3) [OF Some [unfolded p]] by simp
    then have rest: "costs n (q * (4 + 6 * n)) (write_usable_loop (traced T) B layout limit ?next ds')" for ds'
      using Suc.prems by (intro Suc.IH) simp
    have "costs n (1 + 3 * n + q * (4 + 6 * n)) (op_bind (op_bind (op_lift (page_of ds)) (write_block (traced T) B block))
        (\<lambda>_. write_usable_loop (traced T) B layout limit ?next ds'))" for ds'
      by (rule costs_bind [OF costs_bind_pure rest]) (rule write_block_costs)
    then have fast: "costs n (2 + 6 * n + q * (4 + 6 * n)) (op_bind (op_bind (op_lift (page_of ds)) (write_block (traced T) B block))
        (\<lambda>_. write_usable_loop (traced T) B layout limit ?next ds'))" for ds'
      by (rule costs_mono) simp
    have slow: "costs n (2 + 6 * n + q * (4 + 6 * n)) (op_bind (modify_page (traced T) B layout limit block offs (a - ucast offs) ds)
        (write_usable_loop (traced T) B layout limit ?next))"
      by (rule costs_bind [OF modify_page_costs rest])
    have "costs n (2 + (2 + 6 * n + q * (4 + 6 * n))) (op_bind (ensure_sector (traced T) B sec) (\<lambda>_.
        if offs = 0 \<and> length ds \<ge> BLOCK_SIZE \<and> page_all_usable layout (a - ucast offs) then
          (if ?next > limit then op_fail (Protocol OutOfRange)
           else op_bind (op_bind (op_lift (page_of ds)) (write_block (traced T) B block)) (\<lambda>_.
             write_usable_loop (traced T) B layout limit ?next (drop BLOCK_SIZE ds)))
        else op_bind (modify_page (traced T) B layout limit block offs (a - ucast offs) ds)
          (write_usable_loop (traced T) B layout limit ?next)))"
      by (intro costs_bind [OF ensure_sector_costs(1)] costs_if fast slow costs_mono [OF costs_pure(3)]) simp
    then have body: "costs n (Suc q * (4 + 6 * n)) (op_bind (ensure_sector (traced T) B sec) (\<lambda>_.
        if offs = 0 \<and> length ds \<ge> BLOCK_SIZE \<and> page_all_usable layout (a - ucast offs) then
          (if ?next > limit then op_fail (Protocol OutOfRange)
           else op_bind (op_bind (op_lift (page_of ds)) (write_block (traced T) B block)) (\<lambda>_.
             write_usable_loop (traced T) B layout limit ?next (drop BLOCK_SIZE ds)))
        else op_bind (modify_page (traced T) B layout limit block offs (a - ucast offs) ds)
          (write_usable_loop (traced T) B layout limit ?next)))"
      by (rule costs_mono) simp
    show ?thesis
      unfolding write_usable_loop_op [of "traced T" B layout limit a ds] Some p option.case prod.case Let_def
      by (intro costs_if body costs_mono [OF costs_pure(2)] costs_mono [OF costs_pure(3)] le0)
  qed
qed

section \<open>The procedures\<close>

lemma read_data_area_costs: "costs n (65276 * (3 + 3 * n)) (read_data_area (traced T) B layout)"
  unfolding read_data_area_def
  by (rule read_area_loop_costs) (simp add: data_start_addr_def geometry)

lemma read_cc_costs: "costs n (3 + 3 * n) (read_cc (traced T) B)"
  unfolding read_cc_def
  by (rule costs_mono, rule costs_bind [OF ensure_sector_costs(2)], rule costs_bind [OF read_block_costs costs_pure(1)])
    simp

lemma read_data_area_with_layout_costs:
  "costs n (2 * (65276 * (3 + 3 * n))) (read_data_area_with_layout (traced T) B cc)"
  unfolding read_data_area_with_layout_def mult_2
  by (intro costs_bind_pure costs_bind [OF read_data_area_costs] costs_if read_data_area_costs
      costs_mono [OF costs_pure(2)] le0)

lemma read_ndef_costs: "costs n (130553 * (3 + 3 * n)) (read_ndef (traced T) B)"
proof -
  have "costs n 0 (case first_ndef ts of Some data \<Rightarrow> op_return data | None \<Rightarrow> op_return [])" for ts
    by (simp add: costs_pure split: option.splits)
  then have "costs n (3 + 3 * n + (2 * (65276 * (3 + 3 * n)) + 0)) (read_ndef (traced T) B)"
    unfolding read_ndef_def
    by (intro costs_bind [OF read_cc_costs] costs_if costs_bind [OF read_data_area_with_layout_costs]
        costs_bind_pure costs_mono [OF costs_pure(3)] le0)
  then show ?thesis
    by (rule costs_mono) simp
qed

lemma write_usable_bytes_costs: "costs n (65280 * (4 + 6 * n)) (write_usable_bytes (traced T) B layout a ds limit)"
  unfolding write_usable_bytes_def by (rule write_usable_loop_costs) simp

lemma write_ndef_costs:
  "costs n (130553 * (3 + 3 * n) + 130560 * (4 + 6 * n)) (write_ndef (traced T) B data)"
proof -
  have "costs n (65280 * (4 + 6 * n) + 65280 * (4 + 6 * n)) (execute_plan (traced T) B p len)" for p len
    unfolding execute_plan_def
    by (intro costs_bind [OF write_usable_bytes_costs] costs_bind_pure write_usable_bytes_costs)
  then have "costs n (3 + 3 * n + (2 * (65276 * (3 + 3 * n)) + (65280 * (4 + 6 * n) + 65280 * (4 + 6 * n))))
      (write_ndef (traced T) B data)"
    unfolding write_ndef_def
    by (intro costs_bind [OF read_cc_costs] costs_if costs_bind [OF read_data_area_with_layout_costs]
        costs_bind_pure costs_mono [OF costs_pure(3)] le0)
  then show ?thesis
    by (rule costs_mono) simp
qed

section \<open>Properties\<close>

text \<open>
  C31. Reading and writing the NDEF message come to an end on every transceiver, whatever the tag
  answers: the number of frames sent is bounded by the size of the address space and the number of
  retries, even for a tag that never shows a Terminator, announces arbitrary lock areas or fails at will.
\<close>

theorem traffic_is_bounded:
  fixes T :: "('t, 'e) t2t_transceiver"
  shows "length (event_log (snd (read_ndef (traced T) B r))) \<le>
      length (event_log r) + 391659 * (unat (max_retries r) + 1) \<and>
    length (event_log (snd (write_ndef (traced T) B data r))) \<le>
      length (event_log r) + 391659 * (unat (max_retries r) + 1) + 130560 * (6 * unat (max_retries r) + 4)"
  using read_ndef_costs [of "unat (max_retries r)" T B] write_ndef_costs [of "unat (max_retries r)" T B data]
  by (auto simp: costs_def algebra_simps)

end
