(* ===== verification/Message_Register.thy ===== *)
theory Message_Register
  imports Plain_Tags
begin

text \<open>
  A tag as a store for one message: the abstract specification of \<open>read_ndef\<close> and \<open>write_ndef\<close>
  (\<open>src/src/type2/reader.rs\<close>) over any sequence of calls. The state of the specification is the
  current message; \<open>write_verdict\<close> says which messages it accepts. The proof is a simulation: the
  relation \<open>holds_message\<close> between memories and messages is kept by every accepted write.
\<close>

section \<open>Calls\<close>

datatype ndef_call = ReadNdef | WriteNdef "u8 list"

text \<open>One call on a reader; a read returns a message, a write returns none.\<close>

fun call_ndef :: "('t, 'e) t2t_transceiver \<Rightarrow> build \<Rightarrow> ndef_call \<Rightarrow> ('t, 'e, u8 list option) rop" where
  "call_ndef T B ReadNdef = op_bind (read_ndef T B) (\<lambda>x. op_return (Some x))"
| "call_ndef T B (WriteNdef data) = op_bind (write_ndef T B data) (\<lambda>_. op_return None)"

text \<open>The results of a sequence of calls; the caller goes on after an error.\<close>

fun call_results :: "('t, 'e) t2t_transceiver \<Rightarrow> build \<Rightarrow> ndef_call list \<Rightarrow> 't reader \<Rightarrow>
    ('e reader_error, u8 list option) res list" where
  "call_results T B [] r = []"
| "call_results T B (c # cs) r = (case call_ndef T B c r of (x, r') \<Rightarrow> x # call_results T B cs r')"

section \<open>The specification\<close>

text \<open>
  What a tag with the container \<open>cc\<close> and \<open>k\<close> bytes in front of its message says to a message of
  \<open>n\<close> bytes.
\<close>

definition write_verdict :: "capability_container \<Rightarrow> nat \<Rightarrow> nat \<Rightarrow> type2_error option" where
  "write_verdict cc k n =
     (if write_access cc \<noteq> Granted then Some ReadOnly
      else if n > 0xFFFE \<or> k + 1 + l_field_size n + n + 1 > unat (cc_data_area_size cc) then Some OutOfRange
      else None)"

text \<open>
  The results a store with the message \<open>msg\<close> may give. A failure of the link leaves the message as it
  is, but for a write that was accepted: from then on nothing is promised.
\<close>

fun stores_messages :: "'e reader_error set \<Rightarrow> (nat \<Rightarrow> type2_error option) \<Rightarrow> u8 list \<Rightarrow>
    ndef_call list \<Rightarrow> ('e reader_error, u8 list option) res list \<Rightarrow> bool" where
  "stores_messages faults verdict msg (ReadNdef # cs) (x # xs) \<longleftrightarrow>
     (x = Ok (Some msg) \<or> (\<exists>e \<in> faults. x = Err e)) \<and> stores_messages faults verdict msg cs xs"
| "stores_messages faults verdict msg (WriteNdef data # cs) (x # xs) \<longleftrightarrow>
     (case verdict (length data) of
        Some e \<Rightarrow> (x = Err (Protocol e) \<or> (\<exists>e \<in> faults. x = Err e)) \<and> stores_messages faults verdict msg cs xs
      | None \<Rightarrow> (x = Ok None \<and> stores_messages faults verdict data cs xs) \<or> (\<exists>e \<in> faults. x = Err e))"
| "stores_messages faults verdict msg [] xs \<longleftrightarrow> xs = []"
| "stores_messages faults verdict msg cs [] \<longleftrightarrow> cs = []"

text \<open>Without failures of the link the results are determined.\<close>

fun register_results :: "(nat \<Rightarrow> type2_error option) \<Rightarrow> u8 list \<Rightarrow> ndef_call list \<Rightarrow>
    ('e reader_error, u8 list option) res list" where
  "register_results verdict msg [] = []"
| "register_results verdict msg (ReadNdef # cs) = Ok (Some msg) # register_results verdict msg cs"
| "register_results verdict msg (WriteNdef data # cs) =
     (case verdict (length data) of
        Some e \<Rightarrow> Err (Protocol e) # register_results verdict msg cs
      | None \<Rightarrow> Ok None # register_results verdict data cs)"

lemma stores_messages_reliable:
  "stores_messages {} verdict msg cs xs \<longleftrightarrow> xs = register_results verdict msg cs"
proof (induction cs arbitrary: msg xs)
  case (Cons c cs)
  then show ?case
    by (cases c; cases xs) (auto split: option.splits)
qed simp

section \<open>The relation between memories and messages\<close>

text \<open>
  The message stands behind canonical blocks \<open>pre\<close>, which include all control TLVs; no lock or reserved
  byte lies inside the data area, and the buffers are large enough for everything that fits in it.
\<close>

definition holds_message :: "build \<Rightarrow> capability_container \<Rightarrow> tlv list \<Rightarrow> (nat \<Rightarrow> u8) \<Rightarrow> u8 list \<Rightarrow> bool" where
  "holds_message B cc pre m msg \<longleftrightarrow>
     cc_in m = Ok cc \<and> is_valid cc \<and>
     (\<exists>post. blocks_in B cc m = Ok (pre @ NdefMessage msg # post) \<and>
        skips_no_data cc (pre @ NdefMessage msg # post) \<and> canonical_front cc (pre @ NdefMessage msg # post) m) \<and>
     list_all (\<lambda>t. t \<noteq> Terminator \<and> ndef_data t = None) pre \<and>
     vec_fits (bytes_lib B) DATA_VEC_CAP (unat (cc_data_area_size cc)) \<and>
     vec_fits (tlv_lib B) TLV_VEC_CAP (length pre + 2)"

abbreviation front_size :: "tlv list \<Rightarrow> nat" where
  "front_size pre \<equiv> length (concat (map tlv_bytes pre))"

lemma before_ndef_append:
  assumes "list_all (\<lambda>t. t \<noteq> Terminator \<and> ndef_data t = None) pre"
  shows "before_ndef (pre @ NdefMessage msg # post) = pre"
    and "first_ndef (pre @ NdefMessage msg # post) = Some msg"
  using assms by (induction pre) (auto simp: before_ndef_def split: option.splits)

lemma ndef_offset_append:
  assumes "list_all (\<lambda>t. tlv_wf t \<and> t \<noteq> Terminator \<and> ndef_data t = None) pre"
  shows "ndef_tlv_offset k (pre @ NdefMessage msg # post) = Some (k + front_size pre)"
  using assms
  by (induction k pre rule: ndef_tlv_offset.induct) (auto simp: length_bytes3 u16_of_nat_less_255)

lemma holds_messageE:
  assumes "holds_message B cc pre m msg" and "build_ok B"
  obtains ts where "cc_in m = Ok cc" "is_valid cc" "blocks_in B cc m = Ok ts" "before_ndef ts = pre"
    "first_ndef ts = Some msg" "ndef_tlv_offset 0 ts = Some (front_size pre)" "skips_no_data cc ts"
    "canonical_front cc ts m"
    "\<forall>n. message_end (front_size pre) n \<le> unat (cc_data_area_size cc) \<longrightarrow> buffers_suffice B ts n"
proof -
  obtain post where post: "blocks_in B cc m = Ok (pre @ NdefMessage msg # post)"
    "skips_no_data cc (pre @ NdefMessage msg # post)" "canonical_front cc (pre @ NdefMessage msg # post) m"
    and pre: "list_all (\<lambda>t. t \<noteq> Terminator \<and> ndef_data t = None) pre"
    using assms(1) by (auto simp: holds_message_def)
  note parts = before_ndef_append [OF pre, of msg post]
  have wf: "list_all (\<lambda>t. tlv_wf t \<and> t \<noteq> Terminator \<and> ndef_data t = None) pre"
    using pre post(3) by (auto simp: canonical_front_def parts Let_def list_all_iff)
  have bufs: "buffers_suffice B (pre @ NdefMessage msg # post) n"
    if fits: "message_end (front_size pre) n \<le> unat (cc_data_area_size cc)" for n
  proof -
    note mono = vec_fits_mono [OF build_okD(1) [OF assms(2)], of DATA_VEC_CAP "unat (cc_data_area_size cc)"]
    have room: "vec_fits (bytes_lib B) DATA_VEC_CAP (unat (cc_data_area_size cc))"
      "vec_fits (tlv_lib B) TLV_VEC_CAP (length pre + 2)"
      using assms by (simp_all add: holds_message_def)
    show ?thesis
      using mono [OF room(1)] fits room(2) by (simp add: buffers_suffice_def parts Let_def)
  qed
  show thesis
    using assms(1) by (intro that [OF _ _ post(1) parts _ post(2,3)] allI impI bufs)
      (simp_all add: ndef_offset_append [OF wf] holds_message_def)
qed

text \<open>Reading finds the message; a write is decided by the verdict, and an accepted one takes its place.\<close>

lemma holds_message_read:
  assumes "build_ok B" and "holds_message B cc pre m msg"
  shows "message_in B m = Ok msg"
  by (rule holds_messageE [OF assms(2,1)]) (simp add: message_in_def)

lemma holds_message_check:
  assumes "build_ok B" and "holds_message B cc pre m msg" and "write_in_reach sectors B m"
  shows "case write_verdict cc (front_size pre) (length data) of
      None \<Rightarrow> \<exists>p. write_check B m data = Ok p
    | Some e \<Rightarrow> write_check B m data = Err e"
proof -
  obtain ts where ts: "cc_in m = Ok cc" "is_valid cc" "blocks_in B cc m = Ok ts"
    "ndef_tlv_offset 0 ts = Some (front_size pre)"
    by (rule holds_messageE [OF assms(2,1)]) (rule that)
  have room: "vec_fits (bytes_lib B) DATA_VEC_CAP (2 + l_field_size (length data) + length data)"
    if "message_end (front_size pre) (length data) \<le> unat (cc_data_area_size cc)"
    using that assms(2) vec_fits_mono [OF build_okD(1) [OF assms(1)], of DATA_VEC_CAP "unat (cc_data_area_size cc)"]
    by (auto simp: holds_message_def message_end_def)
  have "unat (cc_data_area_size cc) \<le> length (usable_addrs (layout_of cc ts))"
    using assms(3) ts(1,3) by (auto simp: write_in_reach_def in_reach_def Let_def layout_of_def)
  with ts(1-4) room show ?thesis
    by (auto simp: write_check_def write_verdict_def message_end_def
        plan_write_eq [OF assms(1) parsed_D(1,2) [OF assms(1) blocks_in_parsed [OF ts(3)]]])
qed

lemma holds_message_stored:
  assumes "build_ok B" and "holds_message B cc pre m msg" and "write_check B m data = Ok p"
  shows "holds_message B cc pre (stored m p data) data"
    and "write_in_reach sectors B m \<Longrightarrow> write_in_reach sectors B (stored m p data)"
proof -
  obtain ts where ts: "cc_in m = Ok cc" "is_valid cc" "blocks_in B cc m = Ok ts" "before_ndef ts = pre"
    "ndef_tlv_offset 0 ts = Some (front_size pre)" "skips_no_data cc ts" "canonical_front cc ts m"
    and bufs: "\<forall>n. message_end (front_size pre) n \<le> unat (cc_data_area_size cc) \<longrightarrow> buffers_suffice B ts n"
    by (rule holds_messageE [OF assms(2,1)]) (rule that)
  note F = plan_front [OF assms(1,3) ts(1,3,6,7), unfolded ts(4)]
  note found = message_in_stored [OF assms(1,3) ts(1,3,6,7), unfolded ts(4)]
  have fits: "buffers_suffice B ts (length data)"
    using bufs F(6) by blast
  let ?ts = "pre @ [NdefMessage data, Terminator]"
  obtain rest where area: "area_bytes (layout_of cc ts) (stored m p data) =
      concat (map tlv_bytes pre) @ ndef_bytes data @ rest"
    using area_stored [OF assms(1,3) ts(1,3,6,7), unfolded ts(4)] by blast
  have "list_all (\<lambda>t. t \<noteq> Terminator \<and> ndef_data t = None) pre"
    using assms(2) by (simp add: holds_message_def)
  from before_ndef_append(1) [OF this, of data "[Terminator]"]
  have "canonical_front cc ?ts (stored m p data)"
    using ts(7) found(1) area by (simp add: canonical_front_def Let_def ts(4))
  moreover have "skips_no_data cc ?ts"
    using ts(6) found(1) by (simp add: skips_no_data_def)
  moreover have "cc_in (stored m p data) = Ok cc"
    by (simp add: cc_in_stored ts(1))
  ultimately show "holds_message B cc pre (stored m p data) data"
    using assms(2) found(3) fits by (auto simp: holds_message_def)
  show "write_in_reach sectors B (stored m p data)" if "write_in_reach sectors B m"
    by (rule stored_in_reach [OF assms(1,3) ts(1,3,6,7) that])
qed

text \<open>A plain tag holds its message.\<close>

context plain_tag
begin

lemma plain_holds_message:
  assumes "build_ok B"
  shows "holds_message B cc pre m msg"
  using blocks_plain few_blocks one_sector roundtrip_plain
  by (auto simp: holds_message_def cc_in_memory valid blocks_in_plain [OF assms] list_all_iff DATA_VEC_CAP_def
      TLV_VEC_CAP_def intro!: vec_fits_le)

end

section \<open>The simulation\<close>

context t2t_tag
begin

lemma calls_store_messages:
  assumes "build_ok B" and "in_step r" and "write_in_reach sectors B (memory_of r)"
    and "holds_message B cc pre (memory_of r) msg"
  shows "stores_messages faults (write_verdict cc (front_size pre)) msg calls (call_results T B calls r)"
  using assms(2-4)
proof (induction calls arbitrary: r msg)
  case (Cons c calls)
  let ?m = "memory_of r"
  show ?case
  proof (cases c)
    case ReadNdef
    have "computes ?m (read_ndef T B) (message_in B ?m)"
      using Cons.prems(2) by (intro read_ndef_computes assms(1)) (simp add: write_in_reach_def)
    note spec = this [unfolded computes_def holds_message_read [OF assms(1) Cons.prems(3)]]
    have "in_step r \<and> memory_of r = ?m"
      using Cons.prems(1) by simp
    from spec this show ?thesis
      by (cases rule: triple_cases)
        (use Cons.IH Cons.prems in \<open>auto simp: ReadNdef op_bind_def op_return_def\<close>)
  next
    case (WriteNdef data)
    note check = holds_message_check [OF assms(1) Cons.prems(3,2), of data]
    note kept = holds_message_stored [OF assms(1) Cons.prems(3)]
    have "in_step r \<and> memory_of r = ?m"
      using Cons.prems(1) by simp
    from write_ndef_at [OF assms(1) Cons.prems(2), of data] this show ?thesis
      by (cases rule: triple_cases)
        (use Cons.IH Cons.prems check kept in \<open>auto simp: WriteNdef op_bind_def op_return_def split: option.splits\<close>)
  qed
qed simp

end

end
