(* ===== verification/Long_Message.thy ===== *)
theory Long_Message
  imports Message_Register Samples
begin

text \<open>
  Messages that a writer's buffers hold and a reader's do not. \<open>write_ndef\<close> checks the message alone
  against its buffer; a reader puts the blocks in front of the message into the same buffer, too. Such
  a message is accepted, and then neither \<open>read_ndef\<close> nor \<open>write_ndef\<close> gets past it any more. A tag
  with two sectors on which this happens, over a link that never fails.
\<close>

section \<open>Calls that all fail\<close>

context t2t_tag
begin

lemma calls_all_fail:
  assumes "build_ok B" and "write_in_reach sectors B m" and "message_in B m = Err e0"
    and "\<And>data. write_check B m data = Err e0" and "in_step r" and "memory_of r = m"
  shows "list_all (\<lambda>x. x = Err (Protocol e0) \<or> (\<exists>e \<in> faults. x = Err e)) (call_results T B calls r)"
  using assms(5,6)
proof (induction calls arbitrary: r)
  case (Cons c calls)
  have r: "in_step r \<and> memory_of r = m"
    using Cons.prems by simp
  have "computes m (read_ndef T B) (message_in B m)"
    using assms(2) by (intro read_ndef_computes assms(1)) (simp add: write_in_reach_def)
  note read = this [unfolded computes_def assms(3)]
  show ?case
  proof (cases c)
    case ReadNdef
    from read r show ?thesis
      by (cases rule: triple_cases) (use Cons.IH in \<open>auto simp: ReadNdef op_bind_def\<close>)
  next
    case (WriteNdef data)
    from write_ndef_at [OF assms(1,2), of data] r show ?thesis
      by (cases rule: triple_cases) (use Cons.IH assms(4) in \<open>auto simp: WriteNdef op_bind_def\<close>)
  qed
qed simp

text \<open>Every call after a message that does not fit a reader's buffers was written.\<close>

lemma calls_after_long_message:
  assumes "build_ok B" and "write_in_reach sectors B m" and "cc_in m = Ok cc" and "blocks_in B cc m = Ok ts"
    and "skips_no_data cc ts" and "canonical_front cc ts m"
    and "in_step r" and "memory_of r = m" and "write_ndef T B data r = (Ok (), r1)"
    and "\<not> buffers_suffice B ts (length data)"
  shows "list_all (\<lambda>x. x = Err (Protocol type2_error.BufferFull) \<or> (\<exists>e \<in> faults. x = Err e))
    (call_results T B calls r1)"
proof -
  obtain p where r1: "in_step r1" "write_check B m data = Ok p" "memory_of r1 = stored m p data"
    using triple_OkD [OF write_ndef_at [OF assms(1,2)] _ assms(9)] assms(7,8) by blast
  note found = message_in_stored(4,5) [OF assms(1) r1(2) assms(3-6)]
  show ?thesis
    by (rule calls_all_fail [OF assms(1) stored_in_reach [OF assms(1) r1(2) assms(3-6,2)]])
      (simp_all add: found assms(10) r1)
qed

end

section \<open>A tag with sectors on a perfect link\<close>

definition flawless_transceive :: "u8 list \<Rightarrow> lossy_tag \<Rightarrow> (unit + u8 list) \<times> lossy_tag" where
  "flawless_transceive cmd t =
     (case command_try_from cmd of
        Ok c \<Rightarrow> (case lossy_serve c t of (raw, t1) \<Rightarrow> (Inr raw, t1))
      | _ \<Rightarrow> (Inl (), t))"

definition flawless_no_response :: "u8 list \<Rightarrow> lossy_tag \<Rightarrow> (unit + u8 option) \<times> lossy_tag" where
  "flawless_no_response cmd t = (Inr None, t\<lparr>active_sector := cmd ! 0\<rparr>)"

definition flawless :: "(lossy_tag, unit) t2t_transceiver" where
  "flawless = \<lparr>transceive = flawless_transceive, transceive_no_response = flawless_no_response\<rparr>"

lemmas flawless_commands = flawless_def flawless_transceive_def flawless_no_response_def command_try_from_wire

interpretation flawless_tag: t2t_tag flawless tag_memory active_sector 255 "{}"
proof (unfold_locales, goal_cases)
  case (3 b d t x t')
  then show ?case
    by (auto simp: flawless_commands simp del: upd_block.simps)
qed (auto simp: flawless_commands)

section \<open>A message behind a proprietary block\<close>

definition long_memory :: "nat \<Rightarrow> u8" where
  "long_memory = (\<lambda>_. 0)(12 := 0xE1, 13 := 0x10, 14 := 0xFE, 15 := 0x00, 16 := 0xFD, 17 := 0x03,
     18 := 0xAA, 19 := 0xBB, 20 := 0xCC, 21 := 0x03, 22 := 0x00, 23 := 0xFE)"

definition long_cc :: capability_container where
  "long_cc = \<lparr>version_major = 1, version_minor = 0, size_field = 0xFE,
     read_access = Granted, write_access = Granted\<rparr>"

definition long_data :: "u8 list" where
  "long_data = replicate 1019 0x55"

abbreviation long_reader :: "lossy_tag reader" where
  "long_reader \<equiv> reader_new \<lparr>tag_memory = long_memory, active_sector = 0, fates = []\<rparr>"

lemma long_cc_facts:
  "is_valid long_cc" "write_access long_cc = Granted" "unat (cc_data_area_size long_cc) = 2032"
  by (simp_all add: long_cc_def is_valid_def SUPPORTED_MAJOR_VERSION_def cc_data_area_size_def)

lemma long_cc_in: "cc_in long_memory = Ok long_cc"
  by (simp add: cc_in_def long_memory_def long_cc_def CC_MAGIC_def SUPPORTED_MAJOR_VERSION_def from_nibble_def)

interpretation long: plain_front long_memory long_cc "[tlv.Proprietary [0xAA, 0xBB, 0xCC]]" "[]"
  by unfold_locales
    (simp_all add: long_cc_facts long_cc_in ndef_bytes_def length_field_def,
      simp_all add: long_memory_def upt_rec_numeral)

lemma long_in_step:
  "tag_in_step tag_memory active_sector 255 long_reader" "tag_memory (transceiver long_reader) = long_memory"
  by (simp_all add: reader_new_in_step) (simp add: reader_new_def)

lemma long_in_reach: "write_in_reach 255 heapless_build long_memory"
  by (rule long.write_in_reach_front [OF builds_ok(1)]) (simp add: long_cc_facts)

text \<open>The message alone takes up the whole buffer; with the five bytes in front it is too long.\<close>

lemma long_write:
  obtains r1 where "write_ndef flawless heapless_build long_data long_reader = (Ok (), r1)"
proof -
  have "2032 \<le> length (usable_addrs (layout_of long_cc long.blocks))"
    using arg_cong [OF plain_area(3) [OF long.no_control, of long_cc], of length]
    by (simp add: long_cc_facts)
  then have "\<exists>p. write_check heapless_build long_memory long_data = Ok p"
    by (subst write_check_Ok_iff [OF builds_ok(1) long_cc_in long.blocks_in_plain [OF builds_ok(1)]])
      (simp_all add: long_cc_facts long.offset_plain long_data_def message_end_def l_field_size_def
        length_field_def DATA_VEC_CAP_def)
  then obtain p where "write_check heapless_build (tag_memory (transceiver long_reader)) long_data = Ok p"
    unfolding long_in_step(2) by blast
  then show thesis
    using flawless_tag.write_ndef_accepted_at [OF builds_ok(1) _ refl long_in_step(1)] long_in_reach that
    unfolding long_in_step(2) by blast
qed

lemma long_buffers: "\<not> buffers_suffice heapless_build long.blocks (length long_data)"
  unfolding buffers_suffice_def long.before_ndef_plain Let_def
  by (simp add: message_end_def l_field_size_def long_data_def length_field_def DATA_VEC_CAP_def)

end
