(* ===== verification/Unit_Tests_Codec.thy ===== *)
theory Unit_Tests_Codec
  imports Layout
begin

text \<open>
  The unit tests of \<open>src/src/tlv.rs\<close>, \<open>src/src/type2/mod.rs\<close>, \<open>src/src/type2/cc.rs\<close> and
  \<open>src/src/type2/tlv.rs\<close>, one definition per test function, and the proof that the model passes
  them with every build. A test is a truth value: \<open>True\<close> when no assertion fails and nothing
  panics. A test that uses a buffer takes the build as its argument.
\<close>

section \<open>Assertions\<close>

text \<open>\<open>unwrap()\<close>: the test goes on with the value, and fails on an error or a panic.\<close>

fun unwrapped :: "('e, 'a) res \<Rightarrow> ('a \<Rightarrow> bool) \<Rightarrow> bool" where
  "unwrapped (Ok x) f = f x"
| "unwrapped (Err e) f = False"
| "unwrapped Panic f = False"

text \<open>The same for an operation, whose state the rest of the test goes on with.\<close>

definition unwrapped_op :: "('e, 'a) res \<times> 's \<Rightarrow> ('a \<Rightarrow> 's \<Rightarrow> bool) \<Rightarrow> bool" where
  "unwrapped_op y f = unwrapped (fst y) (\<lambda>x. f x (snd y))"

text \<open>\<open>if let Ok(x) = ...\<close>: an error is fine, a panic is not.\<close>

fun if_ok :: "('e, 'a) res \<Rightarrow> ('a \<Rightarrow> bool) \<Rightarrow> bool" where
  "if_ok (Ok x) f = f x"
| "if_ok (Err e) f = True"
| "if_ok Panic f = False"

lemma unwrapped_op_simps [simp]:
  "unwrapped_op (Ok x, s) f = f x s" "unwrapped_op (Err e, s) f = False" "unwrapped_op (Panic, s) f = False"
  by (simp_all add: unwrapped_op_def)

section \<open>The length field\<close>

definition test_parse_one_byte_length :: bool where
  "test_parse_one_byte_length =
     unwrapped (parse_tlv_length [0x03] 0) (\<lambda>(len, consumed). len = 3 \<and> consumed = 1)"

definition test_parse_zero_length :: bool where
  "test_parse_zero_length =
     unwrapped (parse_tlv_length [0x00] 0) (\<lambda>(len, consumed). len = 0 \<and> consumed = 1)"

definition test_parse_max_one_byte_length :: bool where
  "test_parse_max_one_byte_length =
     unwrapped (parse_tlv_length [0xFE] 0) (\<lambda>(len, consumed). len = 254 \<and> consumed = 1)"

definition test_parse_three_byte_length :: bool where
  "test_parse_three_byte_length =
     unwrapped (parse_tlv_length [0xFF, 0x01, 0x00] 0) (\<lambda>(len, consumed). len = 256 \<and> consumed = 3)"

definition test_parse_three_byte_length_min :: bool where
  "test_parse_three_byte_length_min =
     unwrapped (parse_tlv_length [0xFF, 0x00, 0xFF] 0) (\<lambda>(len, consumed). len = 255 \<and> consumed = 3)"

definition test_parse_with_offset :: bool where
  "test_parse_with_offset =
     unwrapped (parse_tlv_length [0xAA, 0xBB, 0x42] 2) (\<lambda>(len, consumed). len = 0x42 \<and> consumed = 1)"

definition test_parse_truncated_three_byte :: bool where
  "test_parse_truncated_three_byte \<longleftrightarrow> parse_tlv_length [0xFF, 0x01] 0 = Err tlv_error.InvalidTlv"

definition test_parse_empty :: bool where
  "test_parse_empty \<longleftrightarrow> parse_tlv_length [] 0 = Err tlv_error.InvalidTlv"

definition test_encode_short_length :: "build \<Rightarrow> bool" where
  "test_encode_short_length B =
     unwrapped_op (encode_tlv_length (bytes_lib B) 42 []) (\<lambda>_ out. out = [42])"

definition test_encode_long_length :: "build \<Rightarrow> bool" where
  "test_encode_long_length B =
     unwrapped_op (encode_tlv_length (bytes_lib B) 256 []) (\<lambda>_ out. out = [0xFF, 0x01, 0x00])"

definition test_encode_boundary_254 :: "build \<Rightarrow> bool" where
  "test_encode_boundary_254 B =
     unwrapped_op (encode_tlv_length (bytes_lib B) 254 []) (\<lambda>_ out. out = [0xFE])"

definition test_encode_boundary_255 :: "build \<Rightarrow> bool" where
  "test_encode_boundary_255 B =
     unwrapped_op (encode_tlv_length (bytes_lib B) 255 []) (\<lambda>_ out. out = [0xFF, 0x00, 0xFF])"

definition test_encode_rejects_reserved_length :: "build \<Rightarrow> bool" where
  "test_encode_rejects_reserved_length B \<longleftrightarrow>
     unwrapped_op (encode_tlv_length (bytes_lib B) MAX_TLV_LENGTH []) (\<lambda>_ out. out = [0xFF, 0xFF, 0xFE]) \<and>
     encode_tlv_length (bytes_lib B) 0xFFFF [] = (Err tlv_error.InvalidTlv, [])"

section \<open>Commands and answers\<close>

definition test_read_command_serialization :: "build \<Rightarrow> bool" where
  "test_read_command_serialization B \<longleftrightarrow> command_to_bytes (bytes_lib B) (Read 0x03) = [0x30, 0x03]"

definition test_write_command_serialization :: "build \<Rightarrow> bool" where
  "test_write_command_serialization B \<longleftrightarrow>
     command_to_bytes (bytes_lib B) (Write 0x04 (0x03, 0x00, 0xFE, 0x00)) =
       [0xA2, 0x04, 0x03, 0x00, 0xFE, 0x00]"

definition test_sector_select_p1_serialization :: "build \<Rightarrow> bool" where
  "test_sector_select_p1_serialization B \<longleftrightarrow>
     command_to_bytes (bytes_lib B) SectorSelectPart1 = [0xC2, 0xFF]"

definition test_sector_select_p2_serialization :: "build \<Rightarrow> bool" where
  "test_sector_select_p2_serialization B \<longleftrightarrow>
     command_to_bytes (bytes_lib B) (SectorSelectPart2 0x01) = [0x01, 0x00, 0x00, 0x00]"

definition test_parse_read_response :: bool where
  "test_parse_read_response =
     (let raw = [0xE1, 0x10, 0x06, 0x00, 0x03, 0x00, 0xFE, 0x00, 0x00, 0x00, 0x00, 0x00, 0x00, 0x00, 0x00, 0x00]
      in unwrapped (parse_answer (Read 0x03) raw) (\<lambda>answer. answer = Data raw))"

definition test_parse_ack_response :: bool where
  "test_parse_ack_response =
     unwrapped (parse_answer (Write 0x04 (0, 0, 0, 0)) [0x0A]) (\<lambda>answer. answer = Ack)"

definition test_parse_nack_response :: bool where
  "test_parse_nack_response =
     unwrapped (parse_answer (Write 0x04 (0, 0, 0, 0)) [0x00]) (\<lambda>answer. answer = Nack 0x00)"

definition test_parse_passive_ack :: bool where
  "test_parse_passive_ack =
     unwrapped (parse_answer (SectorSelectPart2 1) []) (\<lambda>answer. answer = PassiveAck)"

definition test_roundtrip_read_command :: "build \<Rightarrow> bool" where
  "test_roundtrip_read_command B =
     (let cmd = Read 0x10; bytes = command_to_bytes (bytes_lib B) cmd
      in unwrapped (command_try_from bytes) (\<lambda>parsed. parsed = cmd))"

definition test_roundtrip_write_command :: "build \<Rightarrow> bool" where
  "test_roundtrip_write_command B =
     (let cmd = Write 0x05 (0xDE, 0xAD, 0xBE, 0xEF); bytes = command_to_bytes (bytes_lib B) cmd
      in unwrapped (command_try_from bytes) (\<lambda>parsed. parsed = cmd))"

definition test_roundtrip_sector_select_p1 :: "build \<Rightarrow> bool" where
  "test_roundtrip_sector_select_p1 B =
     (let cmd = SectorSelectPart1; bytes = command_to_bytes (bytes_lib B) cmd
      in unwrapped (command_try_from bytes) (\<lambda>parsed. parsed = cmd))"

section \<open>The Capability Container\<close>

definition test_parse_static_cc :: bool where
  "test_parse_static_cc =
     unwrapped (cc_try_from (0xE1, 0x10, 0x06, 0x00)) (\<lambda>cc.
       version_major cc = 1 \<and> version_minor cc = 0 \<and> size_field cc = 0x06 \<and>
       cc_data_area_size cc = 48 \<and> \<not> is_dynamic cc \<and>
       read_access cc = Granted \<and> write_access cc = Granted)"

definition test_parse_dynamic_cc :: bool where
  "test_parse_dynamic_cc =
     unwrapped (cc_try_from (0xE1, 0x10, 0x0C, 0x00)) (\<lambda>cc.
       cc_data_area_size cc = 96 \<and> is_dynamic cc)"

definition test_parse_readonly_cc :: bool where
  "test_parse_readonly_cc =
     unwrapped (cc_try_from (0xE1, 0x10, 0x06, 0x0F)) (\<lambda>cc.
       read_access cc = Granted \<and> write_access cc = Denied)"

definition test_reject_bad_magic :: bool where
  "test_reject_bad_magic \<longleftrightarrow> cc_try_from (0x00, 0x10, 0x06, 0x00) = Err (InvalidMagic 0x00)"

definition test_reject_higher_major_version :: bool where
  "test_reject_higher_major_version \<longleftrightarrow>
     cc_try_from (0xE1, 0x20, 0x06, 0x00) = Err (UnsupportedVersion 2 0)"

definition test_roundtrip_cc :: bool where
  "test_roundtrip_cc =
     (let cc = \<lparr>version_major = 1, version_minor = 0, size_field = 0x10,
                read_access = Granted, write_access = Granted\<rparr>;
          bytes = cc_to_bytes cc
      in bytes = (0xE1, 0x10, 0x10, 0x00) \<and> unwrapped (cc_try_from bytes) (\<lambda>parsed. parsed = cc))"

definition test_tag_state_initialized :: bool where
  "test_tag_state_initialized =
     unwrapped (cc_try_from (0xE1, 0x10, 0x06, 0x00)) (\<lambda>cc. cc_tag_state cc 0 = Some Initialized)"

definition test_tag_state_readwrite :: bool where
  "test_tag_state_readwrite =
     unwrapped (cc_try_from (0xE1, 0x10, 0x06, 0x00)) (\<lambda>cc. cc_tag_state cc 3 = Some ReadWrite)"

definition test_tag_state_readonly :: bool where
  "test_tag_state_readonly =
     unwrapped (cc_try_from (0xE1, 0x10, 0x06, 0x0F)) (\<lambda>cc. cc_tag_state cc 3 = Some ReadOnlyState)"

section \<open>TLV blocks\<close>

abbreviation parse_tlvs_of :: "build \<Rightarrow> u8 list \<Rightarrow> (type2_error, tlv list) res" where
  "parse_tlvs_of B \<equiv> parse_tlvs (bytes_lib B) (tlv_lib B)"

definition test_parse_static_tag_tlvs :: "build \<Rightarrow> bool" where
  "test_parse_static_tag_tlvs B =
     unwrapped (parse_tlvs_of B [0x03, 0x00, 0xFE]) (\<lambda>tlvs.
       length tlvs = 2 \<and> tlvs ! 0 = NdefMessage [] \<and> tlvs ! 1 = Terminator)"

definition test_parse_static_tag_with_ndef :: "build \<Rightarrow> bool" where
  "test_parse_static_tag_with_ndef B =
     unwrapped (parse_tlvs_of B [0x03, 0x03, 0xD0, 0x00, 0x00, 0xFE]) (\<lambda>tlvs.
       let expected_ndef = snd (try_extend (bytes_lib B) DATA_VEC_CAP [0xD0, 0x00, 0x00] []) in
       length tlvs = 2 \<and> tlvs ! 0 = NdefMessage expected_ndef \<and> tlvs ! 1 = Terminator)"

definition test_parse_dynamic_tag_tlvs :: "build \<Rightarrow> bool" where
  "test_parse_dynamic_tag_tlvs B =
     unwrapped (parse_tlvs_of B
       [0x01, 0x03, 0xE0, 0x06, 0x33, 0x02, 0x03, 0xE1, 0x0F, 0x03, 0x03, 0x00, 0xFE]) (\<lambda>tlvs.
       length tlvs = 4 \<and>
       (case tlvs ! 0 of
          LockControl lc \<Rightarrow> lc_page_addr lc = 0x0E \<and> lc_byte_offset lc = 0x00 \<and> lc_size_in_bits lc = 6 \<and>
            lc_bytes_per_page lc = 3 \<and> lc_bytes_locked_per_bit lc = 3 \<and>
            (lc_byte_address lc :: (type2_error, u32) res) = Ok 112
        | _ \<Rightarrow> False) \<and>
       (case tlvs ! 1 of
          MemoryControl mc \<Rightarrow> mc_page_addr mc = 0x0E \<and> mc_byte_offset mc = 0x01 \<and> mc_size_in_bytes mc = 15 \<and>
            mc_bytes_per_page mc = 3 \<and> (mc_byte_address mc :: (type2_error, u32) res) = Ok 113
        | _ \<Rightarrow> False) \<and>
       tlvs ! 2 = NdefMessage [] \<and> tlvs ! 3 = Terminator)"

definition test_null_tlv_padding :: "build \<Rightarrow> bool" where
  "test_null_tlv_padding B =
     unwrapped (parse_tlvs_of B [0x00, 0x00, 0x03, 0x00, 0xFE]) (\<lambda>tlvs.
       length tlvs = 4 \<and> tlvs ! 0 = Null \<and> tlvs ! 1 = Null \<and> tlvs ! 2 = NdefMessage [] \<and>
       tlvs ! 3 = Terminator)"

definition test_skip_unknown_tlv :: "build \<Rightarrow> bool" where
  "test_skip_unknown_tlv B =
     unwrapped (parse_tlvs_of B [0x04, 0x02, 0xAA, 0xBB, 0xFE]) (\<lambda>tlvs.
       length tlvs = 1 \<and> tlvs ! 0 = Terminator)"

definition test_three_byte_length_format :: "build \<Rightarrow> bool" where
  "test_three_byte_length_format B =
     (let data = (replicate (4 + 256 + 1) 0)[0 := 0x03, 1 := 0xFF, 2 := 0x01, 3 := 0x00];
          data = take 4 data @ replicate (260 - 4) 0xAA @ drop 260 data;
          data = data[260 := 0xFE]
      in unwrapped (parse_tlvs_of B data) (\<lambda>tlvs.
        length tlvs = 2 \<and> value_length (tlvs ! 0) = Ok 256 \<and> tlvs ! 1 = Terminator))"

definition test_roundtrip_lock_control_value :: bool where
  "test_roundtrip_lock_control_value =
     (let lc = \<lparr>lc_page_addr = 0x0E, lc_byte_offset = 0x00, lc_size_in_bits = 6,
                lc_bytes_per_page = 3, lc_bytes_locked_per_bit = 3\<rparr>;
          bytes = lc_to_bytes lc
      in bytes = (0xE0, 0x06, 0x33) \<and> unwrapped (lc_from_bytes bytes) (\<lambda>parsed. parsed = lc))"

definition test_roundtrip_memory_control_value :: bool where
  "test_roundtrip_memory_control_value =
     (let mc = \<lparr>mc_page_addr = 0x0E, mc_byte_offset = 0x01, mc_size_in_bytes = 15,
                mc_bytes_per_page = 3\<rparr>;
          bytes = mc_to_bytes mc
      in bytes = (0xE1, 0x0F, 0x03) \<and> unwrapped (mc_from_bytes bytes) (\<lambda>parsed. parsed = mc))"

definition test_roundtrip_ndef_tlv :: "build \<Rightarrow> bool" where
  "test_roundtrip_ndef_tlv B =
     (let ndef_data = snd (try_extend (bytes_lib B) DATA_VEC_CAP [0xD0, 0x00, 0x00] []);
          t = NdefMessage ndef_data
      in unwrapped (tlv_to_bytes (bytes_lib B) t) (\<lambda>bytes.
        bytes = [0x03, 0x03, 0xD0, 0x00, 0x00] \<and>
        unwrapped (parse_tlvs_of B bytes) (\<lambda>parsed. length parsed = 1 \<and> parsed ! 0 = t)))"

definition test_demonstrated_lock_control_tlv_is_rejected :: "build \<Rightarrow> bool" where
  "test_demonstrated_lock_control_tlv_is_rejected B \<longleftrightarrow>
     lc_from_bytes (0xF0, 0x08, 0x1F) = Err type2_error.InvalidTlv \<and>
     parse_tlvs_of B [0x01, 0x03, 0xF0, 0x08, 0x1F, 0xFE] = Err type2_error.InvalidTlv"

definition test_in_range_control_tlvs_still_accepted :: bool where
  "test_in_range_control_tlvs_still_accepted \<longleftrightarrow>
     unwrapped (lc_from_bytes (0x70, 0x08, 0x3F)) (\<lambda>lc.
       (lc_byte_address lc :: (type2_error, u32) res) = Ok 229376) \<and>
     unwrapped (lc_from_bytes (0xE0, 0x06, 0x33)) (\<lambda>lc.
       (lc_byte_address lc :: (type2_error, u32) res) = Ok 112) \<and>
     unwrapped (mc_from_bytes (0xE1, 0x0F, 0x03)) (\<lambda>mc.
       (mc_byte_address mc :: (type2_error, u32) res) = Ok 113)"

text \<open>The bytes of a loop \<open>for x in 0u8..n\<close>.\<close>

definition u8_range :: "nat \<Rightarrow> u8 list" where
  "u8_range n = map of_nat [0 ..< n]"

definition test_all_exponent_combinations_are_safe :: bool where
  "test_all_exponent_combinations_are_safe =
     list_all (\<lambda>page_addr. list_all (\<lambda>byte_offset.
       let b0 = push_bit 4 page_addr OR byte_offset in
       list_all (\<lambda>size. list_all (\<lambda>bytes_per_page. list_all (\<lambda>locked_per_bit.
         let b2 = push_bit 4 locked_per_bit OR bytes_per_page in
         if_ok (lc_from_bytes (b0, size, b2)) (\<lambda>lc.
           unwrapped (res_bind (lc_byte_address lc) (\<lambda>a. add_chk a (ucast (lc_lock_byte_count lc)))
               :: (type2_error, u32) res)
             (\<lambda>end_addr. end_addr \<le> ADDRESS_SPACE_END)) \<and>
         if_ok (mc_from_bytes (b0, size, b2)) (\<lambda>mc.
           unwrapped (res_bind (mc_byte_address mc) (\<lambda>a. add_chk a (ucast (mc_size_in_bytes mc)))
               :: (type2_error, u32) res)
             (\<lambda>end_addr. end_addr \<le> ADDRESS_SPACE_END)))
         (u8_range 16)) (u8_range 16)) [0x00, 0x01, 0x08, 0x80, 0xFF])
       (u8_range 16)) (u8_range 16)"

text \<open>\<open>value_of\<close>: \<open>n\<close> bytes pushed one by one, or \<open>None\<close> when the buffer is too small.\<close>

fun push_values :: "u8 vec_lib \<Rightarrow> nat \<Rightarrow> u8 list \<Rightarrow> u8 list option" where
  "push_values bl 0 v = Some v"
| "push_values bl (Suc n) v =
     (case try_push bl DATA_VEC_CAP 0xAB v of
        (Ok _, v') \<Rightarrow> push_values bl n v'
      | _ \<Rightarrow> None)"

definition value_of :: "u8 vec_lib \<Rightarrow> nat \<Rightarrow> u8 list option" where
  "value_of bl n = push_values bl n []"

definition test_serializer_rejects_oversized_values :: "build \<Rightarrow> bool" where
  "test_serializer_rejects_oversized_values B =
     list_all (\<lambda>len. case value_of (bytes_lib B) len of
         None \<Rightarrow> True
       | Some data \<Rightarrow> list_all (\<lambda>t. value_length t = Err OutOfRange \<and>
           tlv_to_bytes (bytes_lib B) t = Err OutOfRange) [NdefMessage data, tlv.Proprietary data])
       [0xFFFF, 0x10000, 0x20000]"

definition test_serializer_accepts_max_representable_value :: "build \<Rightarrow> bool" where
  "test_serializer_accepts_max_representable_value B =
     (case value_of (bytes_lib B) (unat MAX_TLV_LENGTH) of
        None \<Rightarrow> True
      | Some data \<Rightarrow>
          let t = NdefMessage data in
          value_length t = Ok MAX_TLV_LENGTH \<and>
          unwrapped (tlv_to_bytes (bytes_lib B) t) (\<lambda>bytes.
            take 4 bytes = [TLV_NDEF_MESSAGE, 0xFF, 0xFF, 0xFE] \<and>
            length bytes = 4 + unat MAX_TLV_LENGTH))"

section \<open>The model passes the tests\<close>

lemma parse_length_tests:
  "test_parse_one_byte_length" "test_parse_zero_length" "test_parse_max_one_byte_length"
  "test_parse_three_byte_length" "test_parse_three_byte_length_min" "test_parse_with_offset"
  "test_parse_truncated_three_byte" "test_parse_empty"
  by (simp_all add: test_parse_one_byte_length_def test_parse_zero_length_def
      test_parse_max_one_byte_length_def test_parse_three_byte_length_def
      test_parse_three_byte_length_min_def test_parse_with_offset_def
      test_parse_truncated_three_byte_def test_parse_empty_def parse_tlv_length_def u16_from_be_bytes_def)

lemma encode_length_tests:
  assumes "build_ok B"
  shows "test_encode_short_length B" "test_encode_long_length B" "test_encode_boundary_254 B"
    "test_encode_boundary_255 B" "test_encode_rejects_reserved_length B"
  using build_okD(1) [OF assms]
  by (simp_all add: test_encode_short_length_def test_encode_long_length_def test_encode_boundary_254_def
      test_encode_boundary_255_def test_encode_rejects_reserved_length_def encode_tlv_length_eq
      MAX_TLV_LENGTH_def length_field_def u16_to_be_bytes_def vec_fits_le DATA_VEC_CAP_def)
    (simp add: encode_tlv_length_def op_fail_def MAX_TLV_LENGTH_def)

lemma command_tests:
  assumes "build_ok B"
  shows "test_read_command_serialization B" "test_write_command_serialization B"
    "test_sector_select_p1_serialization B" "test_sector_select_p2_serialization B"
    "test_roundtrip_read_command B" "test_roundtrip_write_command B" "test_roundtrip_sector_select_p1 B"
  using command_to_bytes_wire [OF build_okD(1) [OF assms]]
  by (simp_all add: test_read_command_serialization_def test_write_command_serialization_def
      test_sector_select_p1_serialization_def test_sector_select_p2_serialization_def
      test_roundtrip_read_command_def test_roundtrip_write_command_def
      test_roundtrip_sector_select_p1_def command_try_from_def command_codes)

lemma answer_tests:
  "test_parse_read_response" "test_parse_ack_response" "test_parse_nack_response" "test_parse_passive_ack"
  by (simp_all add: test_parse_read_response_def test_parse_ack_response_def test_parse_nack_response_def
      test_parse_passive_ack_def parse_ack_def ACK_def)

lemma cc_tests:
  "test_parse_static_cc" "test_parse_dynamic_cc" "test_parse_readonly_cc" "test_reject_bad_magic"
  "test_reject_higher_major_version" "test_roundtrip_cc" "test_tag_state_initialized"
  "test_tag_state_readwrite" "test_tag_state_readonly"
  by (simp_all add: test_parse_static_cc_def test_parse_dynamic_cc_def test_parse_readonly_cc_def
      test_reject_bad_magic_def test_reject_higher_major_version_def test_roundtrip_cc_def
      test_tag_state_initialized_def test_tag_state_readwrite_def test_tag_state_readonly_def
      CC_MAGIC_def SUPPORTED_MAJOR_VERSION_def from_nibble_def cc_data_area_size_def is_dynamic_def
      cc_to_bytes_def cc_tag_state_def is_valid_def)

lemma parse_blocks_tests:
  assumes "build_ok B"
  shows "test_parse_static_tag_tlvs B" "test_parse_static_tag_with_ndef B" "test_parse_dynamic_tag_tlvs B"
    "test_null_tlv_padding B" "test_skip_unknown_tlv B"
  using build_okD(1,2) [OF assms]
  by (simp_all add: test_parse_static_tag_tlvs_def test_parse_static_tag_with_ndef_def
      test_parse_dynamic_tag_tlvs_def test_null_tlv_padding_def test_skip_unknown_tlv_def eval_blocks)

lemma descriptor_tests:
  "test_roundtrip_lock_control_value" "test_roundtrip_memory_control_value"
  "test_in_range_control_tlvs_still_accepted"
  by (simp_all add: test_roundtrip_lock_control_value_def test_roundtrip_memory_control_value_def
      test_in_range_control_tlvs_still_accepted_def lc_to_bytes_def mc_to_bytes_def eval_blocks)

lemma rejected_descriptor_test:
  assumes "build_ok B"
  shows "test_demonstrated_lock_control_tlv_is_rejected B"
  using build_okD(1,2) [OF assms]
  by (simp add: test_demonstrated_lock_control_tlv_is_rejected_def eval_blocks)

lemma ndef_block_test:
  assumes "build_ok B"
  shows "test_roundtrip_ndef_tlv B"
  using build_okD(1,2) [OF assms]
  by (simp add: test_roundtrip_ndef_tlv_def tlv_to_bytes_def checked_value_length_def op_lift_def
      t2_encode_tlv_length_def encode_tlv_length_def MAX_TLV_LENGTH_def eval_blocks)

lemma three_byte_length_test:
  assumes "build_ok B"
  shows "test_three_byte_length_format B"
proof -
  define v where "v = replicate 256 (0xAA :: u8)"
  let ?head = "[0x03, 0xFF, 0x01, 0x00] :: u8 list"
  have "replicate (4 + 256 + 1) (0 :: u8) = replicate 4 0 @ replicate 256 0 @ [0]"
    by (simp only: replicate_add append_assoc) simp
  also have "\<dots> = [0, 0, 0, 0] @ replicate 256 0 @ [0]"
    by (simp add: numeral_eq_Suc)
  finally have start: "(replicate (4 + 256 + 1) 0)[0 := 0x03, 1 := 0xFF, 2 := 0x01, 3 := 0x00] =
      ?head @ replicate 256 (0 :: u8) @ [0]"
    by (simp add: numeral_3_eq_3 numeral_2_eq_2)
  have fill: "take 4 xs @ replicate (260 - 4) 0xAA @ drop 260 xs = ?head @ v @ [0]"
    if "xs = ?head @ replicate 256 0 @ [0]" for xs
    by (simp add: that v_def)
  have last: "(?head @ v @ [0])[260 := 0xFE] = tlv_bytes (NdefMessage v) @ [0xFE]"
    using list_update_length [of "?head @ v" 0 "[]" "0xFE"]
    by (simp add: v_def length_field_def u16_to_be_bytes_def)
  have "tlv_stream (concat (map tlv_bytes [NdefMessage v]) @ [0xFE]) ([NdefMessage v] @ [Terminator])"
    by (rule tlv_stream_serialized) (simp_all add: v_def tlv_stream.stop)
  then have "parse_tlvs_of B (tlv_bytes (NdefMessage v) @ [0xFE]) = Ok [NdefMessage v, Terminator]"
    using build_okD(1,2) [OF assms]
    by (simp add: parse_tlvs_iff vec_fits_le v_def DATA_VEC_CAP_def TLV_VEC_CAP_def)
  then show ?thesis
    unfolding test_three_byte_length_format_def Let_def start fill [OF refl] last
    by (simp add: checked_value_length_eq v_def)
qed

lemma descriptor_end:
  fixes a :: u32 and k :: u16
  assumes "unat a + unat k \<le> 261120"
  shows "unwrapped (add_chk a (ucast k) :: (type2_error, u32) res) (\<lambda>e. e \<le> ADDRESS_SPACE_END)"
  using assms by (simp add: add_chk_def checked_defs geometry word_le_nat_alt unat_word_ariths)

lemma exponent_combinations_test: "test_all_exponent_combinations_are_safe"
proof -
  have lc: "if_ok (lc_from_bytes bs) (\<lambda>lc.
      unwrapped (res_bind (lc_byte_address lc) (\<lambda>a. add_chk a (ucast (lc_lock_byte_count lc)))
        :: (type2_error, u32) res) (\<lambda>end_addr. end_addr \<le> ADDRESS_SPACE_END))" for bs
  proof (cases "lc_from_bytes bs")
    case (Ok v)
    obtain a where "lc_byte_address v = (Ok a :: (type2_error, u32) res)"
      "unat a + unat (lc_lock_byte_count v) \<le> 261120"
      by (rule lc_wf_address [OF lc_from_bytes_wf [OF Ok]])
    with Ok show ?thesis by (simp add: descriptor_end)
  qed (simp_all add: lc_from_bytes_no_Panic)
  have mc: "if_ok (mc_from_bytes bs) (\<lambda>mc.
      unwrapped (res_bind (mc_byte_address mc) (\<lambda>a. add_chk a (ucast (mc_size_in_bytes mc)))
        :: (type2_error, u32) res) (\<lambda>end_addr. end_addr \<le> ADDRESS_SPACE_END))" for bs
  proof (cases "mc_from_bytes bs")
    case (Ok v)
    obtain a where "mc_byte_address v = (Ok a :: (type2_error, u32) res)"
      "unat a + unat (mc_size_in_bytes v) \<le> 261120"
      by (rule mc_wf_address [OF mc_from_bytes_wf [OF Ok]])
    with Ok show ?thesis by (simp add: descriptor_end)
  qed (simp_all add: mc_from_bytes_no_Panic)
  show ?thesis
    unfolding test_all_exponent_combinations_are_safe_def Let_def
    by (simp only: lc mc list.pred_True simp_thms)
qed

lemma push_values_eq:
  assumes "vec_lib_ok bl" and "vec_fits bl DATA_VEC_CAP (length v)"
  shows "push_values bl n v =
    (if vec_fits bl DATA_VEC_CAP (length v + n) then Some (v @ replicate n 0xAB) else None)"
  using assms(2)
proof (induction n arbitrary: v)
  case (Suc n)
  then show ?case
    using vec_fits_mono [OF assms(1), of DATA_VEC_CAP "length v + Suc n" "Suc (length v)"]
    by (auto simp: try_push_eq [OF assms(1)])
qed simp

lemma value_of_eq:
  assumes "vec_lib_ok bl"
  shows "value_of bl n = (if vec_fits bl DATA_VEC_CAP n then Some (replicate n 0xAB) else None)"
  using push_values_eq [OF assms, of "[]" n] by (simp add: value_of_def vec_fits_le)

lemma serializer_tests:
  assumes "build_ok B"
  shows "test_serializer_rejects_oversized_values B" "test_serializer_accepts_max_representable_value B"
proof -
  note ok = build_okD(1) [OF assms]
  have "value_length t = Err OutOfRange \<and> tlv_to_bytes bl t = Err OutOfRange"
    if "t \<in> {NdefMessage data, tlv.Proprietary data}" "0xFFFE < length data" for t data bl
    using that by (auto simp: checked_value_length_eq tlv_to_bytes_def fill_new_def op_bind_def op_lift_def)
  then show "test_serializer_rejects_oversized_values B"
    by (simp add: test_serializer_rejects_oversized_values_def value_of_eq [OF ok] checked_value_length_eq)
  let ?v = "replicate 0xFFFE (0xAB :: u8)"
  have max: "unat MAX_TLV_LENGTH = 0xFFFE" "of_nat 0xFFFE = MAX_TLV_LENGTH"
    by (simp_all add: MAX_TLV_LENGTH_def)
  show "test_serializer_accepts_max_representable_value B"
  proof (cases "bytes_lib B")
    case Alloc
    have "tlv_to_bytes Alloc (NdefMessage ?v) = Ok (tlv_bytes (NdefMessage ?v))"
      by (simp add: tlv_to_bytes_Ok_iff)
    then show ?thesis
      by (simp add: test_serializer_accepts_max_representable_value_def value_of_eq max Alloc
          checked_value_length_eq length_field_def u16_to_be_bytes_def MAX_TLV_LENGTH_def TLV_NDEF_MESSAGE_def)
  next
    case (Heapless push extend)
    then show ?thesis
      using ok by (simp add: test_serializer_accepts_max_representable_value_def value_of_eq max DATA_VEC_CAP_def)
  qed
qed

section \<open>All tests\<close>

text \<open>
  Every unit test of the codecs passes, with every build: the tests of the length field, of the
  commands and answers, of the Capability Container and of the TLV blocks, among them the rejection of
  control descriptors outside the address space and of values that the length field cannot express.
\<close>

lemma codec_tests_pass:
  assumes "build_ok B"
  shows "test_parse_one_byte_length \<and> test_parse_zero_length \<and>
    test_parse_max_one_byte_length \<and> test_parse_three_byte_length \<and>
    test_parse_three_byte_length_min \<and> test_parse_with_offset \<and>
    test_parse_truncated_three_byte \<and> test_parse_empty \<and>
    test_encode_short_length B \<and> test_encode_long_length B \<and>
    test_encode_boundary_254 B \<and> test_encode_boundary_255 B \<and>
    test_encode_rejects_reserved_length B \<and> test_read_command_serialization B \<and>
    test_write_command_serialization B \<and> test_sector_select_p1_serialization B \<and>
    test_sector_select_p2_serialization B \<and> test_parse_read_response \<and>
    test_parse_ack_response \<and> test_parse_nack_response \<and> test_parse_passive_ack \<and>
    test_roundtrip_read_command B \<and> test_roundtrip_write_command B \<and>
    test_roundtrip_sector_select_p1 B \<and> test_parse_static_cc \<and>
    test_parse_dynamic_cc \<and> test_parse_readonly_cc \<and> test_reject_bad_magic \<and>
    test_reject_higher_major_version \<and> test_roundtrip_cc \<and>
    test_tag_state_initialized \<and> test_tag_state_readwrite \<and>
    test_tag_state_readonly \<and> test_parse_static_tag_tlvs B \<and>
    test_parse_static_tag_with_ndef B \<and> test_parse_dynamic_tag_tlvs B \<and>
    test_null_tlv_padding B \<and> test_skip_unknown_tlv B \<and>
    test_three_byte_length_format B \<and> test_roundtrip_lock_control_value \<and>
    test_roundtrip_memory_control_value \<and> test_roundtrip_ndef_tlv B \<and>
    test_demonstrated_lock_control_tlv_is_rejected B \<and>
    test_in_range_control_tlvs_still_accepted \<and>
    test_all_exponent_combinations_are_safe \<and>
    test_serializer_rejects_oversized_values B \<and>
    test_serializer_accepts_max_representable_value B"
  by (intro conjI parse_length_tests encode_length_tests command_tests answer_tests cc_tests
      parse_blocks_tests descriptor_tests rejected_descriptor_test ndef_block_test
      three_byte_length_test exponent_combinations_test serializer_tests assms)

end
