(* ===== verification/Unit_Tests_Memory.thy ===== *)
theory Unit_Tests_Memory
  imports Unit_Tests_Codec Evaluate
begin

text \<open>
  The unit tests of \<open>src/src/type2/memory.rs\<close>, one definition per test function, and the proof that
  the model passes them with every build.
\<close>

section \<open>The tests\<close>

text \<open>The constructor of a layout, with its error type fixed: it can only panic.\<close>

abbreviation layout_from :: "build \<Rightarrow> capability_container \<Rightarrow> tlv list \<Rightarrow> (type2_error, memory_layout) res" where
  "layout_from \<equiv> from_cc_and_tlvs"

definition test_static_layout :: "build \<Rightarrow> bool" where
  "test_static_layout B =
     unwrapped (cc_try_from (0xE1, 0x10, 0x06, 0x00)) (\<lambda>cc.
     unwrapped (layout_from B cc []) (\<lambda>layout.
       data_area_size layout = 48 \<and> lock_areas layout = [] \<and> reserved_areas layout = []))"

definition test_dynamic_layout_with_default_locks :: "build \<Rightarrow> bool" where
  "test_dynamic_layout_with_default_locks B =
     unwrapped (cc_try_from (0xE1, 0x10, 0x0C, 0x00)) (\<lambda>cc.
     unwrapped (layout_from B cc []) (\<lambda>layout.
       data_area_size layout = 96 \<and> length (lock_areas layout) = 1 \<and>
       (let lock = lock_areas layout ! 0 in la_byte_address lock = 112 \<and> la_size_in_bits lock = 6)))"

definition test_dynamic_layout_with_lock_control_tlv :: "build \<Rightarrow> bool" where
  "test_dynamic_layout_with_lock_control_tlv B =
     unwrapped (cc_try_from (0xE1, 0x10, 0x0C, 0x00)) (\<lambda>cc.
     let lc = \<lparr>lc_page_addr = 0x0E, lc_byte_offset = 0x00, lc_size_in_bits = 6,
               lc_bytes_per_page = 3, lc_bytes_locked_per_bit = 3\<rparr>
     in unwrapped (layout_from B cc [LockControl lc]) (\<lambda>layout.
       length (lock_areas layout) = 1 \<and> la_byte_address (lock_areas layout ! 0) = 112 \<and>
       la_bytes_per_lock_bit (lock_areas layout ! 0) = 8))"

definition test_address_conversion_roundtrip :: bool where
  "test_address_conversion_roundtrip =
     (case address_to_sector_block 113 of
        None \<Rightarrow> False
      | Some (s, block, offset) \<Rightarrow> s = 0 \<and> block = 28 \<and> offset = 1 \<and>
          sector_block_to_address s block offset = Some 113)"

definition test_address_conversion_spans_full_sector_range :: bool where
  "test_address_conversion_spans_full_sector_range \<longleftrightarrow>
     (case sector_block_to_address MAX_SECTOR 255 3 of
        None \<Rightarrow> False
      | Some addr \<Rightarrow> addr = ADDRESS_SPACE_END - 1 \<and>
          address_to_sector_block addr = Some (MAX_SECTOR, 255, 3)) \<and>
     sector_block_to_address 0xFF 0 0 = None \<and>
     address_to_sector_block ADDRESS_SPACE_END = None"

definition test_oversized_control_address_does_not_wrap :: bool where
  "test_oversized_control_address_does_not_wrap \<longleftrightarrow>
     (let lc = \<lparr>lc_page_addr = 7, lc_byte_offset = 0, lc_size_in_bits = 8,
                lc_bytes_per_page = 15, lc_bytes_locked_per_bit = 3\<rparr>
      in (lc_byte_address lc :: (type2_error, u32) res) = Ok 229376 \<and>
        unwrapped (from_lock_control lc :: (type2_error, lock_area) res) (\<lambda>area.
          la_byte_address area = 229376 \<and> \<not> la_contains area 32768 \<and> la_contains area 229376)) \<and>
     (let mc = \<lparr>mc_page_addr = 7, mc_byte_offset = 0, mc_size_in_bytes = 8, mc_bytes_per_page = 15\<rparr>
      in (mc_byte_address mc :: (type2_error, u32) res) = Ok 229376)"

text \<open>The values the test discards are computed by functions that cannot fail.\<close>

definition test_all_control_values_process_without_panic :: "build \<Rightarrow> bool" where
  "test_all_control_values_process_without_panic B =
     unwrapped (cc_try_from (0xE1, 0x10, 0x0C, 0x00)) (\<lambda>cc.
     list_all (\<lambda>b0. list_all (\<lambda>b1. list_all (\<lambda>b2.
       if_ok (lc_from_bytes (b0, b1, b2)) (\<lambda>lc.
         unwrapped (from_lock_control lc :: (type2_error, lock_area) res) (\<lambda>area.
           let _ = la_end_address area; _ = la_contains area 16
           in unwrapped (layout_from B cc [LockControl lc]) (\<lambda>_. True))) \<and>
       if_ok (mc_from_bytes (b0, b1, b2)) (\<lambda>mc.
         unwrapped (from_memory_control mc :: (type2_error, reserved_area) res) (\<lambda>area.
           let _ = ra_end_address area; _ = ra_contains area 16
           in unwrapped (layout_from B cc [MemoryControl mc]) (\<lambda>_. True))))
       (u8_range 256)) (u8_range 256)) (u8_range 256))"

definition test_usable_offset_maps_over_skip_areas :: "build \<Rightarrow> bool" where
  "test_usable_offset_maps_over_skip_areas B =
     unwrapped (cc_try_from (0xE1, 0x10, 0x0C, 0x00)) (\<lambda>cc.
     unwrapped (layout_from B cc []) (\<lambda>layout.
     unwrapped (index (lock_areas layout) 0 :: (type2_error, lock_area) res) (\<lambda>lock.
       la_byte_address lock = 112 \<and>
       usable_offset_to_address layout 0 = Some 16 \<and> usable_offset_to_address layout 95 = Some 111 \<and>
       usable_offset_to_address layout 96 = Some 113)))"

definition test_usable_offset_skips_reserved_area_before_ndef :: "build \<Rightarrow> bool" where
  "test_usable_offset_skips_reserved_area_before_ndef B =
     unwrapped (cc_try_from (0xE1, 0x10, 0x06, 0x00)) (\<lambda>cc.
     let mc = \<lparr>mc_page_addr = 0x05, mc_byte_offset = 0x00, mc_size_in_bytes = 4, mc_bytes_per_page = 2\<rparr>
     in unwrapped (layout_from B cc [MemoryControl mc]) (\<lambda>layout.
     unwrapped (index (reserved_areas layout) 0 :: (type2_error, reserved_area) res) (\<lambda>area.
       ra_byte_address area = 20 \<and>
       usable_offset_to_address layout 0 = Some 16 \<and> usable_offset_to_address layout 3 = Some 19 \<and>
       usable_offset_to_address layout 4 = Some 24)))"

definition test_skip_area_detection :: "build \<Rightarrow> bool" where
  "test_skip_area_detection B =
     unwrapped (cc_try_from (0xE1, 0x10, 0x0C, 0x00)) (\<lambda>cc.
     let lc = \<lparr>lc_page_addr = 0x0E, lc_byte_offset = 0x00, lc_size_in_bits = 6,
               lc_bytes_per_page = 3, lc_bytes_locked_per_bit = 3\<rparr>;
         mc = \<lparr>mc_page_addr = 0x0E, mc_byte_offset = 0x01, mc_size_in_bytes = 15, mc_bytes_per_page = 3\<rparr>
     in unwrapped (layout_from B cc [LockControl lc, MemoryControl mc]) (\<lambda>layout.
       is_skip_area layout 112 \<and> is_skip_area layout 113 \<and> is_skip_area layout 127 \<and>
       \<not> is_skip_area layout 128 \<and> \<not> is_skip_area layout 16))"

section \<open>The model passes the tests\<close>

lemma usable_offset_upto:
  assumes "h \<le> 261120" and "unat n < length (usable_in L 16 h)"
  shows "usable_offset_to_address L n = Some (of_nat (usable_in L 16 h ! unat n))"
proof -
  have "16 \<le> h"
    using assms(2) by (cases "16 \<le> h") simp_all
  then have "[16 ..< space_end] = [16 ..< h] @ [h ..< space_end]"
    using assms(1) by (metis upt_add_eq_append le_Suc_ex space_end_eq)
  then have "usable_addrs L = usable_in L 16 h @ usable_in L h space_end"
    by (simp add: usable_from_def del: upt_Suc)
  then show ?thesis
    using assms(2) by (simp add: usable_offset_to_address_eq nth_append del: upt_Suc)
qed

text \<open>The two Capability Containers of the tests.\<close>

lemma test_containers:
  "cc_try_from (0xE1, 0x10, 0x06, 0x00) = Ok \<lparr>version_major = 1, version_minor = 0, size_field = 6,
     read_access = Granted, write_access = Granted\<rparr>"
  "cc_try_from (0xE1, 0x10, 0x0C, 0x00) = Ok \<lparr>version_major = 1, version_minor = 0, size_field = 12,
     read_access = Granted, write_access = Granted\<rparr>"
  by (simp_all add: CC_MAGIC_def SUPPORTED_MAJOR_VERSION_def from_nibble_def)

lemmas eval_layout = from_cc_and_tlvs_eq layout_of_def cc_data_area_size_def is_dynamic_def
  default_dynamic_lock_area_def lock_area_of_def reserved_area_of_def lc_wf_def mc_wf_def
  in_address_space_def page_address_def saturating_sub_def

lemma layout_tests:
  assumes "build_ok B"
  shows "test_static_layout B" "test_dynamic_layout_with_default_locks B"
    "test_dynamic_layout_with_lock_control_tlv B" "test_skip_area_detection B"
  using assms
  by (simp_all add: test_static_layout_def test_dynamic_layout_with_default_locks_def
      test_dynamic_layout_with_lock_control_tlv_def test_skip_area_detection_def test_containers
      eval_layout eval_usable geometry del: cc_try_from.simps)

lemma address_tests:
  "test_address_conversion_roundtrip" "test_address_conversion_spans_full_sector_range"
  "test_oversized_control_address_does_not_wrap"
  by (simp_all add: test_address_conversion_roundtrip_def test_address_conversion_spans_full_sector_range_def
      test_oversized_control_address_does_not_wrap_def address_to_sector_block_def
      sector_block_to_address_def geometry from_lock_control_def lc_bytes_per_lock_bit_def eval_blocks
      eval_usable)

text \<open>Every descriptor the parser accepts gives an area and a layout.\<close>

lemma control_values_test:
  assumes "build_ok B"
  shows "test_all_control_values_process_without_panic B"
proof -
  have lc: "if_ok (lc_from_bytes bs) (\<lambda>lc.
      unwrapped (from_lock_control lc :: (type2_error, lock_area) res) (\<lambda>area.
        let _ = la_end_address area; _ = la_contains area 16
        in unwrapped (layout_from B cc [LockControl lc]) (\<lambda>_. True)))" for bs cc
    using assms
    by (cases "lc_from_bytes bs")
      (simp_all add: lc_from_bytes_no_Panic from_lock_control_eq lc_from_bytes_wf from_cc_and_tlvs_eq)
  have mc: "if_ok (mc_from_bytes bs) (\<lambda>mc.
      unwrapped (from_memory_control mc :: (type2_error, reserved_area) res) (\<lambda>area.
        let _ = ra_end_address area; _ = ra_contains area 16
        in unwrapped (layout_from B cc [MemoryControl mc]) (\<lambda>_. True)))" for bs cc
    using assms
    by (cases "mc_from_bytes bs")
      (simp_all add: mc_from_bytes_no_Panic from_memory_control_eq mc_from_bytes_wf from_cc_and_tlvs_eq)
  show ?thesis
    unfolding test_all_control_values_process_without_panic_def test_containers unwrapped.simps
    by (simp only: lc mc list.pred_True simp_thms)
qed

lemma usable_offset_tests:
  assumes "build_ok B"
  shows "test_usable_offset_maps_over_skip_areas B" "test_usable_offset_skips_reserved_area_before_ndef B"
proof -
  let ?wide = "\<lparr>data_area_size = 96, lock_areas = [\<lparr>la_byte_address = 112, la_size_in_bits = 6,
    la_bytes_per_lock_bit = 8\<rparr>], reserved_areas = []\<rparr>"
  let ?narrow = "\<lparr>data_area_size = 48, lock_areas = [], reserved_areas = [\<lparr>ra_byte_address = 20, ra_size = 4\<rparr>]\<rparr>"
  have usable: "usable_in ?wide 16 114 = [16 ..< 112] @ [113]" "usable_in ?narrow 16 25 = [16, 17, 18, 19, 24]"
    by (simp_all add: eval_usable)
  have lengths: "length ([16 ..< 112] @ [113]) = 97" "length [16, 17, 18, 19, 24 :: nat] = 5"
    by simp_all
  have wide_at: "usable_offset_to_address ?wide n = Some (of_nat (([16 ..< 112] @ [113]) ! unat n))"
    if "unat n < 97" for n
    by (rule usable_offset_upto [of 114 n ?wide, unfolded usable lengths]) (simp, rule that)
  have narrow_at: "usable_offset_to_address ?narrow n = Some (of_nat ([16, 17, 18, 19, 24] ! unat n))"
    if "unat n < 5" for n
    by (rule usable_offset_upto [of 25 n ?narrow, unfolded usable lengths]) (simp, rule that)
  show "test_usable_offset_maps_over_skip_areas B"
    using assms by (simp add: test_usable_offset_maps_over_skip_areas_def test_containers eval_layout
        geometry div_ceil_def wide_at nth_append del: cc_try_from.simps)
  show "test_usable_offset_skips_reserved_area_before_ndef B"
    using assms by (simp add: test_usable_offset_skips_reserved_area_before_ndef_def test_containers
        eval_layout narrow_at del: cc_try_from.simps)
qed

section \<open>All tests\<close>

text \<open>
  Every unit test of the memory layout passes, with every build: the layouts of the sample
  Capability Containers and control TLVs, the conversion of addresses up to the last sector, addresses
  beyond 65535, all control values, and the offsets around lock and reserved bytes.
\<close>

lemma memory_tests_pass:
  assumes "build_ok B"
  shows "test_static_layout B \<and> test_dynamic_layout_with_default_locks B \<and>
    test_dynamic_layout_with_lock_control_tlv B \<and> test_address_conversion_roundtrip \<and>
    test_address_conversion_spans_full_sector_range \<and> test_oversized_control_address_does_not_wrap \<and>
    test_all_control_values_process_without_panic B \<and> test_usable_offset_maps_over_skip_areas B \<and>
    test_usable_offset_skips_reserved_area_before_ndef B \<and> test_skip_area_detection B"
  by (intro conjI layout_tests address_tests control_values_test usable_offset_tests assms)

end
