(* ===== verification/Unit_Tests_Reader.thy ===== *)
theory Unit_Tests_Reader
  imports Unit_Tests_Codec Samples
begin

text \<open>
  The unit tests of \<open>src/src/type2/reader.rs\<close> about reading, the read cache, retries and sectors, one
  definition per test function, and the proof that the model passes them with every build. The tests
  run the model of the reader on the models of the test transceivers (theory \<open>Mocks\<close>).
\<close>

section \<open>Assertions\<close>

fun is_err :: "('e, 'a) res \<Rightarrow> bool" where
  "is_err (Ok x) = False"
| "is_err (Err e) = True"
| "is_err Panic = False"

text \<open>An assignment to a field of \<open>reader.transceiver()\<close>.\<close>

abbreviation in_transceiver :: "('t \<Rightarrow> 't) \<Rightarrow> 't reader \<Rightarrow> 't reader" where
  "in_transceiver f r \<equiv> snd (with_transceiver (\<lambda>t. ((), f t)) r)"

section \<open>Reading and writing\<close>

definition test_read_cc_from_mock :: "build \<Rightarrow> bool" where
  "test_read_cc_from_mock B =
     (let reader = reader_new (setup_static_initialized mock_new) in
      unwrapped_op (read_cc mock B reader) (\<lambda>cc _.
        version_major cc = 1 \<and> version_minor cc = 0 \<and> cc_data_area_size cc = 48 \<and>
        read_access cc = Granted \<and> write_access cc = Granted))"

definition test_read_ndef_empty :: "build \<Rightarrow> bool" where
  "test_read_ndef_empty B =
     (let reader = reader_new (setup_static_initialized mock_new) in
      unwrapped_op (read_ndef mock B reader) (\<lambda>ndef _. ndef = []))"

definition test_read_ndef_with_data :: "build \<Rightarrow> bool" where
  "test_read_ndef_with_data B =
     (let reader = reader_new (setup_static_with_ndef mock_new) in
      unwrapped_op (read_ndef mock B reader) (\<lambda>ndef _. ndef = [0xD0, 0x00, 0x00]))"

definition test_write_then_read_ndef :: "build \<Rightarrow> bool" where
  "test_write_then_read_ndef B =
     (let reader = reader_new (setup_static_initialized mock_new);
          ndef_data = [0xD0, 0x00, 0x00] in
      unwrapped_op (write_ndef mock B ndef_data reader) (\<lambda>_ reader.
      unwrapped_op (read_ndef mock B reader) (\<lambda>result _. result = ndef_data)))"

definition test_read_block :: "build \<Rightarrow> bool" where
  "test_read_block B =
     (let reader = reader_new (setup_static_with_ndef mock_new) in
      unwrapped_op (read_block mock B 3 reader) (\<lambda>data _.
        data ! 0 = 0xE1 \<and> data ! 1 = 0x10 \<and> data ! 2 = 0x06 \<and> data ! 3 = 0x00))"

definition test_write_block :: "build \<Rightarrow> bool" where
  "test_write_block B =
     (let reader = reader_new (setup_static_initialized mock_new) in
      unwrapped_op (write_block mock B 4 (0xAA, 0xBB, 0xCC, 0xDD) reader) (\<lambda>_ reader.
      unwrapped_op (read_block mock B 4 reader) (\<lambda>data _.
        take 4 data = [0xAA, 0xBB, 0xCC, 0xDD])))"

section \<open>The read cache\<close>

definition counting_with_ndef :: counting_transceiver where
  "counting_with_ndef =
     counting_new\<lparr>counted_mock := setup_static_with_ndef (counted_mock counting_new)\<rparr>"

definition test_read_cache_hit :: "build \<Rightarrow> bool" where
  "test_read_cache_hit B =
     (let reader = reader_new counting_with_ndef in
      unwrapped_op (read_block counting B 3 reader) (\<lambda>_ reader.
      unwrapped_op (read_block counting B 3 reader) (\<lambda>_ reader.
        transceive_count (transceiver reader) = 1)))"

definition test_read_cache_miss_different_block :: "build \<Rightarrow> bool" where
  "test_read_cache_miss_different_block B =
     (let reader = reader_new counting_with_ndef in
      unwrapped_op (read_block counting B 3 reader) (\<lambda>_ reader.
      unwrapped_op (read_block counting B 8 reader) (\<lambda>_ reader.
        transceive_count (transceiver reader) = 2)))"

definition test_write_invalidates_cache :: "build \<Rightarrow> bool" where
  "test_write_invalidates_cache B =
     (let reader = reader_new counting_with_ndef in
      unwrapped_op (read_block counting B 4 reader) (\<lambda>_ reader.
      unwrapped_op (write_block counting B 4 (0xAA, 0xBB, 0xCC, 0xDD) reader) (\<lambda>_ reader.
      unwrapped_op (read_block counting B 4 reader) (\<lambda>_ reader.
        transceive_count (transceiver reader) = 3))))"

section \<open>Retries\<close>

definition failing_with_ndef :: "nat \<Rightarrow> failing_transceiver" where
  "failing_with_ndef fail_count =
     (failing_new fail_count)\<lparr>failing_mock := setup_static_with_ndef (failing_mock (failing_new fail_count))\<rparr>"

definition test_retry_on_transient_error :: "build \<Rightarrow> bool" where
  "test_retry_on_transient_error B =
     (let reader = set_max_retries 1 (reader_new (failing_with_ndef 1)) in
      unwrapped_op (read_block failing B 3 reader) (\<lambda>data _. data ! 0 = 0xE1))"

definition test_retry_exhausted :: "build \<Rightarrow> bool" where
  "test_retry_exhausted B =
     (let reader = set_max_retries 1 (reader_new (failing_with_ndef 3)) in
      is_err (fst (read_block failing B 3 reader)))"

definition test_retry_disabled :: "build \<Rightarrow> bool" where
  "test_retry_disabled B =
     (let reader = set_max_retries 0 (reader_new (failing_with_ndef 1)) in
      is_err (fst (read_block failing B 3 reader)))"

section \<open>Sectors\<close>

definition test_retry_after_sector_reset_reselects_intended_sector :: "build \<Rightarrow> bool" where
  "test_retry_after_sector_reset_reselects_intended_sector B =
     (let reader = set_max_retries 1 (reader_new sector_reset_new) in
      unwrapped_op (sector_select sector_reset B 1 reader) (\<lambda>_ reader.
      let reader = in_transceiver (\<lambda>t. t\<lparr>fail_in := 1\<rparr>) reader in
      unwrapped_op (write_block sector_reset B 3 (0xAA, 0xBB, 0xCC, 0xDD) reader) (\<lambda>_ reader.
        current_sector reader = Some 1 \<and>
        (let m = transceiver reader in
         length (applied_writes m) = 1 \<and> fst (applied_writes m ! 0) = 1 \<and>
         fst (snd (applied_writes m ! 0)) = 3 \<and> selects m = 2))))"

definition test_packet2_error_leaves_sector_unknown :: "build \<Rightarrow> bool" where
  "test_packet2_error_leaves_sector_unknown B =
     (let reader = reader_new sector_reset_new in
      unwrapped_op (sector_select sector_reset B 1 reader) (\<lambda>_ reader.
        sector reader = Known 1 \<and>
        (case sector_select sector_reset B 2 (in_transceiver (\<lambda>t. t\<lparr>fail_packet2 := True\<rparr>) reader) of
           (x, reader) \<Rightarrow> is_err x \<and> sector reader = Unknown \<and> current_sector reader = None \<and>
             unwrapped_op (sector_select sector_reset B 2
                 (in_transceiver (\<lambda>t. t\<lparr>fail_packet2 := False\<rparr>) reader)) (\<lambda>_ reader.
               sector reader = Known 2))))"

definition test_packet2_nack_leaves_sector_unknown :: "build \<Rightarrow> bool" where
  "test_packet2_nack_leaves_sector_unknown B =
     (let reader = reader_new sector_reset_new in
      case sector_select nack_p2 B 1 reader of
        (x, reader) \<Rightarrow> is_err x \<and> sector reader = Unknown)"

definition test_ambiguous_error_invalidates_cache_and_sector :: "build \<Rightarrow> bool" where
  "test_ambiguous_error_invalidates_cache_and_sector B =
     (let reader = set_max_retries 0 (reader_new (failing_with_ndef 0)) in
      unwrapped_op (read_block failing B 3 reader) (\<lambda>_ reader.
        case read_block failing B 8 (in_transceiver (\<lambda>t. t\<lparr>failures_remaining := 1\<rparr>) reader) of
          (x, reader) \<Rightarrow> is_err x \<and> sector reader = Unknown \<and> cache_block reader = None))"

definition test_no_retry_while_sector_unknown :: "build \<Rightarrow> bool" where
  "test_no_retry_while_sector_unknown B =
     (let reader = set_max_retries 3 (reader_new (failing_with_ndef 0)) in
      case read_block failing B 3 (in_transceiver (\<lambda>t. t\<lparr>failures_remaining := 100\<rparr>) reader) of
        (x, reader) \<Rightarrow> is_err x \<and> sector reader = Unknown \<and>
          (case read_block failing B 3 (in_transceiver (\<lambda>t. t\<lparr>attempts := 0\<rparr>) reader) of
             (x, reader) \<Rightarrow> is_err x \<and> attempts (transceiver reader) = 1))"

definition test_reserved_sector_rejected :: "build \<Rightarrow> bool" where
  "test_reserved_sector_rejected B =
     (let reader = reader_new sector_reset_new in
      case sector_select sector_reset B 0xFF reader of
        (x, reader) \<Rightarrow> x = Err (Protocol OutOfRange) \<and> selects (transceiver reader) = 0)"

section \<open>The model passes the tests\<close>

subsection \<open>The NDEF message\<close>

text \<open>The two tags of the mock transceiver, as plain tags.\<close>

interpretation mock_empty: plain_tag "mock_memory (setup_static_initialized mock_new)" static_cc "[]" "[]"
  by unfold_locales
    (simp_all add: static_valid static_not_dynamic, simp_all add: cc_in_def setup_static_initialized_def
      mock_new_def static_cc_def CC_MAGIC_def SUPPORTED_MAJOR_VERSION_def from_nibble_def ndef_bytes_def
      length_field_def upt_rec_numeral)

interpretation mock_message: plain_tag "mock_memory (setup_static_with_ndef mock_new)" static_cc "[]"
    "[0xD0, 0x00, 0x00]"
  by unfold_locales
    (simp_all add: static_valid static_not_dynamic, simp_all add: cc_in_def setup_static_with_ndef_def
      setup_static_initialized_def mock_new_def static_cc_def CC_MAGIC_def SUPPORTED_MAJOR_VERSION_def
      from_nibble_def ndef_bytes_def length_field_def upt_rec_numeral Let_def)

lemma mock_reader [simp]: "tag_in_step mock_memory (\<lambda>_. 0) (Suc 0) (reader_new t)" "transceiver (reader_new t) = t"
  by (rule reader_new_in_step) (simp_all add: reader_new_def)

lemma mock_read_ndef:
  assumes "build_ok B" and "plain_tag (mock_memory t) cc pre msg"
  shows "fst (read_ndef mock B (reader_new t)) = Ok msg"
  using mock_tag.computes_reliable [OF mock_tag.read_ndef_computes [OF assms(1)] refl, of "mock_memory t" "reader_new t"]
    plain_tag.write_in_reach_plain(2) [OF assms(2,1), of 1] plain_front.cc_in_memory [OF plain_tag.axioms(1) [OF assms(2)]]
  by (simp add: plain_front.message_in_plain [OF plain_tag.axioms(1) [OF assms(2)] assms(1)])

lemma ndef_tests:
  assumes "build_ok B"
  shows "test_read_ndef_empty B" "test_read_ndef_with_data B" "test_write_then_read_ndef B"
proof -
  show "test_read_ndef_empty B" "test_read_ndef_with_data B"
    using mock_read_ndef [OF assms mock_empty.plain_tag_axioms] mock_read_ndef [OF assms mock_message.plain_tag_axioms]
    by (simp_all add: test_read_ndef_empty_def test_read_ndef_with_data_def unwrapped_op_def)
  let ?r = "reader_new (setup_static_initialized mock_new)" and ?data = "[0xD0, 0x00, 0x00] :: u8 list"
  obtain p where "write_check B (mock_memory (setup_static_initialized mock_new)) ?data = Ok p"
    using mock_empty.write_check_plain(1) [OF assms static_valid(2), of ?data]
    by (auto simp: message_end_def l_field_size_def static_not_dynamic)
  then obtain r1 where w: "write_ndef mock B ?data ?r = (Ok (), r1)"
    using mock_tag.write_ndef_accepted_at [OF assms, of ?r ?data p] mock_empty.write_in_reach_plain(1) [OF assms, of 1]
    by auto
  have reach: "write_in_reach 1 B (mock_memory (setup_static_initialized mock_new))"
    by (rule mock_empty.write_in_reach_plain(1) [OF assms]) simp
  have "buffers_suffice B mock_empty.blocks (length ?data)"
    by (rule mock_empty.buffers_plain) (simp add: message_end_def l_field_size_def)
  then have "case read_ndef mock B r1 of (Ok x, r') \<Rightarrow> x = ?data | (Err e, r') \<Rightarrow> False | (Panic, r') \<Rightarrow> False"
    using t2t_tag.write_then_read_at(1) [OF mock_tag.t2t_tag_axioms assms reach mock_empty.cc_in_memory
        mock_empty.blocks_in_plain [OF assms] mock_empty.roundtrip_plain _ _ w]
    by (auto split: prod.splits res.splits)
  then have "fst (read_ndef mock B r1) = Ok ?data"
    by (simp split: prod.splits res.splits)
  with w show "test_write_then_read_ndef B"
    by (simp add: test_write_then_read_ndef_def unwrapped_op_def)
qed

subsection \<open>Block commands\<close>

lemmas eval_reader = read_block_def write_block_def transceive_with_retry_eq retry_send_def retry_loop_again
  call_transceive_def call_no_response_def command_to_bytes_wire op_bind_def invalidate_cache_def
  reader_new_def set_max_retries_def with_transceiver_def parse_ack_def command_try_from_def command_codes
  force_sector_select_def sector_select_def MAX_SECTOR_def current_sector_def Let_def

lemmas eval_sector_reset = sector_reset_def sector_reset_transceive_def sector_reset_no_response_def
  sector_reset_new_def nack_p2_def nack_p2_no_response_def

lemmas eval_mock = mock_def mock_transceive_def mock_no_response_def counting_def counting_transceive_def
  counting_no_response_def counting_new_def counting_with_ndef_def failing_commands failing_new_def
  failing_with_ndef_def mock_commands

lemma mock_flat_read:
  "length (flat_read (mock_memory (setup_static_with_ndef mock_new)) 3) = 16"
  "flat_read (mock_memory (setup_static_with_ndef mock_new)) 3 ! 0 = 0xE1"
  "flat_read (mock_memory (setup_static_with_ndef mock_new)) 3 ! Suc 0 = 0x10"
  "flat_read (mock_memory (setup_static_with_ndef mock_new)) 3 ! 2 = 0x06"
  "flat_read (mock_memory (setup_static_with_ndef mock_new)) 3 ! 3 = 0x00"
  by (simp_all add: flat_read_nth setup_static_with_ndef_def setup_static_initialized_def Let_def)

lemma sector_tests:
  assumes "build_ok B"
  shows "test_retry_after_sector_reset_reselects_intended_sector B" "test_packet2_error_leaves_sector_unknown B"
    "test_packet2_nack_leaves_sector_unknown B" "test_reserved_sector_rejected B"
  using build_okD(1) [OF assms]
  by (simp_all add: test_retry_after_sector_reset_reselects_intended_sector_def
      test_packet2_error_leaves_sector_unknown_def test_packet2_nack_leaves_sector_unknown_def
      test_reserved_sector_rejected_def eval_reader eval_sector_reset)

lemma cache_tests:
  assumes "build_ok B"
  shows "test_read_block B" "test_read_cache_hit B" "test_read_cache_miss_different_block B"
  using build_okD(1) [OF assms]
  by (simp_all add: test_read_block_def test_read_cache_hit_def test_read_cache_miss_different_block_def
    eval_reader eval_mock mock_flat_read)

lemma retry_loop_3:
  "retry_loop T B Unknown cmd (Suc k) 3 (Some e) r = (Err (Transceiver e), r)"
  "retry_loop T B (Known s) cmd (Suc k) 3 (Some e) r =
     op_bind (force_sector_select T B s) (\<lambda>_. retry_send T B (Known s) cmd (Suc k) 2) r"
  by (simp_all only: numeral_3_eq_3 numeral_2_eq_2 retry_loop_again)

lemma retry_tests:
  assumes "build_ok B"
  shows "test_retry_on_transient_error B" "test_retry_exhausted B" "test_retry_disabled B"
    "test_ambiguous_error_invalidates_cache_and_sector B" "test_no_retry_while_sector_unknown B"
  using build_okD(1) [OF assms]
  by (simp_all add: test_retry_on_transient_error_def test_retry_exhausted_def test_retry_disabled_def
      test_ambiguous_error_invalidates_cache_and_sector_def test_no_retry_while_sector_unknown_def
      eval_reader eval_mock mock_flat_read retry_loop_3)

lemma read_cc_test:
  assumes "build_ok B"
  shows "test_read_cc_from_mock B"
  using mock_tag.computes_reliable [OF mock_tag.read_cc_computes [OF build_okD(1) [OF assms]] refl, of
      "reader_new (setup_static_initialized mock_new)"]
  by (simp add: test_read_cc_from_mock_def unwrapped_op_def mock_empty.cc_in_memory static_cc_def
      cc_data_area_size_def)

lemma write_block_tests:
  assumes "build_ok B"
  shows "test_write_block B" "test_write_invalidates_cache B"
  using build_okD(1) [OF assms]
  by (simp_all add: test_write_block_def test_write_invalidates_cache_def eval_reader eval_mock
      flat_read_def flat_write_eq geometry MOCK_MEMORY_SIZE_def upt_rec_numeral)

section \<open>All tests\<close>

text \<open>
  Every unit test of the reader that is not about \<open>write_ndef\<close> passes, with every build: reading
  the Capability Container and the message, the hits and misses of the cache, retries and their end,
  and the sector state after errors of the tag or of either packet of SECTOR SELECT.
\<close>

lemma reader_tests_pass:
  assumes "build_ok B"
  shows "test_read_cc_from_mock B \<and> test_read_ndef_empty B \<and> test_read_ndef_with_data B \<and>
    test_write_then_read_ndef B \<and> test_read_block B \<and> test_write_block B \<and> test_read_cache_hit B \<and>
    test_read_cache_miss_different_block B \<and> test_write_invalidates_cache B \<and>
    test_retry_on_transient_error B \<and> test_retry_exhausted B \<and> test_retry_disabled B \<and>
    test_retry_after_sector_reset_reselects_intended_sector B \<and>
    test_packet2_error_leaves_sector_unknown B \<and> test_packet2_nack_leaves_sector_unknown B \<and>
    test_ambiguous_error_invalidates_cache_and_sector B \<and> test_no_retry_while_sector_unknown B \<and>
    test_reserved_sector_rejected B"
  by (intro conjI ndef_tests sector_tests cache_tests retry_tests read_cc_test write_block_tests assms)

end
