(* ===== verification/Unit_Tests_Write.thy ===== *)
theory Unit_Tests_Write
  imports Unit_Tests_Codec Traffic
begin

text \<open>
  The unit tests of \<open>src/src/type2/reader.rs\<close> about \<open>write_ndef\<close>, one definition per test function, and
  the proof that the model passes them with every build: messages that do not fit are refused without a
  WRITE, messages that do are stored up to the last byte, and lock and reserved bytes keep their values.
\<close>

section \<open>The tests\<close>

text \<open>The outcome of a test that expects \<open>OutOfRange\<close> and no WRITE.\<close>

definition out_of_range_without_writes ::
  "(unit reader_error, unit) res \<times> recording_transceiver reader \<Rightarrow> bool" where
  "out_of_range_without_writes y \<longleftrightarrow>
     fst y = Err (Protocol OutOfRange) \<and> writes (transceiver (snd y)) = 0"

text \<open>The slice \<open>memory[a..b]\<close> of the mock.\<close>

abbreviation memory_slice :: "recording_transceiver reader \<Rightarrow> nat \<Rightarrow> nat \<Rightarrow> u8 list" where
  "memory_slice r a b \<equiv> map (memory (transceiver r)) [a ..< b]"

definition test_write_ndef_rejects_oversized_input_with_no_writes :: "build \<Rightarrow> bool" where
  "test_write_ndef_rejects_oversized_input_with_no_writes B =
     (let reader = reader_new (recording_setup 0x06 recording_new) in
      out_of_range_without_writes (write_ndef recording B (replicate 65536 0xAA) reader))"

definition test_write_ndef_rejects_unencodable_length_with_no_writes :: "build \<Rightarrow> bool" where
  "test_write_ndef_rejects_unencodable_length_with_no_writes B =
     (let reader = reader_new (recording_setup 0x06 recording_new) in
      out_of_range_without_writes (write_ndef recording B (replicate 0xFFFF 0) reader))"

definition null_before_ndef :: recording_transceiver where
  "null_before_ndef = recording_new\<lparr>memory := (memory recording_new)
     (12 := 0xE1, 13 := 0x10, 14 := 0x06, 15 := 0x00, 16 := 0x00, 17 := 0x03, 18 := 0x00, 19 := 0xFE)\<rparr>"

definition test_write_ndef_rejects_nonzero_offset_overrun_with_no_writes :: "build \<Rightarrow> bool" where
  "test_write_ndef_rejects_nonzero_offset_overrun_with_no_writes B =
     out_of_range_without_writes (write_ndef recording B (replicate 45 0xAB) (reader_new null_before_ndef))"

definition memory_control_before_ndef :: recording_transceiver where
  "memory_control_before_ndef = recording_new\<lparr>memory := (memory recording_new)
     (12 := 0xE1, 13 := 0x10, 14 := 0x06, 15 := 0x00, 16 := 0x02, 17 := 0x03, 18 := 0xF0, 19 := 0x05,
      20 := 0x03, 21 := 0x03, 22 := 0x00, 23 := 0xFE)\<rparr>"

definition test_write_ndef_rejects_memory_control_offset_overrun_with_no_writes :: "build \<Rightarrow> bool" where
  "test_write_ndef_rejects_memory_control_offset_overrun_with_no_writes B =
     out_of_range_without_writes
       (write_ndef recording B (replicate 41 0xCD) (reader_new memory_control_before_ndef))"

definition test_write_ndef_max_payload_stays_within_data_area :: "build \<Rightarrow> bool" where
  "test_write_ndef_max_payload_stays_within_data_area B =
     (let reader = reader_new (recording_setup 0x06 recording_new) in
      unwrapped_op (write_ndef recording B (replicate 45 0x55) reader) (\<lambda>_ reader.
        let m = memory (transceiver reader) in
        m 16 = 0x03 \<and> m 17 = 45 \<and> m 63 = 0xFE \<and>
        list_all (\<lambda>b. b = 0) (memory_slice reader 64 MOCK_MEMORY_SIZE)))"

definition test_write_ndef_extended_length_encoding :: "build \<Rightarrow> bool" where
  "test_write_ndef_extended_length_encoding B =
     (let reader = reader_new (recording_setup 0x40 recording_new) in
      unwrapped_op (write_ndef recording B (replicate 255 0x22) reader) (\<lambda>_ reader.
        let m = memory (transceiver reader) in
        m 16 = 0x03 \<and> m 17 = 0xFF \<and> m 18 = 0x00 \<and> m 19 = 0xFF \<and> m 20 = 0x22 \<and> m 275 = 0xFE))"

definition test_write_ndef_audit_proof_rejected_lock_byte_intact :: "build \<Rightarrow> bool" where
  "test_write_ndef_audit_proof_rejected_lock_byte_intact B =
     (let reader = reader_new (setup_proprietary_before_ndef recording_new);
          y = write_ndef recording B (replicate 10 0x11) reader in
      out_of_range_without_writes y \<and> memory (transceiver (snd y)) 112 = 0xA5)"

definition test_write_ndef_one_byte_excess_after_proprietary_tlv_no_writes :: "build \<Rightarrow> bool" where
  "test_write_ndef_one_byte_excess_after_proprietary_tlv_no_writes B =
     (let reader = reader_new (setup_proprietary_before_ndef recording_new);
          y = write_ndef recording B (replicate 6 0x22) reader in
      out_of_range_without_writes y \<and> memory (transceiver (snd y)) 112 = 0xA5)"

definition test_write_ndef_exact_boundary_after_proprietary_tlv_succeeds :: "build \<Rightarrow> bool" where
  "test_write_ndef_exact_boundary_after_proprietary_tlv_succeeds B =
     (let reader = reader_new (setup_proprietary_before_ndef recording_new) in
      unwrapped_op (write_ndef recording B (replicate 5 0x33) reader) (\<lambda>_ reader.
        let m = memory (transceiver reader) in
        m 104 = 0x03 \<and> m 105 = 5 \<and> list_all (\<lambda>b. b = 0x33) (memory_slice reader 106 111) \<and>
        m 111 = 0xFE \<and> m 112 = 0xA5))"

definition test_write_ndef_preserves_lock_region_inside_value :: "build \<Rightarrow> bool" where
  "test_write_ndef_preserves_lock_region_inside_value B =
     unwrapped_op (write_ndef recording B (replicate 8 0x44) (reader_new lock_tag)) (\<lambda>_ reader.
       let m = memory (transceiver reader) in
       m 28 = 0xA5 \<and> m 21 = 0x03 \<and> m 22 = 8 \<and> list_all (\<lambda>b. b = 0x44) (memory_slice reader 23 28) \<and>
       list_all (\<lambda>b. b = 0x44) (memory_slice reader 29 32))"

definition memory_control_inside_value :: recording_transceiver where
  "memory_control_inside_value = recording_new\<lparr>memory := (memory recording_new)
     (12 := 0xE1, 13 := 0x10, 14 := 0x0C, 15 := 0x00, 16 := 0x02, 17 := 0x03, 18 := 0x60, 19 := 0x04,
      20 := 0x02, 21 := 0x03, 22 := 0x00, 23 := 0xFE, 24 := 0xA5, 25 := 0xA6, 26 := 0xA7, 27 := 0xA8)\<rparr>"

definition test_write_ndef_preserves_reserved_region_inside_value :: "build \<Rightarrow> bool" where
  "test_write_ndef_preserves_reserved_region_inside_value B =
     unwrapped_op (write_ndef recording B (replicate 8 0x44) (reader_new memory_control_inside_value))
       (\<lambda>_ reader.
       let m = memory (transceiver reader) in
       memory_slice reader 24 28 = [0xA5, 0xA6, 0xA7, 0xA8] \<and> m 21 = 0x03 \<and> m 22 = 8 \<and> m 23 = 0x44 \<and>
       list_all (\<lambda>b. b = 0x44) (memory_slice reader 28 35))"

definition test_write_ndef_length_boundary :: "build \<Rightarrow> bool" where
  "test_write_ndef_length_boundary B \<longleftrightarrow>
     unwrapped_op (write_ndef recording B (replicate 253 0x33) (reader_new (recording_setup 0x20 recording_new)))
       (\<lambda>_ reader. memory (transceiver reader) 17 = 253) \<and>
     out_of_range_without_writes
       (write_ndef recording B (replicate 255 0x33) (reader_new (recording_setup 0x20 recording_new)))"

section \<open>Writes on the recording transceiver\<close>

lemma recording_reader [simp]:
  "tag_in_step memory (\<lambda>_. 0) (Suc 0) (reader_new t)" "transceiver (reader_new t) = t"
  by (rule reader_new_in_step) (simp_all add: reader_new_def)

lemma recording_accepts:
  assumes "build_ok B" and "write_in_reach 1 B (memory t)" and "write_check B (memory t) data = Ok p"
  obtains r where "write_ndef recording B data (reader_new t) = (Ok (), r)"
    and "memory (transceiver r) = stored (memory t) p data"
proof -
  have "rec_tag.in_step (reader_new t)" "memory (transceiver (reader_new t)) = memory t"
    by simp_all
  from rec_tag.write_ndef_accepted_at [OF assms(1) _ refl this(1), of data p] assms(2,3) this(2)
  obtain r where "write_ndef recording B data (reader_new t) = (Ok (), r)"
    and "memory (transceiver r) = stored (memory t) p data"
    by metis
  then show thesis by (rule that)
qed

text \<open>On a plain tag: what fits is stored behind the blocks in front of it, what does not is refused.\<close>

lemma recording_plain_accepts:
  assumes "build_ok B" and "plain_tag (memory t) cc pre msg" and "write_access cc = Granted"
    and "length data \<le> 0xFFFE"
    and "message_end (length (concat (map tlv_bytes pre))) (length data) \<le> unat (cc_data_area_size cc)"
  obtains r where "write_ndef recording B data (reader_new t) = (Ok (), r)"
    and "\<And>x. memory (transceiver r) x =
      (let a = 16 + length (concat (map tlv_bytes pre)) in
       if a \<le> x \<and> x < 16 + unat (cc_data_area_size cc) \<and> x - a < length (ndef_bytes data)
       then ndef_bytes data ! (x - a) else memory t x)"
proof -
  obtain p where p: "write_check B (memory t) data = Ok p"
    using plain_tag.write_check_plain(1) [OF assms(2,1,3-5)] by blast
  have reach: "write_in_reach 1 B (memory t)"
    by (rule plain_tag.write_in_reach_plain(1) [OF assms(2,1)]) simp
  obtain r where "write_ndef recording B data (reader_new t) = (Ok (), r)"
    and "memory (transceiver r) = stored (memory t) p data"
    by (rule recording_accepts [OF assms(1) reach p])
  note run = this
  show thesis
    by (rule that [OF run(1)])
      (simp add: run(2) plain_front.stored_plain [OF plain_tag.axioms(1) [OF assms(2)] assms(1) p] place_upt Let_def del: upt_Suc)
qed

lemma recording_plain_rejects:
  assumes "build_ok B" and "plain_tag (memory t) cc pre msg" and "write_access cc = Granted"
    and "0xFFFE < length data \<or>
      unat (cc_data_area_size cc) < message_end (length (concat (map tlv_bytes pre))) (length data)"
    and "writes t = 0"
  shows "out_of_range_without_writes (write_ndef recording B data (reader_new t))"
    and "transceiver (snd (write_ndef recording B data (reader_new t))) = t"
proof -
  have reach: "write_in_reach 1 B (memory t)"
    by (rule plain_tag.write_in_reach_plain(1) [OF assms(2,1)]) simp
  note recording_rejects [OF assms(1), of "reader_new t" data OutOfRange]
  with reach plain_tag.write_check_plain(2) [OF assms(2,1,3,4)] assms(5)
  show "out_of_range_without_writes (write_ndef recording B data (reader_new t))"
    and "transceiver (snd (write_ndef recording B data (reader_new t))) = t"
    by (simp_all add: out_of_range_without_writes_def)
qed

section \<open>The tags of the tests\<close>

definition sized_cc :: "u8 \<Rightarrow> capability_container" where
  "sized_cc size_f = \<lparr>version_major = 1, version_minor = 0, size_field = size_f,
     read_access = Granted, write_access = Granted\<rparr>"

lemma sized_cc_simps [simp]:
  "is_valid (sized_cc n)" "write_access (sized_cc n) = Granted"
  "unat (cc_data_area_size (sized_cc n)) = 8 * unat n"
  by (simp_all add: sized_cc_def is_valid_def SUPPORTED_MAJOR_VERSION_def unat_data_area_size)

lemma sized_cc_in:
  "m 12 = 0xE1 \<Longrightarrow> m 13 = 0x10 \<Longrightarrow> m 14 = n \<Longrightarrow> m 15 = 0x00 \<Longrightarrow> cc_in m = Ok (sized_cc n)"
  by (simp add: cc_in_def sized_cc_def CC_MAGIC_def SUPPORTED_MAJOR_VERSION_def from_nibble_def)

lemma setup_plain:
  assumes "3 \<le> unat n" and "unat n \<le> 126"
  shows "plain_tag (memory (recording_setup n recording_new)) (sized_cc n) [] []"
  using assms
  by unfold_locales
    (simp_all add: recording_setup_def sized_cc_in ndef_bytes_def length_field_def upt_rec_numeral)

lemma null_plain: "plain_tag (memory null_before_ndef) (sized_cc 6) [Null] []"
  by unfold_locales
    (simp_all add: null_before_ndef_def sized_cc_in ndef_bytes_def length_field_def upt_rec_numeral)

lemma proprietary_plain:
  "plain_tag (memory (setup_proprietary_before_ndef recording_new)) (sized_cc 12)
     [tlv.Proprietary (replicate 86 0)] []"
  by unfold_locales
    (simp_all add: setup_proprietary_before_ndef_def recording_new_def sized_cc_in ndef_bytes_def
      length_field_def upt_rec_numeral, simp add: numeral_eq_Suc)

section \<open>The model passes the tests\<close>

lemma rejecting_tests:
  assumes "build_ok B"
  shows "test_write_ndef_rejects_oversized_input_with_no_writes B"
    "test_write_ndef_rejects_unencodable_length_with_no_writes B"
    "test_write_ndef_rejects_nonzero_offset_overrun_with_no_writes B"
    "test_write_ndef_audit_proof_rejected_lock_byte_intact B"
    "test_write_ndef_one_byte_excess_after_proprietary_tlv_no_writes B"
proof -
  have fresh: "writes (recording_setup n recording_new) = 0" "writes null_before_ndef = 0"
    "writes (setup_proprietary_before_ndef recording_new) = 0"
    "memory (setup_proprietary_before_ndef recording_new) 112 = 0xA5" for n
    by (simp_all add: recording_setup_def recording_new_def null_before_ndef_def setup_proprietary_before_ndef_def)
  note small = recording_plain_rejects [OF assms setup_plain [of 6], simplified, OF _ fresh(1)]
  note nulls = recording_plain_rejects [OF assms null_plain, simplified, OF _ fresh(2)]
  note framed = recording_plain_rejects [OF assms proprietary_plain, simplified, OF _ fresh(3)]
  show "test_write_ndef_rejects_oversized_input_with_no_writes B"
    "test_write_ndef_rejects_unencodable_length_with_no_writes B"
    by (simp_all add: test_write_ndef_rejects_oversized_input_with_no_writes_def small
        test_write_ndef_rejects_unencodable_length_with_no_writes_def)
  show "test_write_ndef_rejects_nonzero_offset_overrun_with_no_writes B"
    by (simp add: test_write_ndef_rejects_nonzero_offset_overrun_with_no_writes_def nulls message_end_def
        l_field_size_def)
  show "test_write_ndef_audit_proof_rejected_lock_byte_intact B"
    "test_write_ndef_one_byte_excess_after_proprietary_tlv_no_writes B"
    by (simp_all add: test_write_ndef_audit_proof_rejected_lock_byte_intact_def framed fresh message_end_def
        test_write_ndef_one_byte_excess_after_proprietary_tlv_no_writes_def l_field_size_def length_field_def)
qed

lemma fitting_tests:
  assumes "build_ok B"
  shows "test_write_ndef_max_payload_stays_within_data_area B"
    "test_write_ndef_extended_length_encoding B"
    "test_write_ndef_exact_boundary_after_proprietary_tlv_succeeds B"
    "test_write_ndef_length_boundary B"
proof -
  note ends = message_end_def l_field_size_def
  have bytes: "ndef_bytes (replicate 45 x) = 0x03 # 45 # replicate 45 x @ [0xFE]"
    "ndef_bytes (replicate 255 x) = 0x03 # 0xFF # 0x00 # 0xFF # replicate 255 x @ [0xFE]"
    "ndef_bytes (replicate 5 x) = 0x03 # 5 # replicate 5 x @ [0xFE]"
    "ndef_bytes (replicate 253 x) = 0x03 # 253 # replicate 253 x @ [0xFE]" for x
    by (simp_all add: ndef_bytes_def length_field_def u16_to_be_bytes_def)
  have fresh: "memory (recording_setup n recording_new) x = 0" if "64 \<le> x" for n x
    using that by (simp add: recording_setup_def recording_new_def)
  note accepts = recording_plain_accepts [OF assms]
  obtain r where "write_ndef recording B (replicate 45 0x55) (reader_new (recording_setup 6 recording_new)) = (Ok (), r)"
    and at: "\<And>x. memory (transceiver r) x =
      (if 16 \<le> x \<and> x < 64 \<and> x - 16 < 48 then ndef_bytes (replicate 45 0x55) ! (x - 16)
       else memory (recording_setup 6 recording_new) x)"
    by (rule accepts [OF setup_plain [of 6], of "replicate 45 0x55"]) (simp_all add: ends bytes)
  moreover have "list_all (\<lambda>b. b = 0) (memory_slice r 64 k)" for k
    by (simp add: list_all_iff at fresh del: upt_Suc)
  ultimately show "test_write_ndef_max_payload_stays_within_data_area B"
    by (simp add: test_write_ndef_max_payload_stays_within_data_area_def bytes nth_append)
  obtain r where "write_ndef recording B (replicate 255 0x22) (reader_new (recording_setup 0x40 recording_new)) = (Ok (), r)"
    "\<And>x. memory (transceiver r) x =
      (if 16 \<le> x \<and> x < 528 \<and> x - 16 < 260 then ndef_bytes (replicate 255 0x22) ! (x - 16)
       else memory (recording_setup 0x40 recording_new) x)"
    by (rule accepts [OF setup_plain [of "0x40"], of "replicate 255 0x22"]) (simp_all add: ends bytes)
  then show "test_write_ndef_extended_length_encoding B"
    by (simp add: test_write_ndef_extended_length_encoding_def bytes nth_append)
  obtain r where "write_ndef recording B (replicate 253 0x33) (reader_new (recording_setup 0x20 recording_new)) = (Ok (), r)"
    "\<And>x. memory (transceiver r) x =
      (if 16 \<le> x \<and> x < 272 \<and> x - 16 < 256 then ndef_bytes (replicate 253 0x33) ! (x - 16)
       else memory (recording_setup 0x20 recording_new) x)"
    by (rule accepts [OF setup_plain [of "0x20"], of "replicate 253 0x33"]) (simp_all add: ends bytes)
  moreover have "out_of_range_without_writes
      (write_ndef recording B (replicate 255 0x33) (reader_new (recording_setup 0x20 recording_new)))"
    by (rule recording_plain_rejects(1) [OF assms setup_plain [of "0x20"]])
      (simp_all add: ends recording_setup_def recording_new_def)
  ultimately show "test_write_ndef_length_boundary B"
    by (simp add: test_write_ndef_length_boundary_def bytes)
  let ?t = "setup_proprietary_before_ndef recording_new"
  obtain r where "write_ndef recording B (replicate 5 0x33) (reader_new ?t) = (Ok (), r)"
    "\<And>x. memory (transceiver r) x =
      (if 104 \<le> x \<and> x < 112 \<and> x - 104 < 8 then ndef_bytes (replicate 5 0x33) ! (x - 104) else memory ?t x)"
    by (rule accepts [OF proprietary_plain, of "replicate 5 0x33"]) (simp_all add: ends bytes length_field_def)
  moreover have "memory ?t 112 = 0xA5"
    by (simp add: setup_proprietary_before_ndef_def)
  ultimately show "test_write_ndef_exact_boundary_after_proprietary_tlv_succeeds B"
    by (simp add: test_write_ndef_exact_boundary_after_proprietary_tlv_succeeds_def bytes upt_rec_numeral
        nth_append)
qed

subsection \<open>Control TLVs in front of the message\<close>

lemma lock_region_test:
  assumes "build_ok B"
  shows "test_write_ndef_preserves_lock_region_inside_value B"
proof -
  have data: "replicate 8 0x44 = lock_data"
    by code_simp
  obtain p where p: "write_check B (memory lock_tag) lock_data = Ok p" "stored (memory lock_tag) p lock_data =
      place (memory lock_tag) [21, 22, 23, 24, 25, 26, 27, 29, 30, 31, 32]
        [0x03, 8, 0x44, 0x44, 0x44, 0x44, 0x44, 0x44, 0x44, 0x44, 0xFE]"
    using lock_write [OF assms] by blast
  obtain r where run: "write_ndef recording B lock_data (reader_new lock_tag) = (Ok (), r)"
    "memory (transceiver r) = stored (memory lock_tag) p lock_data"
    by (rule recording_accepts [OF assms lock_blocks_in(2) [OF assms] p(1)])
  have "memory lock_tag 28 = 0xA5"
    by (simp add: lock_tag_def)
  then show ?thesis
    by (simp add: test_write_ndef_preserves_lock_region_inside_value_def data run(1) run(2) [unfolded p(2)]
        upt_rec_numeral)
qed

text \<open>The blocks of the two tags with a Memory Control TLV, and which bytes they leave usable.\<close>

definition far_blocks :: "tlv list" where
  "far_blocks = [MemoryControl \<lparr>mc_page_addr = 15, mc_byte_offset = 0, mc_size_in_bytes = 5, mc_bytes_per_page = 3\<rparr>,
     NdefMessage [], Terminator]"

definition near_blocks :: "tlv list" where
  "near_blocks = [MemoryControl \<lparr>mc_page_addr = 6, mc_byte_offset = 0, mc_size_in_bytes = 4, mc_bytes_per_page = 2\<rparr>,
     NdefMessage [], Terminator]"

lemma control_layouts:
  "layout_of (sized_cc 6) [] = \<lparr>data_area_size = 48, lock_areas = [], reserved_areas = []\<rparr>"
  "layout_of (sized_cc 6) far_blocks = \<lparr>data_area_size = 48, lock_areas = [],
     reserved_areas = [\<lparr>ra_byte_address = 120, ra_size = 5\<rparr>]\<rparr>"
  "layout_of (sized_cc 12) [] = \<lparr>data_area_size = 96, lock_areas =
     [\<lparr>la_byte_address = 112, la_size_in_bits = 6, la_bytes_per_lock_bit = 8\<rparr>], reserved_areas = []\<rparr>"
  "layout_of (sized_cc 12) near_blocks = \<lparr>data_area_size = 96, lock_areas =
     [\<lparr>la_byte_address = 112, la_size_in_bits = 6, la_bytes_per_lock_bit = 8\<rparr>],
     reserved_areas = [\<lparr>ra_byte_address = 24, ra_size = 4\<rparr>]\<rparr>"
  by (simp_all add: layout_of_def sized_cc_def far_blocks_def near_blocks_def cc_data_area_size_def is_dynamic_def
      default_dynamic_lock_area_def reserved_area_of_def div_ceil_def geometry saturating_sub_def page_address_def)

lemma control_usable:
  "usable_in (layout_of (sized_cc 6) []) 16 64 = [16 ..< 64]"
  "usable_in (layout_of (sized_cc 6) far_blocks) 16 64 = [16 ..< 64]"
  "usable_in (layout_of (sized_cc 12) []) 16 118 = [16 ..< 112] @ [113 ..< 118]"
  "usable_in (layout_of (sized_cc 12) near_blocks) 16 118 = [16 ..< 24] @ [28 ..< 112] @ [113 ..< 118]"
  by (simp_all add: control_layouts eval_usable)

lemma control_enough:
  "enough 64 (layout_of (sized_cc 6) [])" "enough 64 (layout_of (sized_cc 6) far_blocks)"
  "enough 118 (layout_of (sized_cc 12) [])" "enough 118 (layout_of (sized_cc 12) near_blocks)"
  unfolding enough_def unfolding control_usable unfolding control_layouts by simp_all

lemma control_cc_in:
  "cc_in (memory memory_control_before_ndef) = Ok (sized_cc 6)"
  "cc_in (memory memory_control_inside_value) = Ok (sized_cc 12)"
  by (simp_all add: sized_cc_in memory_control_before_ndef_def memory_control_inside_value_def)

lemma far_blocks_upto:
  assumes "build_ok B"
  shows "blocks_upto 64 B (sized_cc 6) (memory memory_control_before_ndef) = Ok far_blocks"
proof -
  let ?bytes = "[0x02, 0x03, 0xF0, 0x05, 0x03, 0x03, 0x00, 0xFE] :: u8 list"
  have "\<exists>bs. area_upto 64 (layout_of (sized_cc 6) []) (memory memory_control_before_ndef) = ?bytes @ bs"
    "\<exists>bs. area_upto 64 (layout_of (sized_cc 6) far_blocks) (memory memory_control_before_ndef) = ?bytes @ bs"
    unfolding area_upto_def unfolding control_usable unfolding control_layouts
    by (simp_all add: memory_control_before_ndef_def)
  moreover have "up_to_stop scanner_new (?bytes @ bs) = ?bytes" for bs
    by (simp add: up_to_stop_Cons scanner_new_def tlv_tags word_le_nat_alt)
  moreover have "parse_tlvs (bytes_lib B) (tlv_lib B) ?bytes = Ok far_blocks"
    using build_okD(1,2) [OF assms] by (simp add: eval_blocks far_blocks_def)
  ultimately show ?thesis
    by (rule blocks_upto_both [OF assms control_enough(1,2)]) (simp add: DATA_VEC_CAP_def)
qed

lemma near_blocks_upto:
  assumes "build_ok B"
  shows "blocks_upto 118 B (sized_cc 12) (memory memory_control_inside_value) = Ok near_blocks"
proof -
  let ?bytes = "[0x02, 0x03, 0x60, 0x04, 0x02, 0x03, 0x00, 0xFE] :: u8 list"
  have "\<exists>bs. area_upto 118 (layout_of (sized_cc 12) []) (memory memory_control_inside_value) = ?bytes @ bs"
    "\<exists>bs. area_upto 118 (layout_of (sized_cc 12) near_blocks) (memory memory_control_inside_value) = ?bytes @ bs"
    unfolding area_upto_def unfolding control_usable unfolding control_layouts
    by (simp_all add: memory_control_inside_value_def)
  moreover have "up_to_stop scanner_new (?bytes @ bs) = ?bytes" for bs
    by (simp add: up_to_stop_Cons scanner_new_def tlv_tags word_le_nat_alt)
  moreover have "parse_tlvs (bytes_lib B) (tlv_lib B) ?bytes = Ok near_blocks"
    using build_okD(1,2) [OF assms] by (simp add: eval_blocks near_blocks_def)
  ultimately show ?thesis
    by (rule blocks_upto_both [OF assms control_enough(3,4)]) (simp add: DATA_VEC_CAP_def)
qed

lemma reserved_region_tests:
  assumes "build_ok B"
  shows "test_write_ndef_rejects_memory_control_offset_overrun_with_no_writes B"
    and "test_write_ndef_preserves_reserved_region_inside_value B"
proof -
  have far: "blocks_in B (sized_cc 6) (memory memory_control_before_ndef) = Ok far_blocks"
    "write_in_reach 1 B (memory memory_control_before_ndef)"
    using blocks_upto_eq [of 64 B "sized_cc 6" "memory memory_control_before_ndef"] far_blocks_upto [OF assms]
    by (simp_all add: write_in_reach_def control_cc_in)
  have near: "blocks_in B (sized_cc 12) (memory memory_control_inside_value) = Ok near_blocks"
    "write_in_reach 1 B (memory memory_control_inside_value)"
    using blocks_upto_eq [of 118 B "sized_cc 12" "memory memory_control_inside_value"] near_blocks_upto [OF assms]
    by (simp_all add: write_in_reach_def control_cc_in)
  have offsets: "ndef_tlv_offset 0 far_blocks = Some 5" "ndef_tlv_offset 0 near_blocks = Some 5"
    by (simp_all add: far_blocks_def near_blocks_def)
  have "write_check B (memory memory_control_before_ndef) (replicate 41 0xCD) = Err OutOfRange"
    by (simp add: write_check_def control_cc_in far plan_write_eq [OF assms parsed_D(1,2) [OF assms
        blocks_in_parsed [OF far(1)]]] offsets message_end_def l_field_size_def)
  with recording_rejects [OF assms, of "reader_new memory_control_before_ndef"] far(2)
  show "test_write_ndef_rejects_memory_control_offset_overrun_with_no_writes B"
    by (simp add: test_write_ndef_rejects_memory_control_offset_overrun_with_no_writes_def
        out_of_range_without_writes_def memory_control_before_ndef_def recording_new_def)
  have data: "replicate 8 0x44 = lock_data"
    by code_simp
  have bytes: "ndef_bytes lock_data = [0x03, 8, 0x44, 0x44, 0x44, 0x44, 0x44, 0x44, 0x44, 0x44, 0xFE]"
    by (simp add: ndef_bytes_def length_field_def)
  have fits: "message_end 5 (length lock_data) \<le> unat (cc_data_area_size (sized_cc 12))" "length lock_data \<le> 1000"
    by (simp_all add: message_end_def l_field_size_def)
  obtain p where p: "write_check B (memory memory_control_inside_value) lock_data = Ok p"
    "stored (memory memory_control_inside_value) p lock_data =
      place (memory memory_control_inside_value) [21, 22, 23, 28, 29, 30, 31, 32, 33, 34, 35]
        [0x03, 8, 0x44, 0x44, 0x44, 0x44, 0x44, 0x44, 0x44, 0x44, 0xFE]"
    using write_upto [OF assms control_cc_in(2) _ _ near(1) offsets(2) fits control_enough(4)]
    unfolding bytes control_usable by auto
  obtain r where run: "write_ndef recording B lock_data (reader_new memory_control_inside_value) = (Ok (), r)"
    "memory (transceiver r) = stored (memory memory_control_inside_value) p lock_data"
    by (rule recording_accepts [OF assms near(2) p(1)])
  have "memory memory_control_inside_value 24 = 0xA5" "memory memory_control_inside_value 25 = 0xA6"
    "memory memory_control_inside_value 26 = 0xA7" "memory memory_control_inside_value 27 = 0xA8"
    by (simp_all add: memory_control_inside_value_def)
  then show "test_write_ndef_preserves_reserved_region_inside_value B"
    by (simp add: test_write_ndef_preserves_reserved_region_inside_value_def data run(1)
        run(2) [unfolded p(2)] upt_rec_numeral)
qed

section \<open>All tests\<close>

text \<open>
  Every unit test of \<open>write_ndef\<close> passes, with every build: messages that do not fit at their
  offset are refused without a WRITE and with the lock byte intact, the longest ones that fit are
  stored up to the last byte of the data area, and lock and reserved bytes inside the value survive.
\<close>

lemma write_tests_pass:
  assumes "build_ok B"
  shows "test_write_ndef_rejects_oversized_input_with_no_writes B \<and>
    test_write_ndef_rejects_unencodable_length_with_no_writes B \<and>
    test_write_ndef_rejects_nonzero_offset_overrun_with_no_writes B \<and>
    test_write_ndef_rejects_memory_control_offset_overrun_with_no_writes B \<and>
    test_write_ndef_max_payload_stays_within_data_area B \<and>
    test_write_ndef_extended_length_encoding B \<and>
    test_write_ndef_audit_proof_rejected_lock_byte_intact B \<and>
    test_write_ndef_one_byte_excess_after_proprietary_tlv_no_writes B \<and>
    test_write_ndef_exact_boundary_after_proprietary_tlv_succeeds B \<and>
    test_write_ndef_preserves_lock_region_inside_value B \<and>
    test_write_ndef_preserves_reserved_region_inside_value B \<and>
    test_write_ndef_length_boundary B"
  by (intro conjI rejecting_tests fitting_tests lock_region_test reserved_region_tests assms)

end
