(* ===== verification/Spec2Isabelle.thy ===== *)
theory Spec2Isabelle
  imports Recovery Effort Long_Message Unit_Tests_Memory Unit_Tests_Reader Unit_Tests_Write
begin

text \<open>
  Verification of the reader library for NFC Forum Type 2 Tags (the Rust crate under \<open>src/src\<close>).

  \<^bold>\<open>The program.\<close> A Type 2 Tag is a memory of sectors of 1024 bytes, read in blocks of four bytes
  (sixteen at a time) and written in blocks of four. Block 3 of sector 0 holds the Capability
  Container; behind it lies the data area, a sequence of TLV blocks with the NDEF message, in which
  lock and reserved bytes have to be stepped over. The crate has a codec for commands, the Capability
  Container and TLV blocks, a memory layout that says which bytes are data bytes, and a reader that
  drives a tag over a caller's transceiver: it selects sectors, retries commands, caches the last READ,
  and reads and writes the NDEF message.

  \<^bold>\<open>Theories and source files.\<close>
  \<^item> \<open>Prelude\<close>: machine integers, the results of fallible code (\<open>res\<close>, whose third constructor
    \<open>Panic\<close> is a Rust panic), checked arithmetic, the state monad \<open>op\<close> for code behind \<open>&mut\<close>, and the
    total-correctness triples \<open>triple\<close>.
  \<^item> \<open>Vec\<close> (\<open>vec.rs\<close>): the trait \<open>VecExt\<close> on both vector libraries; the locale \<open>vec_ext\<close> is its contract.
    The crate heapless is a parameter with its documented contract.
  \<^item> \<open>Tag\<close> (\<open>tag.rs\<close>), \<open>Capability\<close> (\<open>type2/cc.rs\<close>), \<open>Type2\<close> (\<open>type2/mod.rs\<close>: commands, answers,
    errors, the trait \<open>T2TTransceiver\<close> as a record of two functions), \<open>Tlv_Length\<close> (\<open>tlv.rs\<close>).
  \<^item> \<open>Tlv_Blocks\<close>, \<open>Control\<close>, \<open>Tlv_Spec\<close> (\<open>type2/tlv.rs\<close>): descriptors, parser and serializer; the
    grammar of TLV streams that the parser is proved to accept.
  \<^item> \<open>Geometry\<close>, \<open>Memory\<close>, \<open>Layout\<close> (\<open>type2/memory.rs\<close>): areas, layouts, address conversions, the walk
    over usable bytes.
  \<^item> \<open>Scanner\<close>, \<open>Reader\<close>, \<open>Data_Area\<close>, \<open>Ndef\<close> (\<open>type2/reader.rs\<close>): the incremental TLV scanner; the
    reader's state (record \<open>reader\<close>: transceiver, sector state, cache, retries) with sector selection,
    retries and block commands; the loops over the data area; \<open>read_ndef\<close> and \<open>write_ndef\<close>.
  \<^item> \<open>Mocks\<close> (the test module of \<open>type2/reader.rs\<close>): the transceivers of the tests.
  \<^item> \<open>Unit_Tests_Codec\<close> (the test modules of \<open>tlv.rs\<close>, \<open>type2/mod.rs\<close>, \<open>type2/cc.rs\<close>, \<open>type2/tlv.rs\<close>),
    \<open>Unit_Tests_Memory\<close> (\<open>type2/memory.rs\<close>), \<open>Unit_Tests_Reader\<close> and \<open>Unit_Tests_Write\<close>
    (\<open>type2/reader.rs\<close>): every unit test of the crate, each as a definition named after its test
    function whose value is whether all assertions hold. That the model passes them (lemmas
    \<open>codec_tests_pass\<close>, \<open>memory_tests_pass\<close>, \<open>reader_tests_pass\<close>, \<open>write_tests_pass\<close>) is a check of the
    model against what the authors of the crate checked by running it; it is not one of the
    properties.

  \<^bold>\<open>The tag.\<close> What is behind the transceiver is a parameter. \<open>Conforming\<close> states what the reader relies
  on as the locale \<open>t2t_tag\<close>: a memory, an active sector, a number of sectors and a set of faults, and
  laws for READ, WRITE and SECTOR SELECT. A READ or WRITE that is not answered may or may not have been
  carried out and the tag may have gone back to another sector; one that is answered, with a NACK or
  too few bytes included, leaves the active sector as it is, which the source relies on when it keeps
  the sector as known. After a SECTOR SELECT that is not acknowledged the active sector may be any. \<open>Tags\<close> interprets it on the test transceivers with a
  memory (\<open>mock\<close>, \<open>recording\<close>, \<open>failing\<close>) and on a tag with 255 sectors over a link that loses commands and
  answers (\<open>lossy\<close>). Inside the locale, \<open>Area_Read\<close>, \<open>Ndef_Read\<close>, \<open>Area_Write\<close> and \<open>Ndef_Write\<close> prove
  that the procedures implement functions of the memory alone: \<open>message_in\<close> (what a read finds),
  \<open>write_check\<close> (whether and where a message is accepted), \<open>stored\<close> and \<open>interrupted\<close> (the memory after
  a complete and an interrupted write). \<open>Roundtrip\<close> is about these functions: what is read after a
  write. \<open>Message_Register\<close> carries this over to any sequence of calls: the specification is a store
  whose state is the current message, and \<open>holds_message\<close> relates memories to it. \<open>Evaluate\<close> makes
  them computable; \<open>Plain_Tags\<close> (locales \<open>plain_front\<close>, \<open>plain_tag\<close>) determines them on every tag without
  control TLVs; \<open>Samples\<close> evaluates them on the tags of the tests. \<open>Long_Message\<close> has a tag with 255
  sectors on a perfect link (\<open>flawless\<close>) and a message on it that a writer's buffer holds and a
  reader's does not.

  \<^bold>\<open>What is shown.\<close>
  \<^item> Codecs: containers, control descriptors, length fields and blocks survive encoding and decoding,
    and so do commands but for the second SECTOR SELECT packet, which cannot; the parser accepts exactly the grammar and never panics; accepted control descriptors
    lie in the address space and their arithmetic does not overflow; a build with fixed buffers parses
    like one with growable vectors or runs out of room.
  \<^item> Layout: exactly the announced bytes are skipped; the walk finds the n-th usable byte; addresses
    convert back and forth.
  \<^item> Protocol: for every transceiver, retries follow a re-selection of the intended sector (\<open>Reader\<close>); reading sends no WRITE and a rejected message costs none (\<open>Traffic\<close>); one lost
    command is survived (\<open>Recovery\<close>); no procedure panics (\<open>Ndef\<close>); the number of frames is bounded
    whatever the tag answers (\<open>Effort\<close>).
  \<^item> State: through all sequences of public operations, with known and unknown sectors, single commands
    with their retries and changes of the settings, a known sector is the tag's active one, and the
    cache is never stale; one WRITE changes at most its own four bytes (\<open>Sessions\<close>).
  \<^item> Sequences of calls: a tag that satisfies \<open>holds_message\<close> behaves as a store for one message
    (\<open>Message_Register\<close> has the specification and the simulation).
  \<^item> This theory: \<open>read_ndef\<close> and \<open>write_ndef\<close> refine the functions of the memory on every conforming
    tag; no byte but data bytes of the message changes; which messages are accepted; the bytes a write
    leaves on a plain tag; when what was written is read back; interrupted writes on static tags
    without reserved TLVs leave no mixture; parsed blocks are well-formed; the two builds read alike
    up to \<open>BufferFull\<close>.
  \<^item> Where the code falls short, as theorems: a lock byte inside the message and a reserved TLV in front
    of it break the round trip; a message that fits the write buffer only blocks the tag for the
    default build; after a lost sector the next block command goes to the wrong sector.

  \<^bold>\<open>Bounds.\<close> Integers have the width of the source: \<open>u8\<close>, \<open>u16\<close>, \<open>u32\<close> words; \<open>usize\<close> is a \<open>nat\<close> with
  the checked additions of the source against a maximum of at least 32 bits. All loops are total
  functions without fuel: the retry loop counts down the attempts, the loops over the data area
  approach the end of the address space, the parser approaches the end of its input. The
  hypotheses \<open>passes_in_reach\<close> and \<open>write_in_reach\<close> say that the data area lies in the sectors of
  the tag; \<open>canonical_front\<close> (the blocks in front of the message are stored as \<open>to_bytes\<close> encodes them and
  include all control TLVs) and \<open>skips_no_data\<close> (no lock or reserved area inside the data area) are
  the conditions of the round trip, \<open>buffers_suffice\<close> says when a reader's buffers hold the result;
  \<open>holds_message\<close> states them once for all messages.

  \<^bold>\<open>Not modelled.\<close> \<open>lib.rs\<close> (module declarations and documentation), derived and formatting trait
  implementations (\<open>Debug\<close>, \<open>Display\<close>, \<open>Clone\<close>, \<open>Error\<close>), feature selection in the build files, and
  the radio behind a transceiver.
\<close>

section \<open>The reader and the tag\<close>

text \<open>
  C1. On every conforming tag, \<open>read_ndef\<close> returns the message that the memory of the tag holds, as
  the abstract function \<open>message_in\<close> finds it, or its error; the only other outcome is a failure of
  the tag or the link. It never changes the memory, never panics, and leaves the reader in step with
  the tag.
\<close>

theorem read_ndef_refines_memory:
  fixes r :: "'t reader"
  assumes "t2t_tag T mem active sectors faults" and "build_ok B" and "tag_in_step mem active sectors r"
    and "\<forall>cc. cc_in (mem (transceiver r)) = Ok cc \<longrightarrow> passes_in_reach sectors B cc (mem (transceiver r))"
  shows "case read_ndef T B r of
      (Ok x, r') \<Rightarrow> message_in B (mem (transceiver r)) = Ok x \<and>
        mem (transceiver r') = mem (transceiver r) \<and> tag_in_step mem active sectors r'
    | (Err e, r') \<Rightarrow> (e \<in> faults \<or> (\<exists>e'. e = Protocol e' \<and> message_in B (mem (transceiver r)) = Err e')) \<and>
        mem (transceiver r') = mem (transceiver r) \<and> tag_in_step mem active sectors r'
    | (Panic, r') \<Rightarrow> False"
  using triple_at [OF t2t_tag.read_ndef_computes [OF assms(1,2), of "mem (transceiver r)",
        unfolded t2t_tag.computes_def [OF assms(1)]], of r] assms(3,4)
  by auto

theorem read_ndef_refines_memory_witness:
  "fst (read_ndef recording heapless_build static_reader) = Ok []"
proof -
  have "message_in heapless_build static_memory = Ok []"
    by (simp add: message_in_def static_cc_in static_blocks_in static_valid)
  then show ?thesis
    using read_ndef_refines_memory [OF rec_tag.t2t_tag_axioms builds_ok(1), of static_reader]
      static_write_in_reach [of 1]
    by (auto simp: write_in_reach_def split: prod.splits res.splits)
qed

text \<open>
  C2. On every conforming tag, \<open>write_ndef\<close> either stores the message completely, at the place and
  with the bytes that \<open>write_check\<close> and \<open>stored\<close> say, or rejects it with the error of
  \<open>write_check\<close> and an unchanged memory, or reports a failure of the tag or the link, in which case
  the memory is unchanged or a prefix of the planned writes has been done.
\<close>

theorem write_ndef_refines_memory:
  fixes r :: "'t reader"
  assumes "t2t_tag T mem active sectors faults" and "build_ok B" and "tag_in_step mem active sectors r"
    and "write_in_reach sectors B (mem (transceiver r))"
  defines "m \<equiv> mem (transceiver r)"
  shows "case write_ndef T B data r of
      (Ok _, r') \<Rightarrow> tag_in_step mem active sectors r' \<and>
        (\<exists>p. write_check B m data = Ok p \<and> mem (transceiver r') = stored m p data)
    | (Err e, r') \<Rightarrow> tag_in_step mem active sectors r' \<and>
        (mem (transceiver r') = m \<and> (e \<in> faults \<or> (\<exists>e'. e = Protocol e' \<and> write_check B m data = Err e')) \<or>
         (\<exists>p. write_check B m data = Ok p \<and> e \<in> faults \<and> interrupted m p data (mem (transceiver r'))))
    | (Panic, r') \<Rightarrow> False"
  unfolding m_def
  by (rule triple_at [OF t2t_tag.write_ndef_at [OF assms(1,2,4)]]) (use assms(3) in simp_all)

theorem write_ndef_refines_memory_witness:
  "case write_ndef lossy heapless_build [0xD0, 0, 0] (lossy_reader [Served, Missed, Served, Unanswered]) of
     (Ok _, r') \<Rightarrow> \<exists>p. write_check heapless_build static_memory [0xD0, 0, 0] = Ok p \<and>
       tag_memory (transceiver r') = stored static_memory p [0xD0, 0, 0]
   | (Err e, r') \<Rightarrow> tag_memory (transceiver r') = static_memory \<or>
       (\<exists>p. interrupted static_memory p [0xD0, 0, 0] (tag_memory (transceiver r')))
   | (Panic, r') \<Rightarrow> False"
  using write_ndef_refines_memory [OF lossy_tag.t2t_tag_axioms builds_ok(1), of
      "lossy_reader [Served, Missed, Served, Unanswered]" "[0xD0, 0, 0]"]
    static_write_in_reach [of 255]
  by (auto split: prod.splits res.splits)

text \<open>
  C3. Whatever happens during \<open>write_ndef\<close>, on every conforming tag: a byte that changes is a data
  byte, one of the first \<open>data_area_size\<close> usable bytes behind the Capability Container of a writable
  tag. Lock bytes, reserved bytes, the Capability Container and everything behind the data area keep
  their values, also when commands fail, answers are lost or the tag falls back to sector 0.
\<close>

theorem write_ndef_keeps_other_bytes:
  fixes r :: "'t reader"
  assumes "t2t_tag T mem active sectors faults" and "build_ok B" and "tag_in_step mem active sectors r"
    and "write_in_reach sectors B (mem (transceiver r))"
    and "mem (transceiver (snd (write_ndef T B data r))) a \<noteq> mem (transceiver r) a"
  defines "m \<equiv> mem (transceiver r)"
  shows "\<exists>cc ts. cc_in m = Ok cc \<and> write_access cc = Granted \<and> blocks_in B cc m = Ok ts \<and>
    16 \<le> a \<and> a \<notin> skipped_bytes cc ts \<and>
    a \<in> set (take (unat (cc_data_area_size cc)) (usable_addrs (layout_of cc ts)))"
proof -
  obtain x r' where w: "write_ndef T B data r = (x, r')" by fastforce
  have diff: "mem (transceiver r') a \<noteq> m a"
    using assms(5) by (simp add: w m_def)
  obtain p where p: "write_check B m data = Ok p"
    "mem (transceiver r') = stored m p data \<or> interrupted m p data (mem (transceiver r'))"
    using t2t_tag.write_ndef_at [OF assms(1,2,4), unfolded triple_def, rule_format, of r data] assms(3) diff
    by (cases x) (auto simp: w m_def)
  obtain cc ts where ts: "cc_in m = Ok cc" "write_access cc = Granted" "blocks_in B cc m = Ok ts"
    "wp_layout p = layout_of cc ts"
    using write_check_Ok [OF assms(2) p(1)] by metis
  have "a \<in> set (message_addrs (layout_of cc ts) (wp_ndef_offset p))"
    using changed_in_message [OF p(2) diff] by (simp add: ts(4))
  from message_addrs_data [OF parsed_D(1) [OF assms(2) blocks_in_parsed [OF ts(3)]] this] ts
  show ?thesis by blast
qed

theorem write_ndef_keeps_other_bytes_witness:
  "tag_memory (transceiver (snd (write_ndef lossy heapless_build [0xD0, 0, 0]
      (lossy_reader [Served, Served, Unanswered, Missed])))) 15 = 0"
proof (rule ccontr)
  let ?r = "lossy_reader [Served, Served, Unanswered, Missed]"
  assume "tag_memory (transceiver (snd (write_ndef lossy heapless_build [0xD0, 0, 0] ?r))) 15 \<noteq> 0"
  moreover have "static_memory 15 = 0"
    by (simp add: recording_setup_def)
  ultimately show False
    using write_ndef_keeps_other_bytes [OF lossy_tag.t2t_tag_axioms builds_ok(1), of ?r "[0xD0, 0, 0]" 15]
      static_write_in_reach [of 255] by auto
qed

text \<open>
  C7. On a conforming tag that does not fail and whose blocks parse, \<open>write_ndef\<close> succeeds exactly when
  the Capability Container is valid and grants write access, the length of the message can be encoded,
  there is an NDEF Message TLV, the encodings of the blocks in front of it, of the message and of a
  Terminator are together no longer than the data area, and the message with its Terminator fits the
  write buffer of the build. The blocks in front are the parsed ones, each counted with the length
  that \<open>to_bytes\<close> gives it: TLVs with a reserved tag, which the parser skips, do not count.
\<close>

theorem write_ndef_accepts_iff_fits:
  fixes r :: "'t reader"
  assumes "t2t_tag T mem active sectors {}" and "build_ok B" and "tag_in_step mem active sectors r"
    and "write_in_reach sectors B (mem (transceiver r))"
    and "cc_in (mem (transceiver r)) = Ok cc" and "blocks_in B cc (mem (transceiver r)) = Ok ts"
  shows "fst (write_ndef T B data r) = Ok () \<longleftrightarrow> is_valid cc \<and> write_access cc = Granted \<and>
    length data \<le> 0xFFFE \<and> first_ndef ts \<noteq> None \<and>
    length (concat (map tlv_bytes (before_ndef ts @ [NdefMessage data, Terminator]))) \<le>
      unat (cc_data_area_size cc) \<and>
    vec_fits (bytes_lib B) DATA_VEC_CAP (length (concat (map tlv_bytes [NdefMessage data, Terminator])))"
proof -
  have "unat (cc_data_area_size cc) \<le> length (usable_addrs (layout_of cc ts))"
    using assms(4-6) by (auto simp: write_in_reach_def in_reach_def Let_def layout_of_def)
  note iff = write_check_Ok_iff [OF assms(2,5,6) this, of data]
  have size: "length (length_field (of_nat (length data))) = l_field_size (length data)" if "length data \<le> 0xFFFE"
    using length_l_bytes [OF that] by simp
  have "fst (write_ndef T B data r) = Ok () \<longleftrightarrow> (\<exists>p. write_check B (mem (transceiver r)) data = Ok p)"
    using t2t_tag.write_ndef_reliable_at [OF assms(1,2,4) refl assms(3), of data]
    by (cases "write_check B (mem (transceiver r)) data") auto
  then show ?thesis
    unfolding iff ndef_offset_before [OF blocks_in_wf [OF assms(2,6)], of 0]
    by (auto simp: message_end_def size split: option.splits simp del: length_length_field)
qed

theorem write_ndef_accepts_iff_fits_witness:
  "fst (write_ndef recording heapless_build (replicate 45 0x55) static_reader) = Ok () \<and>
   fst (write_ndef recording heapless_build (replicate 46 0x55) static_reader) \<noteq> Ok ()"
  using write_ndef_accepts_iff_fits [OF rec_tag.t2t_tag_axioms builds_ok(1), of static_reader static_cc
      "[NdefMessage [], Terminator]" "replicate 45 0x55"]
    write_ndef_accepts_iff_fits [OF rec_tag.t2t_tag_axioms builds_ok(1), of static_reader static_cc
      "[NdefMessage [], Terminator]" "replicate 46 0x55"] static_write_in_reach [of 1]
  by (simp add: static_cc_in static_blocks_in static_valid static_not_dynamic length_field_def before_ndef_def
      DATA_VEC_CAP_def)



text \<open>
  C5. What \<open>write_ndef\<close> reports as written, \<open>read_ndef\<close> returns, without changing the tag, on every
  conforming tag whose blocks have no lock or reserved area inside the data area and whose blocks in
  front of the message, all control TLVs among them, are encoded as \<open>to_bytes\<close> encodes them. The only
  other outcomes are a failure of the link or the tag, and \<open>BufferFull\<close> when the blocks in front of
  the message and the message together exceed the buffers of a reader; then it is never read.
\<close>

theorem write_read_ndef_roundtrip:
  fixes r r1 :: "'t reader"
  assumes "t2t_tag T mem active sectors faults" and "build_ok B" and "tag_in_step mem active sectors r"
    and "write_in_reach sectors B (mem (transceiver r))"
    and "cc_in (mem (transceiver r)) = Ok cc" and "blocks_in B cc (mem (transceiver r)) = Ok ts"
    and "skips_no_data cc ts" and "canonical_front cc ts (mem (transceiver r))"
    and "write_ndef T B data r = (Ok (), r1)"
  shows "case read_ndef T B r1 of
      (Ok x, r2) \<Rightarrow> x = data \<and> buffers_suffice B ts (length data) \<and> mem (transceiver r2) = mem (transceiver r1)
    | (Err e, r2) \<Rightarrow> (e \<in> faults \<or> e = Protocol type2_error.BufferFull \<and> \<not> buffers_suffice B ts (length data)) \<and>
        mem (transceiver r2) = mem (transceiver r1)
    | (Panic, r2) \<Rightarrow> False"
  by (rule t2t_tag.write_then_read_at(1) [OF assms(1,2,4,5,6,7,8,3) refl assms(9)])

theorem write_read_ndef_roundtrip_witness:
  "fst (read_ndef recording heapless_build
     (snd (write_ndef recording heapless_build [0xD0, 0x00, 0x00] static_reader))) = Ok [0xD0, 0x00, 0x00]"
proof -
  obtain r1 where r1: "write_ndef recording heapless_build [0xD0, 0x00, 0x00] static_reader = (Ok (), r1)"
    using rec_tag.write_ndef_accepted_at [of heapless_build static_reader "[0xD0, 0x00, 0x00]"]
      static_write_in_reach [of 1] static_accepts [of "[0xD0, 0x00, 0x00]"] by auto
  show ?thesis
    using write_read_ndef_roundtrip [OF rec_tag.t2t_tag_axioms builds_ok(1), of static_reader static_cc
        "[NdefMessage [], Terminator]" "[0xD0, 0x00, 0x00]" r1] r1 static_write_in_reach [of 1] static_plain
    by (auto simp: static_cc_in static_blocks_in split: prod.splits res.splits)
qed

text \<open>
  C6. A conforming tag on which \<open>holds_message\<close> relates the memory to a current message is a store for
  one message, over any sequence of reads and writes: every read returns the message written last, or
  the one from before when none was accepted; a message is accepted exactly when it fits behind the
  blocks in front of it, and refused with the error of \<open>write_verdict\<close> without changing what is
  stored. A failure of the link or the tag during a read or a refused write changes nothing; after one
  during the write of an accepted message nothing more is promised. \<open>holds_message\<close> asks for a valid
  container, blocks in front of the message that are encoded canonically and include all control TLVs,
  no lock or reserved area inside the data area, and a data area and a number of blocks that fit the
  buffers of the build.
\<close>

theorem ndef_calls_store_messages:
  fixes r :: "'t reader"
  assumes "t2t_tag T mem active sectors faults" and "build_ok B" and "tag_in_step mem active sectors r"
    and "write_in_reach sectors B (mem (transceiver r))"
    and "holds_message B cc pre (mem (transceiver r)) msg"
  shows "stores_messages faults (write_verdict cc (length (concat (map tlv_bytes pre)))) msg calls
    (call_results T B calls r)"
  by (rule t2t_tag.calls_store_messages [OF assms(1,2,3,4,5)])

theorem ndef_calls_store_messages_witness:
  "call_results recording heapless_build
     [ReadNdef, WriteNdef [0xD0, 0, 0], WriteNdef (replicate 46 0), ReadNdef, WriteNdef [], ReadNdef] static_reader =
   [Ok (Some []), Ok None, Err (Protocol OutOfRange), Ok (Some [0xD0, 0, 0]), Ok None, Ok (Some [])]"
proof -
  have "holds_message heapless_build static_cc [] static_memory []"
    by (rule plain_tag.plain_holds_message [OF static.plain_tag_axioms builds_ok(1)])
  then show ?thesis
    using ndef_calls_store_messages [OF rec_tag.t2t_tag_axioms builds_ok(1), of static_reader static_cc "[]" "[]"
        "[ReadNdef, WriteNdef [0xD0, 0, 0], WriteNdef (replicate 46 0), ReadNdef, WriteNdef [], ReadNdef]"]
      static_write_in_reach [of 1]
    by (simp add: stores_messages_reliable write_verdict_def l_field_size_def static_not_dynamic static_valid
        del: call_results.simps)
qed

text \<open>
  C8. An interrupted write on a static tag without reserved TLVs never leaves a mixture of messages:
  what a later read of the memory yields is the message from before, an empty message, the new
  message, or an error. Precisely, the blocks in front of the message, all control TLVs among them,
  are encoded as \<open>to_bytes\<close> encodes them, so that neither a TLV with a reserved tag nor an overlong
  length field stands there; no lock or reserved area of the blocks lies inside the data area; and the
  byte at the offset that the writer computes is the tag of an NDEF Message TLV. Without these
  conditions (see \<open>reserved_tlv_overwritten\<close>) a cut write can leave a third message.
\<close>

theorem interrupted_write_is_atomic:
  fixes r r1 :: "'t reader"
  assumes "t2t_tag T mem active sectors faults" and "build_ok B" and "tag_in_step mem active sectors r"
    and "write_in_reach sectors B (mem (transceiver r))"
    and "cc_in (mem (transceiver r)) = Ok cc" and "blocks_in B cc (mem (transceiver r)) = Ok ts"
    and "\<not> is_dynamic cc" and "skips_no_data cc ts" and "canonical_front cc ts (mem (transceiver r))"
    and "\<forall>off. ndef_tlv_offset 0 ts = Some off \<longrightarrow> area_bytes (layout_of cc ts) (mem (transceiver r)) ! off = 0x03"
    and "write_ndef T B data r = (Err e, r1)" and "message_in B (mem (transceiver r1)) = Ok x"
  shows "x \<in> {[], data} \<or> message_in B (mem (transceiver r)) = Ok x"
proof -
  let ?m = "mem (transceiver r)"
  consider "mem (transceiver r1) = ?m"
    | p where "write_check B ?m data = Ok p" "interrupted ?m p data (mem (transceiver r1))"
    using t2t_tag.write_ndef_at [OF assms(1,2,4), unfolded triple_def, rule_format, of r data] assms(3,11)
    by auto
  then show ?thesis
  proof cases
    case 1
    with assms(12) show ?thesis by simp
  next
    case (2 p)
    have "?m (hd (message_addrs (wp_layout p) (wp_ndef_offset p))) = 0x03"
      by (rule message_start [OF assms(2) 2(1) assms(5,6,10)])
    from interrupted_message [OF assms(2) 2(1) assms(5,6,8,9,7) this 2(2) assms(12)]
    show ?thesis .
  qed
qed

theorem interrupted_write_is_atomic_witness:
  "message_in heapless_build (tag_memory (transceiver (snd (write_ndef lossy heapless_build [0xFE, 0xD0, 0x00]
     (lossy_reader [Served, Served, Unanswered, Missed]))))) = Ok []"
proof -
  let ?r = "lossy_reader [Served, Served, Unanswered, Missed]"
  obtain e r1 where r1: "write_ndef lossy heapless_build [0xFE, 0xD0, 0x00] ?r = (Err e, r1)"
    and "map (tag_memory (transceiver r1)) [12 ..< 20] = [0xE1, 0x10, 0x06, 0x00, 0x03, 0x00, 0xFE, 0xD0]"
    using torn_write by (auto split: prod.splits res.splits)
  then have "cc_in (tag_memory (transceiver r1)) = cc_in static_memory"
    and "tlvs_in heapless_build (layout_of static_cc []) (tag_memory (transceiver r1)) = Ok [NdefMessage [], Terminator]"
    by (simp_all add: static_empty cc_in_def recording_setup_def)
  then have found: "message_in heapless_build (tag_memory (transceiver r1)) = Ok []"
    by (simp add: message_in_def static_cc_in blocks_in_def static_not_dynamic static_valid)
  have "[] \<in> {[], [0xFE, 0xD0, 0x00]} \<or> message_in heapless_build static_memory = Ok []"
    using interrupted_write_is_atomic [OF lossy_tag.t2t_tag_axioms builds_ok(1) _ _ _ _ _ _ _ _ r1 found,
        of static_cc "[NdefMessage [], Terminator]"]
      static_write_in_reach [of 255] static_plain(1,2) static_not_dynamic(1)
    by (simp add: static_cc_in static_blocks_in static_area static_not_dynamic recording_setup_def)
  with found show ?thesis by (simp add: r1)
qed

section \<open>Parsed blocks\<close>

text \<open>
  C32. What the parser returns is well-formed: every control descriptor has its fields in range and
  an area inside the address space, a Terminator can only be the last block, a value has at most
  65,535 bytes, and all values together are no longer than the data that was parsed.
\<close>

theorem parsed_blocks_well_formed:
  assumes "build_ok B" and "parse_tlvs (bytes_lib B) (tlv_lib B) data = Ok ts"
  shows "list_all control_ok ts \<and> Terminator \<notin> set (butlast ts) \<and>
    list_all (\<lambda>t. length (block_value t) \<le> 0xFFFF) ts \<and>
    sum_list (map (\<lambda>t. length (block_value t)) ts) \<le> length data"
  using parsed_control_ok [OF assms] tlv_stream_values [of data ts] assms(2)
    parse_tlvs_iff [OF build_okD(1,2) [OF assms(1)]]
  by (auto simp: list_all_iff)

theorem parsed_blocks_well_formed_witness:
  "list_all control_ok lock_blocks \<and> Terminator \<notin> set (butlast lock_blocks)"
proof -
  have "parse_tlvs (bytes_lib heapless_build) (tlv_lib heapless_build)
      [0x01, 0x03, 0x70, 0x08, 0x32, 0x03, 0x00, 0xFE] = Ok lock_blocks"
    by (simp add: eval_blocks lock_blocks_def)
  from parsed_blocks_well_formed [OF builds_ok(1) this] show ?thesis
    by blast
qed

section \<open>The two builds\<close>

text \<open>Each pass over the memory gives what it gives with growable vectors, or \<open>BufferFull\<close>.\<close>

lemma tlvs_in_alike:
  assumes "build_ok B"
  shows "tlvs_in B L m = tlvs_in alloc_build L m \<or> tlvs_in B L m = Err type2_error.BufferFull"
  using parse_tlvs_alike [OF build_okD(1,2) [OF assms]]
  by (simp add: tlvs_in_def scanned_area_def Let_def)

lemma message_in_alike:
  assumes "build_ok B"
  shows "message_in B m = message_in alloc_build m \<or> message_in B m = Err type2_error.BufferFull"
proof -
  note alike = tlvs_in_alike [OF assms]
  have "blocks_in B cc m = blocks_in alloc_build cc m \<or> blocks_in B cc m = Err type2_error.BufferFull" for cc
  proof (cases "tlvs_in B (layout_of cc []) m = Err type2_error.BufferFull")
    case False
    then have "tlvs_in B (layout_of cc []) m = tlvs_in alloc_build (layout_of cc []) m"
      using alike by metis
    then show ?thesis
      using alike [of "layout_of cc ts" m for ts]
      by (cases "tlvs_in alloc_build (layout_of cc []) m") (simp_all add: blocks_in_def)
  qed (simp add: blocks_in_def)
  note blocks = this
  show ?thesis
  proof (cases "cc_in m")
    case (Ok cc)
    with blocks [of cc] show ?thesis
      by (auto simp: message_in_def)
  qed (simp_all add: message_in_def)
qed

text \<open>
  C33. The two builds read alike: on a conforming tag that does not fail and whose data area lies in
  its sectors, \<open>read_ndef\<close> with any build either returns exactly what it returns with growable
  vectors, the message or the error, or it returns \<open>BufferFull\<close>.
\<close>

theorem builds_read_alike:
  fixes r :: "'t reader"
  assumes "t2t_tag T mem active sectors {}" and "build_ok B" and "tag_in_step mem active sectors r"
    and "\<forall>cc. cc_in (mem (transceiver r)) = Ok cc \<longrightarrow> passes_in_reach sectors alloc_build cc (mem (transceiver r))"
  shows "fst (read_ndef T B r) = fst (read_ndef T alloc_build r) \<or>
    fst (read_ndef T B r) = Err (Protocol type2_error.BufferFull)"
proof -
  let ?m = "mem (transceiver r)"
  have eq: "fst (read_ndef T A r) = map_err Protocol (message_in A ?m)"
    if "build_ok A" "\<And>cc. cc_in ?m = Ok cc \<Longrightarrow> passes_in_reach sectors A cc ?m" for A
    by (rule t2t_tag.computes_reliable [OF assms(1) t2t_tag.read_ndef_computes [OF assms(1) that] refl assms(3) refl])
  have "passes_in_reach sectors B cc ?m" if "cc_in ?m = Ok cc" for cc
    using assms(4) that tlvs_in_alike [OF assms(2), of "layout_of cc []" ?m]
    by (auto simp: passes_in_reach_def)
  from eq [OF assms(2) this] eq [OF builds_ok(2)] assms(4) message_in_alike [OF assms(2), of ?m]
  show ?thesis by auto
qed

theorem builds_read_alike_witness:
  "fst (read_ndef recording heapless_build static_reader) = fst (read_ndef recording alloc_build static_reader)"
proof -
  have "fst (read_ndef recording heapless_build static_reader) = Ok []"
    using rec_tag.computes_reliable [OF rec_tag.read_ndef_computes [OF builds_ok(1)] refl, of static_memory static_reader]
      static.message_in_plain [OF builds_ok(1)] static.write_in_reach_plain(2) [OF builds_ok(1), of 1]
    by (simp add: static_cc_in)
  then show ?thesis
    using builds_read_alike [OF rec_tag.t2t_tag_axioms builds_ok(1), of static_reader]
      static.write_in_reach_plain(2) [OF builds_ok(2), of 1]
    by (simp add: static_cc_in)
qed

section \<open>Where the round trip ends\<close>

text \<open>
  C34. The hypothesis of the round trip about lock areas is needed: on the tag of the test
  \<open>write_ndef_preserves_lock_region_inside_value\<close> the write succeeds and keeps the lock byte, but the
  message it wrote cannot be read: \<open>read_ndef\<close> gives up in its first, unfiltered pass.
\<close>

theorem lock_area_in_value_not_readable:
  "fst (write_ndef recording heapless_build lock_data (reader_new lock_tag)) = Ok () \<and>
   memory (transceiver (snd (write_ndef recording heapless_build lock_data (reader_new lock_tag)))) 28 = 0xA5 \<and>
   fst (read_ndef recording heapless_build
     (snd (write_ndef recording heapless_build lock_data (reader_new lock_tag)))) =
     Err (Protocol type2_error.InvalidTlv)"
proof -
  let ?r = "reader_new lock_tag"
  obtain p where p: "write_check heapless_build (memory lock_tag) lock_data = Ok p"
    "stored (memory lock_tag) p lock_data 28 = 0xA5"
    using lock_write [OF builds_ok(1)] by (auto simp: lock_tag_def)
  have r: "rec_tag.in_step ?r" "memory (transceiver ?r) = memory lock_tag"
    using reader_new_in_step [of "\<lambda>_. 0" lock_tag 1 memory] by (simp_all add: reader_new_def)
  obtain r1 where r1: "write_ndef recording heapless_build lock_data ?r = (Ok (), r1)" "rec_tag.in_step r1"
    "memory (transceiver r1) = stored (memory lock_tag) p lock_data"
    by (rule rec_tag.write_ndef_accepted_at [of heapless_build ?r lock_data p])
      (use lock_blocks_in(2) [OF builds_ok(1)] r p(1) in simp_all)
  have "rec_tag.computes (stored (memory lock_tag) p lock_data) (read_ndef recording heapless_build)
      (message_in heapless_build (stored (memory lock_tag) p lock_data))"
    by (rule rec_tag.read_ndef_computes [OF builds_ok(1)])
      (use lock_message(2) [OF p(1)] in \<open>simp add: cc_in_stored lock_cc_in\<close>)
  from rec_tag.computes_reliable [OF this refl r1(2,3)] r1 p(2) show ?thesis
    by (simp add: lock_message(1) [OF p(1)])
qed

text \<open>
  C35. The hypothesis about the blocks in front of the message is needed to keep them: with a TLV of a
  reserved tag in front of the NDEF Message TLV, which the parser skips, \<open>write_ndef\<close> puts the
  message at the start of the data area and overwrites that TLV.
\<close>

theorem reserved_tlv_overwritten:
  "fst (write_ndef recording heapless_build [0xD0] (reader_new reserved_tag)) = Ok () \<and>
   map (memory reserved_tag) [16, 17, 18, 19] = [0x04, 0x02, 0xAA, 0xBB] \<and>
   map (memory (transceiver (snd (write_ndef recording heapless_build [0xD0] (reader_new reserved_tag))))) [16, 17, 18, 19] =
     [0x03, 0x01, 0xD0, 0xFE]"
proof -
  let ?r = "reader_new reserved_tag"
  obtain p where p: "write_check heapless_build (memory reserved_tag) [0xD0] = Ok p"
    "stored (memory reserved_tag) p [0xD0] = place (memory reserved_tag) [16, 17, 18, 19] [0x03, 0x01, 0xD0, 0xFE]"
    using reserved_write by blast
  have r: "rec_tag.in_step ?r" "memory (transceiver ?r) = memory reserved_tag"
    using reader_new_in_step [of "\<lambda>_. 0" reserved_tag 1 memory] by (simp_all add: reader_new_def)
  show ?thesis
    using rec_tag.write_ndef_reliable_at [OF builds_ok(1), of ?r "[0xD0]"] reserved_write_in_reach r p
    by (simp add: reserved_tag_def)
qed

text \<open>
  C36. The buffers of a reader and of a writer differ: a message that \<open>write_ndef\<close> accepts, but that
  exceeds a reader's buffers together with the blocks in front of it, makes the tag useless to this
  build. On every conforming tag as in the round trip, every later call, \<open>read_ndef\<close> and \<open>write_ndef\<close>
  with any message alike, fails with \<open>BufferFull\<close> or with a failure of the link or the tag. The
  instance is a message of 1019 bytes behind a proprietary TLV of five bytes, with the default buffers
  of 1024 bytes: the write succeeds, and then a read, a write of the empty message and another read
  fail.
\<close>

theorem long_message_blocks_tag:
  fixes r r1 :: "'t reader"
  assumes "t2t_tag T mem active sectors faults" and "build_ok B" and "tag_in_step mem active sectors r"
    and "write_in_reach sectors B (mem (transceiver r))"
    and "cc_in (mem (transceiver r)) = Ok cc" and "blocks_in B cc (mem (transceiver r)) = Ok ts"
    and "skips_no_data cc ts" and "canonical_front cc ts (mem (transceiver r))"
    and "write_ndef T B data r = (Ok (), r1)" and "\<not> buffers_suffice B ts (length data)"
  shows "list_all (\<lambda>x. x = Err (Protocol type2_error.BufferFull) \<or> (\<exists>e \<in> faults. x = Err e))
    (call_results T B calls r1)"
  by (rule t2t_tag.calls_after_long_message [OF assms(1,2,4,5,6,7,8,3) refl assms(9,10)])

theorem long_message_blocks_tag_witness:
  "case write_ndef flawless heapless_build long_data long_reader of
     (Ok _, r1) \<Rightarrow> call_results flawless heapless_build [ReadNdef, WriteNdef [], ReadNdef] r1 =
       replicate 3 (Err (Protocol type2_error.BufferFull))
   | _ \<Rightarrow> False"
proof (rule long_write)
  fix r1
  assume r1: "write_ndef flawless heapless_build long_data long_reader = (Ok (), r1)"
  have "list_all (\<lambda>x. x = Err (Protocol type2_error.BufferFull) \<or> (\<exists>e \<in> {}. x = Err e))
      (call_results flawless heapless_build [ReadNdef, WriteNdef [], ReadNdef] r1)"
    using long_message_blocks_tag [OF flawless_tag.t2t_tag_axioms builds_ok(1) long_in_step(1), of long_cc
        long.blocks long_data r1] long_in_reach long_cc_in long.blocks_in_plain [OF builds_ok(1)]
      long.roundtrip_plain r1 long_buffers
    unfolding long_in_step(2) by blast
  then show ?thesis
    by (simp add: r1 numeral_3_eq_3 split: prod.splits del: call_ndef.simps)
qed


end
